(* ===== verification/Andromeda_Prelude.thy ===== *)
theory Andromeda_Prelude
  imports Main "HOL-Library.Word" "HOL-Library.AList" "HOL-Library.Product_Lexorder"
begin

text \<open>
  What every component of the development shares: the machine integer types, the error value
  of the \<open>andromeda-error\<close> crate and the \<open>?\<close> operator on results, the parts of Rust's
  standard library the sources use (checked and saturating integer operations,
  \<open>Iterator::position\<close>, hash maps and ordered maps as association lists), the interface of a
  finite map as a locale with its two interpretations, and the locale of a transition system
  with an invariant that the component theories interpret.
\<close>

section \<open>Integers\<close>

type_synonym u8 = "8 word"
type_synonym u16 = "16 word"
type_synonym u32 = "32 word"
type_synonym u64 = "64 word"

text \<open>Counts and lengths (\<open>usize\<close>) are bounded by memory; they are natural numbers here.\<close>

type_synonym usize = nat

definition checked_add :: "'a::len word \<Rightarrow> 'a word \<Rightarrow> 'a word option" where
  "checked_add a b = (if unat a + unat b < 2 ^ LENGTH('a) then Some (a + b) else None)"

definition saturating_sub :: "'a::len word \<Rightarrow> 'a word \<Rightarrow> 'a word" where
  "saturating_sub a b = (if a < b then 0 else a - b)"

lemma checked_add_Some_unat:
  "checked_add a b = Some c \<Longrightarrow> unat c = unat a + unat b"
  by (auto simp: checked_add_def unat_word_ariths split: if_splits)

lemma checked_add_one_less:
  "checked_add a 1 = Some c \<Longrightarrow> a < c"
  by (auto dest!: checked_add_Some_unat simp: word_less_nat_alt)

lemma checked_add_one_le:
  "checked_add a 1 = Some c \<Longrightarrow> a \<le> c"
  by (auto dest: checked_add_one_less)

lemma checked_add_one_pos:
  "checked_add a 1 = Some c \<Longrightarrow> 0 < c"
  by (drule checked_add_one_less) (metis word_gt_0 word_not_simps(1))

lemma checked_add_None_iff:
  "checked_add a b = None \<longleftrightarrow> 2 ^ LENGTH('a) \<le> unat a + unat b" for a :: "'a::len word"
  by (auto simp: checked_add_def)

section \<open>Errors and results\<close>

text \<open>
  \<open>AndromedaErrorKind\<close> and \<open>AndromedaError\<close>. The optional error source is never set by the
  code modelled here and is not compared by the error's equality, so it has no counterpart.
\<close>

datatype andromeda_error_kind =
    Catalog | Contract | Execution | Internal | Protocol | Resource | Security | Srpl
  | Storage | Timeout | Transaction | Transport

datatype andromeda_error = AndromedaError (error_kind: andromeda_error_kind) (error_message: string)

type_synonym 'a andromeda_result = "andromeda_error + 'a"

text \<open>The \<open>?\<close> operator: an error ends the function, a value is passed on.\<close>

definition and_then :: "'e + 'a \<Rightarrow> ('a \<Rightarrow> 'e + 'b) \<Rightarrow> 'e + 'b" where
  "and_then r f = (case r of Inl e \<Rightarrow> Inl e | Inr v \<Rightarrow> f v)"

lemma and_then_simps [simp]:
  "and_then (Inl e) f = Inl e"
  "and_then (Inr v) f = f v"
  by (simp_all add: and_then_def)

lemma and_then_eq_Inr_iff:
  "and_then r f = Inr w \<longleftrightarrow> (\<exists>v. r = Inr v \<and> f v = Inr w)"
  by (cases r) auto

lemma and_then_eq_Inl_iff:
  "and_then r f = Inl e \<longleftrightarrow> r = Inl e \<or> (\<exists>v. r = Inr v \<and> f v = Inl e)"
  by (cases r) auto

lemma and_then_cong [fundef_cong]:
  "r = r' \<Longrightarrow> (\<And>v. r' = Inr v \<Longrightarrow> f v = f' v) \<Longrightarrow> and_then r f = and_then r' f'"
  by (cases r') auto

text \<open>
  The same operator in a function that also returns its state: an error leaves the state as it
  was at that point.
\<close>

definition or_return :: "'s \<Rightarrow> 'e + 'a \<Rightarrow> ('a \<Rightarrow> 's \<times> ('e + 'b)) \<Rightarrow> 's \<times> ('e + 'b)" where
  "or_return s r f = (case r of Inl e \<Rightarrow> (s, Inl e) | Inr v \<Rightarrow> f v)"

lemma or_return_simps [simp]:
  "or_return s (Inl e) f = (s, Inl e)"
  "or_return s (Inr v) f = f v"
  by (simp_all add: or_return_def)

lemma or_return_split:
  "P (or_return s r f) \<longleftrightarrow> (\<forall>e. r = Inl e \<longrightarrow> P (s, Inl e)) \<and> (\<forall>v. r = Inr v \<longrightarrow> P (f v))"
  by (cases r) auto

lemma or_return_eq_Inr_iff:
  "or_return s r f = (t, Inr w) \<longleftrightarrow> (\<exists>v. r = Inr v \<and> f v = (t, Inr w))"
  by (cases r) auto

section \<open>Iterators\<close>

text \<open>\<open>Iterator::position\<close>: the index of the first element that satisfies the predicate.\<close>

fun position :: "('a \<Rightarrow> bool) \<Rightarrow> 'a list \<Rightarrow> nat option" where
  "position P [] = None"
| "position P (x # xs) = (if P x then Some 0 else map_option Suc (position P xs))"

lemma position_None_iff: "position P xs = None \<longleftrightarrow> (\<forall>x \<in> set xs. \<not> P x)"
  by (induction xs) auto

lemma position_SomeD:
  "position P xs = Some i \<Longrightarrow> i < length xs \<and> P (xs ! i) \<and> (\<forall>j<i. \<not> P (xs ! j))"
proof (induction xs arbitrary: i)
  case (Cons x xs)
  then show ?case
    by (auto simp: nth_Cons split: if_splits nat.splits)
qed simp

lemma list_all_in_set_update:
  "i < length xs \<Longrightarrow> y \<in> set (xs[i := v]) \<Longrightarrow> y = v \<or> (\<exists>j<length xs. j \<noteq> i \<and> y = xs ! j)"
  by (metis in_set_conv_nth length_list_update nth_list_update_eq nth_list_update_neq)

lemma distinct_map_update:
  "distinct (map f xs) \<Longrightarrow> i < length xs \<Longrightarrow> f v = f (xs ! i) \<Longrightarrow> distinct (map f (xs[i := v]))"
  by (metis length_map list_update_id map_update nth_map)

text \<open>
  \<open>slice::binary_search\<close>, as far as it is used here: whether the element is found. On a sorted
  slice that is membership.
\<close>

function binary_search_between :: "'a::linorder list \<Rightarrow> 'a \<Rightarrow> nat \<Rightarrow> nat \<Rightarrow> bool" where
  "binary_search_between xs x lo hi =
     (if lo < hi
      then
        (let mid = (lo + hi) div 2 in
         if xs ! mid = x then True
         else if xs ! mid < x then binary_search_between xs x (Suc mid) hi
         else binary_search_between xs x lo mid)
      else False)"
  by pat_completeness auto
termination by (relation "measure (\<lambda>(xs, x, lo, hi). hi - lo)") auto

declare binary_search_between.simps [simp del]

definition binary_search :: "'a::linorder list \<Rightarrow> 'a \<Rightarrow> bool" where
  "binary_search xs x = binary_search_between xs x 0 (length xs)"

lemma binary_search_between_iff:
  "sorted xs \<Longrightarrow> hi \<le> length xs \<Longrightarrow>
     binary_search_between xs x lo hi \<longleftrightarrow> (\<exists>i. lo \<le> i \<and> i < hi \<and> xs ! i = x)"
proof (induction xs x lo hi rule: binary_search_between.induct)
  case (1 xs x lo hi)
  show ?case
  proof (cases "lo < hi")
    case True
    define mid where "mid = (lo + hi) div 2"
    have mid: "lo \<le> mid" "mid < hi" using True by (auto simp: mid_def)
    have mono: "xs ! i \<le> xs ! j" if "i \<le> j" "j < hi" for i j
      using that 1 by (simp add: sorted_nth_mono)
    consider "xs ! mid = x" | "xs ! mid < x" | "x < xs ! mid" by fastforce
    then show ?thesis
    proof cases
      case 2
      then have "(\<exists>i. lo \<le> i \<and> i < hi \<and> xs ! i = x) \<longleftrightarrow> (\<exists>i. Suc mid \<le> i \<and> i < hi \<and> xs ! i = x)"
        using mid mono by (metis Suc_leD leD le_trans not_less_eq_eq)
      with 2 1 True mid show ?thesis
        by (subst binary_search_between.simps) (auto simp: mid_def [symmetric])
    next
      case 3
      then have "(\<exists>i. lo \<le> i \<and> i < hi \<and> xs ! i = x) \<longleftrightarrow> (\<exists>i. lo \<le> i \<and> i < mid \<and> xs ! i = x)"
        using mid mono by (metis leD le_less_linear less_trans)
      with 3 1 True mid show ?thesis
        by (subst binary_search_between.simps) (auto simp: mid_def [symmetric])
    qed (use True mid in \<open>subst binary_search_between.simps, auto simp: mid_def [symmetric]\<close>)
  qed (simp add: binary_search_between.simps)
qed

lemma binary_search_iff: "sorted xs \<Longrightarrow> binary_search xs x \<longleftrightarrow> x \<in> set xs"
  by (simp add: binary_search_def binary_search_between_iff in_set_conv_nth)

section \<open>Printing numbers\<close>

text \<open>The decimal text of a number, as \<open>format!\<close> writes it.\<close>

fun nat_string :: "nat \<Rightarrow> string" where
  "nat_string n =
     (if n < 10 then [char_of (48 + n)] else nat_string (n div 10) @ [char_of (48 + n mod 10)])"

declare nat_string.simps [simp del]

definition u64_string :: "u64 \<Rightarrow> string" where
  "u64_string w = nat_string (unat w)"

section \<open>Text\<close>

text \<open>
  Text is a list of code points below 256: \<open>char::is_whitespace\<close>, \<open>str::trim\<close> followed by \<open>is_empty\<close>,
  \<open>str::to_ascii_lowercase\<close> and \<open>str::contains\<close>.
\<close>

definition is_whitespace :: "char \<Rightarrow> bool" where
  "is_whitespace c \<longleftrightarrow> (of_char c :: nat) \<in> {9, 10, 11, 12, 13, 32, 133, 160}"

definition trim_is_empty :: "string \<Rightarrow> bool" where
  "trim_is_empty s \<longleftrightarrow> list_all is_whitespace s"

definition ascii_lowercase :: "char \<Rightarrow> char" where
  "ascii_lowercase c =
     (let n = (of_char c :: nat) in if 65 \<le> n \<and> n \<le> 90 then char_of (n + 32) else c)"

definition to_ascii_lowercase :: "string \<Rightarrow> string" where
  "to_ascii_lowercase s = map ascii_lowercase s"

definition str_starts_with :: "string \<Rightarrow> string \<Rightarrow> bool" where
  "str_starts_with s pat \<longleftrightarrow> take (length pat) s = pat"

fun str_contains :: "string \<Rightarrow> string \<Rightarrow> bool" where
  "str_contains [] pat \<longleftrightarrow> pat = []"
| "str_contains (c # s) pat \<longleftrightarrow> str_starts_with (c # s) pat \<or> str_contains s pat"

lemma str_contains_iff: "str_contains s pat \<longleftrightarrow> (\<exists>pre post. s = pre @ pat @ post)"
proof (induction s)
  case (Cons c s)
  have "str_starts_with (c # s) pat \<longleftrightarrow> (\<exists>post. c # s = pat @ post)"
    unfolding str_starts_with_def by (metis append_eq_conv_conj)
  then have "str_contains (c # s) pat \<longleftrightarrow> (\<exists>post. c # s = pat @ post) \<or> (\<exists>pre post. s = pre @ pat @ post)"
    using Cons by simp
  also have "\<dots> \<longleftrightarrow> (\<exists>pre post. c # s = pre @ pat @ post)"
    by (metis append.left_neutral append_Cons append_eq_Cons_conv)
  finally show ?case .
qed auto

section \<open>Finite maps\<close>

text \<open>
  \<open>HashMap\<close> is an association list with distinct keys: its order stands for the unspecified
  iteration order, and code that depends on an order sorts first. \<open>BTreeMap\<close> is an
  association list in increasing key order, \<open>BTreeSet\<close> an increasing list.
\<close>

fun btree_insert :: "'k::linorder \<Rightarrow> 'v \<Rightarrow> ('k \<times> 'v) list \<Rightarrow> ('k \<times> 'v) list" where
  "btree_insert k v [] = [(k, v)]"
| "btree_insert k v ((k', v') # kvs) =
     (if k < k' then (k, v) # (k', v') # kvs
      else if k = k' then (k, v) # kvs
      else (k', v') # btree_insert k v kvs)"

definition btree_remove :: "'k \<Rightarrow> ('k \<times> 'v) list \<Rightarrow> ('k \<times> 'v) list" where
  "btree_remove k kvs = filter (\<lambda>kv. fst kv \<noteq> k) kvs"

definition btree_inv :: "('k::linorder \<times> 'v) list \<Rightarrow> bool" where
  "btree_inv kvs \<longleftrightarrow> sorted_wrt (<) (map fst kvs)"

definition hash_inv :: "('k \<times> 'v) list \<Rightarrow> bool" where
  "hash_inv kvs \<longleftrightarrow> distinct (map fst kvs)"

definition btree_set_insert :: "'a::linorder \<Rightarrow> 'a list \<Rightarrow> 'a list" where
  "btree_set_insert x xs = (if x \<in> set xs then xs else insort x xs)"

lemma set_btree_set_insert [simp]: "set (btree_set_insert x xs) = insert x (set xs)"
  by (auto simp: btree_set_insert_def set_insort_key)

lemma sorted_btree_set_insert:
  "sorted_wrt (<) xs \<Longrightarrow> sorted_wrt (<) (btree_set_insert x xs)"
  by (simp add: btree_set_insert_def strict_sorted_iff sorted_insort distinct_insort)

lemma btree_insert_keys: "fst ` set (btree_insert k v kvs) = insert k (fst ` set kvs)"
  by (induction k v kvs rule: btree_insert.induct) auto

lemma map_of_btree_insert: "map_of (btree_insert k v kvs) = (map_of kvs)(k \<mapsto> v)"
  by (induction k v kvs rule: btree_insert.induct) auto

lemma btree_inv_insert: "btree_inv kvs \<Longrightarrow> btree_inv (btree_insert k v kvs)"
proof (induction k v kvs rule: btree_insert.induct)
  case (2 k v k' v' kvs)
  then show ?case
    using btree_insert_keys [of k v kvs] by (auto simp: btree_inv_def)
qed (simp add: btree_inv_def)

lemma map_of_btree_remove: "map_of (btree_remove k kvs) = (map_of kvs)(k := None)"
  by (induction kvs) (auto simp: btree_remove_def)

lemma btree_inv_filter: "btree_inv kvs \<Longrightarrow> btree_inv (filter P kvs)"
  by (induction kvs) (auto simp: btree_inv_def)

lemma btree_inv_remove: "btree_inv kvs \<Longrightarrow> btree_inv (btree_remove k kvs)"
  by (simp add: btree_remove_def btree_inv_filter)

lemma btree_inv_distinct: "btree_inv kvs \<Longrightarrow> distinct (map fst kvs)"
  by (simp add: btree_inv_def strict_sorted_iff)

text \<open>
  The interface both maps offer to the components: what a lookup returns after an insertion and
  after a removal, and that both keep the representation. The client lemmas are about a property
  of every stored entry, the shape of all the table invariants below.
\<close>

locale map_store =
  fixes get :: "'m \<Rightarrow> 'k \<Rightarrow> 'v option"
    and put :: "'k \<Rightarrow> 'v \<Rightarrow> 'm \<Rightarrow> 'm"
    and del :: "'k \<Rightarrow> 'm \<Rightarrow> 'm"
    and invar :: "'m \<Rightarrow> bool"
  assumes get_put: "invar m \<Longrightarrow> get (put k v m) = (get m)(k \<mapsto> v)"
    and get_del: "invar m \<Longrightarrow> get (del k m) = (get m)(k := None)"
    and invar_put: "invar m \<Longrightarrow> invar (put k v m)"
    and invar_del: "invar m \<Longrightarrow> invar (del k m)"
begin

lemma entries_put:
  assumes "invar m" and "\<And>k' v'. get m k' = Some v' \<Longrightarrow> P k' v'" and "P k v"
    and "get (put k v m) k' = Some v'"
  shows "P k' v'"
  using assms by (auto simp: get_put split: if_splits)

lemma entries_del:
  assumes "invar m" and "\<And>k' v'. get m k' = Some v' \<Longrightarrow> P k' v'"
    and "get (del k m) k' = Some v'"
  shows "P k' v'"
  using assms by (auto simp: get_del split: if_splits)

lemma put_overwrites: "invar m \<Longrightarrow> get (put k w (put k v m)) = get (put k w m)"
  by (simp add: get_put invar_put)

lemma dom_put: "invar m \<Longrightarrow> dom (get (put k v m)) = insert k (dom (get m))"
  by (simp add: get_put)

lemma dom_del: "invar m \<Longrightarrow> dom (get (del k m)) = dom (get m) - {k}"
  by (simp add: get_del)

end

interpretation hash_map: map_store map_of AList.update AList.delete hash_inv
  by unfold_locales
    (auto simp: hash_inv_def update_conv' delete_conv' distinct_update distinct_delete)

interpretation btree_map: map_store map_of btree_insert btree_remove btree_inv
  by unfold_locales
    (simp_all add: map_of_btree_insert map_of_btree_remove btree_inv_insert btree_inv_remove)

section \<open>Transition systems\<close>

text \<open>
  A component with state: a start state, its steps, and an invariant every step keeps. The
  reachable states are those related to the start by the reflexive transitive closure.
\<close>

locale invariant_system =
  fixes init :: 's
    and step :: "'s \<Rightarrow> 's \<Rightarrow> bool"
    and inv :: "'s \<Rightarrow> bool"
  assumes inv_init: "inv init"
    and inv_step: "step s t \<Longrightarrow> inv s \<Longrightarrow> inv t"
begin

lemma inv_run: "step\<^sup>*\<^sup>* s t \<Longrightarrow> inv s \<Longrightarrow> inv t"
  by (induction rule: rtranclp_induct) (auto intro: inv_step)

lemma reachable_inv: "step\<^sup>*\<^sup>* init s \<Longrightarrow> inv s"
  using inv_run inv_init by blast

end

end
