(* ===== verification/Lock_Mode.thy ===== *)
theory Lock_Mode
  imports Andromeda_Prelude
begin

text \<open>
  The vocabulary of the lock manager (\<open>andromeda-locking/src/mode.rs\<close> and \<open>resource.rs\<close>): the
  six lock modes with the V0 compatibility matrix, the coverage and upgrade tables, resource
  identities with their derived order, and the lock plans of catalog operations. The locale
  \<open>mode_algebra\<close> states what the lock manager relies on about the tables; its interpretation
  discharges the laws for the code's matrix.
\<close>

section \<open>Lock modes\<close>

datatype lock_mode =
    Shared | Exclusive | IntentShared | IntentExclusive | SchemaShared | SchemaExclusive

fun is_compatible_with :: "lock_mode \<Rightarrow> lock_mode \<Rightarrow> bool" where
  "is_compatible_with Shared Shared = True"
| "is_compatible_with Shared IntentShared = True"
| "is_compatible_with Shared SchemaShared = True"
| "is_compatible_with IntentShared Shared = True"
| "is_compatible_with IntentShared IntentShared = True"
| "is_compatible_with IntentShared IntentExclusive = True"
| "is_compatible_with IntentShared SchemaShared = True"
| "is_compatible_with IntentExclusive IntentShared = True"
| "is_compatible_with IntentExclusive IntentExclusive = True"
| "is_compatible_with IntentExclusive SchemaShared = True"
| "is_compatible_with SchemaShared Shared = True"
| "is_compatible_with SchemaShared IntentShared = True"
| "is_compatible_with SchemaShared IntentExclusive = True"
| "is_compatible_with SchemaShared SchemaShared = True"
| "is_compatible_with _ _ = False"

fun held_mode_covers_requested :: "lock_mode \<Rightarrow> lock_mode \<Rightarrow> bool" where
  "held_mode_covers_requested Exclusive Shared = True"
| "held_mode_covers_requested Exclusive IntentShared = True"
| "held_mode_covers_requested Exclusive IntentExclusive = True"
| "held_mode_covers_requested IntentExclusive IntentShared = True"
| "held_mode_covers_requested SchemaExclusive SchemaShared = True"
| "held_mode_covers_requested _ _ = False"

fun is_v0_upgrade :: "lock_mode \<Rightarrow> lock_mode \<Rightarrow> bool" where
  "is_v0_upgrade Shared Exclusive = True"
| "is_v0_upgrade IntentShared IntentExclusive = True"
| "is_v0_upgrade SchemaShared SchemaExclusive = True"
| "is_v0_upgrade _ _ = False"

text \<open>
  What the lock manager relies on: the matrix does not depend on which side holds and which
  requests; an upgrade only adds conflicts, and so does the stronger mode of a covering pair;
  no pair is at once covered and an upgrade.
\<close>

locale mode_algebra =
  fixes compat :: "'m \<Rightarrow> 'm \<Rightarrow> bool"
    and covers :: "'m \<Rightarrow> 'm \<Rightarrow> bool"
    and upgrade :: "'m \<Rightarrow> 'm \<Rightarrow> bool"
  assumes compat_sym: "compat a b \<Longrightarrow> compat b a"
    and upgrade_mono: "upgrade a b \<Longrightarrow> compat b c \<Longrightarrow> compat a c"
    and covers_mono: "covers a b \<Longrightarrow> compat a c \<Longrightarrow> compat b c"
    and upgrade_covers: "upgrade a b \<Longrightarrow> \<not> covers a b \<and> a \<noteq> b"
begin

definition pairwise_compatible :: "('t \<times> 'm) set \<Rightarrow> bool" where
  "pairwise_compatible H \<longleftrightarrow>
     (\<forall>h \<in> H. \<forall>k \<in> H. fst h \<noteq> fst k \<longrightarrow> compat (snd h) (snd k))"

lemma compat_commute: "compat a b \<longleftrightarrow> compat b a"
  using compat_sym by blast

lemma conflict_kept_by_upgrade: "upgrade a b \<Longrightarrow> \<not> compat a c \<Longrightarrow> \<not> compat b c"
  using upgrade_mono by blast

lemma pairwise_compatible_subset:
  "H \<subseteq> K \<Longrightarrow> pairwise_compatible K \<Longrightarrow> pairwise_compatible H"
  by (auto simp: pairwise_compatible_def)

lemma pairwise_compatible_insert:
  assumes "pairwise_compatible H" and "\<And>t' m'. (t', m') \<in> H \<Longrightarrow> t' \<noteq> t \<Longrightarrow> compat m' m"
  shows "pairwise_compatible (insert (t, m) H)"
  using assms compat_sym by (auto simp: pairwise_compatible_def)

end

interpretation modes: mode_algebra is_compatible_with held_mode_covers_requested is_v0_upgrade
proof unfold_locales
  fix a b c :: lock_mode
  show "is_compatible_with a b \<Longrightarrow> is_compatible_with b a"
    by (cases a; cases b) simp_all
  show "is_v0_upgrade a b \<Longrightarrow> is_compatible_with b c \<Longrightarrow> is_compatible_with a c"
    by (cases a; cases b; cases c) simp_all
  show "held_mode_covers_requested a b \<Longrightarrow> is_compatible_with a c \<Longrightarrow> is_compatible_with b c"
    by (cases a; cases b; cases c) simp_all
  show "is_v0_upgrade a b \<Longrightarrow> \<not> held_mode_covers_requested a b \<and> a \<noteq> b"
    by (cases a; cases b) simp_all
qed

section \<open>Resources\<close>

datatype lock_resource =
    SchemaResource (schema_id: u64)
  | ObjectResource (schema_id: u64) (object_id: u64)
  | TableResource (schema_id: u64) (table_id: u64)
  | PageResource (schema_id: u64) (table_id: u64) (page_id: u64)
  | RowResource (schema_id: u64) (table_id: u64) (row_id: u64)

text \<open>
  The derived order of the enum: by variant first, then field by field. Resources of one
  variant have the same number of fields, so the padding with 0 does not matter.
\<close>

fun resource_key :: "lock_resource \<Rightarrow> nat \<times> u64 \<times> u64 \<times> u64" where
  "resource_key (SchemaResource s) = (0, s, 0, 0)"
| "resource_key (ObjectResource s ob) = (1, s, ob, 0)"
| "resource_key (TableResource s t) = (2, s, t, 0)"
| "resource_key (PageResource s t p) = (3, s, t, p)"
| "resource_key (RowResource s t r) = (4, s, t, r)"

lemma resource_key_inject: "resource_key r = resource_key q \<Longrightarrow> r = q"
  by (cases r; cases q) simp_all

instantiation lock_resource :: linorder
begin

definition less_eq_lock_resource :: "lock_resource \<Rightarrow> lock_resource \<Rightarrow> bool" where
  "r \<le> q \<longleftrightarrow> resource_key r \<le> resource_key q"

definition less_lock_resource :: "lock_resource \<Rightarrow> lock_resource \<Rightarrow> bool" where
  "r < q \<longleftrightarrow> resource_key r < resource_key q"

instance
proof
  fix x y z :: lock_resource
  show "(x < y) = (x \<le> y \<and> \<not> y \<le> x)"
    by (simp add: less_eq_lock_resource_def less_lock_resource_def less_le_not_le)
  show "x \<le> x" by (simp add: less_eq_lock_resource_def)
  show "x \<le> y \<Longrightarrow> y \<le> z \<Longrightarrow> x \<le> z"
    by (auto simp: less_eq_lock_resource_def)
  show "x \<le> y \<Longrightarrow> y \<le> x \<Longrightarrow> x = y"
    by (auto simp: less_eq_lock_resource_def intro: resource_key_inject)
  show "x \<le> y \<or> y \<le> x"
    by (auto simp: less_eq_lock_resource_def)
qed

end

section \<open>Validation and constructors\<close>

definition validate_non_zero :: "u64 \<Rightarrow> string \<Rightarrow> unit andromeda_result" where
  "validate_non_zero value message =
     (if value = 0 then Inl (AndromedaError Transaction message) else Inr ())"

definition validate_transaction_id :: "u64 \<Rightarrow> unit andromeda_result" where
  "validate_transaction_id tx_id =
     (if tx_id = 0 then Inl (AndromedaError Transaction ''lock transaction id must not be zero'')
      else Inr ())"

definition schema_resource :: "u64 \<Rightarrow> lock_resource andromeda_result" where
  "schema_resource s =
     and_then (validate_non_zero s ''lock schema resource id must not be zero'')
       (\<lambda>_. Inr (SchemaResource s))"

definition table_resource :: "u64 \<Rightarrow> u64 \<Rightarrow> lock_resource andromeda_result" where
  "table_resource s t =
     and_then (validate_non_zero s ''lock table schema id must not be zero'')
       (\<lambda>_. and_then (validate_non_zero t ''lock table resource id must not be zero'')
         (\<lambda>_. Inr (TableResource s t)))"

definition object_resource :: "u64 \<Rightarrow> u64 \<Rightarrow> lock_resource andromeda_result" where
  "object_resource s ob =
     and_then (validate_non_zero s ''lock object schema id must not be zero'')
       (\<lambda>_. and_then (validate_non_zero ob ''lock object resource id must not be zero'')
         (\<lambda>_. Inr (ObjectResource s ob)))"

definition page_resource :: "u64 \<Rightarrow> u64 \<Rightarrow> u64 \<Rightarrow> lock_resource andromeda_result" where
  "page_resource s t p =
     and_then (validate_non_zero s ''lock page schema id must not be zero'')
       (\<lambda>_. and_then (validate_non_zero t ''lock page table id must not be zero'')
         (\<lambda>_. and_then (validate_non_zero p ''lock page resource id must not be zero'')
           (\<lambda>_. Inr (PageResource s t p))))"

definition row_resource :: "u64 \<Rightarrow> u64 \<Rightarrow> u64 \<Rightarrow> lock_resource andromeda_result" where
  "row_resource s t r =
     and_then (validate_non_zero s ''lock row schema id must not be zero'')
       (\<lambda>_. and_then (validate_non_zero t ''lock row table id must not be zero'')
         (\<lambda>_. and_then (validate_non_zero r ''lock row resource id must not be zero'')
           (\<lambda>_. Inr (RowResource s t r))))"

fun validate_lock_resource :: "lock_resource \<Rightarrow> unit andromeda_result" where
  "validate_lock_resource (SchemaResource s) =
     validate_non_zero s ''lock schema resource id must not be zero''"
| "validate_lock_resource (ObjectResource s ob) =
     and_then (validate_non_zero s ''lock object schema id must not be zero'')
       (\<lambda>_. validate_non_zero ob ''lock object resource id must not be zero'')"
| "validate_lock_resource (TableResource s t) =
     and_then (validate_non_zero s ''lock table schema id must not be zero'')
       (\<lambda>_. validate_non_zero t ''lock table resource id must not be zero'')"
| "validate_lock_resource (PageResource s t p) =
     and_then (validate_non_zero s ''lock page schema id must not be zero'')
       (\<lambda>_. and_then (validate_non_zero t ''lock page table id must not be zero'')
         (\<lambda>_. validate_non_zero p ''lock page resource id must not be zero''))"
| "validate_lock_resource (RowResource s t r) =
     and_then (validate_non_zero s ''lock row schema id must not be zero'')
       (\<lambda>_. and_then (validate_non_zero t ''lock row table id must not be zero'')
         (\<lambda>_. validate_non_zero r ''lock row resource id must not be zero''))"

section \<open>Lock plans of catalog operations\<close>

record lock_request =
  request_resource :: lock_resource
  request_mode :: lock_mode

definition lock_request_new :: "lock_resource \<Rightarrow> lock_mode \<Rightarrow> lock_request" where
  "lock_request_new r m = \<lparr>request_resource = r, request_mode = m\<rparr>"

definition procedure_invocation :: "u64 \<Rightarrow> u64 \<Rightarrow> lock_request list andromeda_result" where
  "procedure_invocation s ob =
     and_then (schema_resource s) (\<lambda>sr. and_then (object_resource s ob) (\<lambda>obr.
       Inr [lock_request_new sr IntentShared, lock_request_new obr SchemaShared]))"

definition definition_batch_object_mutation :: "u64 \<Rightarrow> u64 \<Rightarrow> lock_request list andromeda_result" where
  "definition_batch_object_mutation s ob =
     and_then (schema_resource s) (\<lambda>sr. and_then (object_resource s ob) (\<lambda>obr.
       Inr [lock_request_new sr IntentExclusive, lock_request_new obr SchemaExclusive]))"

definition definition_batch_schema_mutation :: "u64 \<Rightarrow> lock_request list andromeda_result" where
  "definition_batch_schema_mutation s =
     and_then (schema_resource s) (\<lambda>sr. Inr [lock_request_new sr SchemaExclusive])"

lemmas resource_constructor_defs =
  schema_resource_def table_resource_def object_resource_def page_resource_def row_resource_def

lemma validate_non_zero_Inr [simp]: "validate_non_zero v msg = Inr u \<longleftrightarrow> v \<noteq> 0"
  by (simp add: validate_non_zero_def)

lemma validate_transaction_id_Inr [simp]: "validate_transaction_id tx = Inr u \<longleftrightarrow> tx \<noteq> 0"
  by (simp add: validate_transaction_id_def)

lemma validate_transaction_id_ok [simp]: "tx \<noteq> 0 \<Longrightarrow> validate_transaction_id tx = Inr ()"
  by (simp add: validate_transaction_id_def)

lemma validate_lock_resource_iff:
  "validate_lock_resource r = Inr u \<longleftrightarrow>
     (case r of SchemaResource s \<Rightarrow> s \<noteq> 0
      | ObjectResource s ob \<Rightarrow> s \<noteq> 0 \<and> ob \<noteq> 0
      | TableResource s t \<Rightarrow> s \<noteq> 0 \<and> t \<noteq> 0
      | PageResource s t p \<Rightarrow> s \<noteq> 0 \<and> t \<noteq> 0 \<and> p \<noteq> 0
      | RowResource s t rw \<Rightarrow> s \<noteq> 0 \<and> t \<noteq> 0 \<and> rw \<noteq> 0)"
  by (cases r) (simp_all add: and_then_eq_Inr_iff)

text \<open>Two plans conflict when some resource appears in both with incompatible modes.\<close>

definition plans_conflict :: "lock_request list \<Rightarrow> lock_request list \<Rightarrow> bool" where
  "plans_conflict p q \<longleftrightarrow>
     (\<exists>a \<in> set p. \<exists>b \<in> set q. request_resource a = request_resource b \<and>
        \<not> is_compatible_with (request_mode a) (request_mode b))"

end
