(* ===== verification/Lock_Manager.thy ===== *)
theory Lock_Manager
  imports Lock_Mode
begin

text \<open>
  The lock manager of \<open>andromeda-locking\<close>: lock entries and FIFO promotion (\<open>entry.rs\<close>), the
  statuses and traces it reports (\<open>evidence.rs\<close>) and the manager's operations
  (\<open>manager_core.rs\<close>). The manager's state is a record: the hash map of entries, the atomic
  sequence counter and whether the mutex is poisoned. Every operation takes the state and returns
  the new state with its result, so that what an operation changed before it failed is visible.
  All operations run under the mutex, so each is one atomic step.
\<close>

section \<open>Entries\<close>

record lock_holder =
  holder_tx_id :: u64
  holder_mode :: lock_mode

record lock_waiter =
  waiter_tx_id :: u64
  waiter_mode :: lock_mode
  waiter_sequence :: u64

record lock_entry =
  holders :: "lock_holder list"
  waiters :: "lock_waiter list"

definition lock_holder_new :: "u64 \<Rightarrow> lock_mode \<Rightarrow> lock_holder andromeda_result" where
  "lock_holder_new tx mode =
     and_then (validate_transaction_id tx)
       (\<lambda>_. Inr \<lparr>holder_tx_id = tx, holder_mode = mode\<rparr>)"

definition lock_waiter_new :: "u64 \<Rightarrow> lock_mode \<Rightarrow> u64 \<Rightarrow> lock_waiter andromeda_result" where
  "lock_waiter_new tx mode sequence =
     and_then (validate_transaction_id tx)
       (\<lambda>_. and_then (validate_non_zero sequence ''lock waiter sequence must not be zero'')
         (\<lambda>_. Inr \<lparr>waiter_tx_id = tx, waiter_mode = mode, waiter_sequence = sequence\<rparr>))"

definition lock_entry_new :: lock_entry where
  "lock_entry_new = \<lparr>holders = [], waiters = []\<rparr>"

definition waiter_is_compatible_with_holders :: "lock_entry \<Rightarrow> lock_waiter \<Rightarrow> bool" where
  "waiter_is_compatible_with_holders entry w =
     list_all (\<lambda>h. is_compatible_with (holder_mode h) (waiter_mode w))
       (filter (\<lambda>h. holder_tx_id h \<noteq> waiter_tx_id w) (holders entry))"

definition promote_waiter_to_holder :: "lock_entry \<Rightarrow> lock_waiter \<Rightarrow> lock_entry" where
  "promote_waiter_to_holder entry w =
     (case position (\<lambda>h. holder_tx_id h = waiter_tx_id w) (holders entry) of
        Some i \<Rightarrow>
          (let h = holders entry ! i in
           if holder_mode h \<noteq> waiter_mode w \<and>
              \<not> held_mode_covers_requested (holder_mode h) (waiter_mode w)
           then entry\<lparr>holders := (holders entry)[i := h\<lparr>holder_mode := waiter_mode w\<rparr>]\<rparr>
           else entry)
      | None \<Rightarrow>
          entry\<lparr>holders := holders entry @
            [\<lparr>holder_tx_id = waiter_tx_id w, holder_mode = waiter_mode w\<rparr>]\<rparr>)"

lemma waiters_promote_waiter_to_holder [simp]:
  "waiters (promote_waiter_to_holder entry w) = waiters entry"
  by (simp add: promote_waiter_to_holder_def Let_def split: option.splits)

text \<open>The promotion loop: the queue is popped while its front waiter is compatible.\<close>

function promote_loop :: "lock_entry \<Rightarrow> lock_waiter list \<Rightarrow> lock_entry \<times> lock_waiter list" where
  "promote_loop entry promoted =
     (case waiters entry of
        [] \<Rightarrow> (entry, promoted)
      | w # ws \<Rightarrow>
          if \<not> waiter_is_compatible_with_holders entry w then (entry, promoted)
          else promote_loop (promote_waiter_to_holder (entry\<lparr>waiters := ws\<rparr>) w) (promoted @ [w]))"
  by pat_completeness auto
termination
  by (relation "measure (\<lambda>(entry, promoted). length (waiters entry))") auto

declare promote_loop.simps [simp del]

definition promote_compatible_waiters :: "lock_entry \<Rightarrow> lock_entry \<times> lock_waiter list" where
  "promote_compatible_waiters entry = promote_loop entry []"

section \<open>Statuses and traces\<close>

datatype lock_acquire_status =
    Granted
  | AlreadyHeld lock_mode
  | Upgraded lock_mode lock_mode
  | Waiting u64 "lock_holder list"
  | WaitingUpgrade u64 lock_mode lock_mode "lock_holder list"

datatype lock_trace_kind = CriticalWait | Promotion | ReleaseAll

datatype lock_trace_outcome =
    OutcomeWaiting | OutcomeWaitingUpgrade | OutcomePromoted | OutcomeReleased | OutcomeNoop

record lock_decision_evidence =
  evidence_kind :: lock_trace_kind
  evidence_tx_id :: u64
  evidence_resource :: "lock_resource option"
  evidence_mode :: "lock_mode option"
  evidence_blockers :: "lock_holder list"
  evidence_waiters :: "lock_waiter list"
  evidence_promoted_waiters :: "lock_waiter list"
  evidence_outcome :: lock_trace_outcome
  evidence_reason :: string
  evidence_affected_resource_count :: usize
  evidence_released_holder_count :: usize
  evidence_removed_waiter_count :: usize

definition evidence_critical_wait ::
    "u64 \<Rightarrow> lock_resource \<Rightarrow> lock_mode \<Rightarrow> lock_holder list \<Rightarrow> lock_trace_outcome \<Rightarrow> string \<Rightarrow>
     lock_decision_evidence" where
  "evidence_critical_wait tx r mode blockers outcome reason =
     \<lparr>evidence_kind = CriticalWait, evidence_tx_id = tx, evidence_resource = Some r,
      evidence_mode = Some mode, evidence_blockers = blockers, evidence_waiters = [],
      evidence_promoted_waiters = [], evidence_outcome = outcome, evidence_reason = reason,
      evidence_affected_resource_count = 0, evidence_released_holder_count = 0,
      evidence_removed_waiter_count = 0\<rparr>"

definition evidence_promotion :: "lock_resource \<Rightarrow> lock_waiter \<Rightarrow> lock_decision_evidence" where
  "evidence_promotion r w =
     \<lparr>evidence_kind = Promotion, evidence_tx_id = waiter_tx_id w, evidence_resource = Some r,
      evidence_mode = Some (waiter_mode w), evidence_blockers = [], evidence_waiters = [],
      evidence_promoted_waiters = [w], evidence_outcome = OutcomePromoted,
      evidence_reason = ''fifo_waiter_promoted_after_lock_release'',
      evidence_affected_resource_count = 0, evidence_released_holder_count = 0,
      evidence_removed_waiter_count = 0\<rparr>"

record lock_acquire_evidence =
  acquire_status :: lock_acquire_status
  acquire_evidence :: "lock_decision_evidence option"

record lock_release_evidence =
  released_any :: bool
  release_evidence :: "lock_decision_evidence list"

fun critical_wait_evidence ::
    "lock_acquire_status \<Rightarrow> u64 \<Rightarrow> lock_resource \<Rightarrow> lock_mode \<Rightarrow> lock_decision_evidence option" where
  "critical_wait_evidence (Waiting sequence blockers) tx r mode =
     Some (evidence_critical_wait tx r mode blockers OutcomeWaiting
       ''lock_request_waiting_on_incompatible_holders_or_fifo_fairness'')"
| "critical_wait_evidence (WaitingUpgrade sequence held requested blockers) tx r mode =
     Some (evidence_critical_wait tx r requested blockers OutcomeWaitingUpgrade
       ''lock_upgrade_waiting_on_incompatible_holders_or_fifo_fairness'')"
| "critical_wait_evidence Granted tx r mode = None"
| "critical_wait_evidence (AlreadyHeld held) tx r mode = None"
| "critical_wait_evidence (Upgraded previous new) tx r mode = None"

record lock_release_all_summary =
  affected_resource_count :: usize
  released_holder_count :: usize
  removed_waiter_count :: usize

definition summary_default :: lock_release_all_summary where
  "summary_default =
     \<lparr>affected_resource_count = 0, released_holder_count = 0, removed_waiter_count = 0\<rparr>"

definition removed_any :: "lock_release_all_summary \<Rightarrow> bool" where
  "removed_any s \<longleftrightarrow> released_holder_count s > 0 \<or> removed_waiter_count s > 0"

definition summary_to_trace :: "lock_release_all_summary \<Rightarrow> u64 \<Rightarrow> lock_decision_evidence" where
  "summary_to_trace s tx =
     \<lparr>evidence_kind = ReleaseAll, evidence_tx_id = tx, evidence_resource = None,
      evidence_mode = None, evidence_blockers = [], evidence_waiters = [],
      evidence_promoted_waiters = [],
      evidence_outcome = (if removed_any s then OutcomeReleased else OutcomeNoop),
      evidence_reason = ''terminal_lock_cleanup'',
      evidence_affected_resource_count = affected_resource_count s,
      evidence_released_holder_count = released_holder_count s,
      evidence_removed_waiter_count = removed_waiter_count s\<rparr>"

record lock_release_all_evidence =
  release_all_summary :: lock_release_all_summary
  release_all_evidence :: "lock_decision_evidence list"

section \<open>The manager\<close>

record lock_manager =
  entries :: "(lock_resource \<times> lock_entry) list"
  next_sequence :: u64
  poisoned :: bool

definition lock_manager_new :: lock_manager where
  "lock_manager_new = \<lparr>entries = [], next_sequence = 0, poisoned = False\<rparr>"

definition lock_inner :: "lock_manager \<Rightarrow> unit andromeda_result" where
  "lock_inner m =
     (if poisoned m then Inl (AndromedaError Transaction ''lock manager mutex was poisoned'')
      else Inr ())"

text \<open>
  Every caller of \<open>allocate_sequence\<close> holds the mutex, so the compare-and-exchange of the
  source succeeds at its first attempt.
\<close>

definition allocate_sequence :: "u64 \<Rightarrow> u64 \<times> u64 andromeda_result" where
  "allocate_sequence current =
     (case checked_add current 1 of
        None \<Rightarrow> (current, Inl (AndromedaError Transaction ''lock waiter sequence counter overflowed''))
      | Some n \<Rightarrow> (n, Inr n))"

definition entry_or_new :: "lock_manager \<Rightarrow> lock_resource \<Rightarrow> lock_entry" where
  "entry_or_new m r = (case map_of (entries m) r of Some entry \<Rightarrow> entry | None \<Rightarrow> lock_entry_new)"

definition ensure_entry :: "lock_manager \<Rightarrow> lock_resource \<Rightarrow> lock_manager \<times> unit andromeda_result" where
  "ensure_entry m r =
     (case and_then (validate_lock_resource r) (\<lambda>_. lock_inner m) of
        Inl e \<Rightarrow> (m, Inl e)
      | Inr _ \<Rightarrow> (m\<lparr>entries := AList.update r (entry_or_new m r) (entries m)\<rparr>, Inr ()))"

definition lock_entry_of :: "lock_manager \<Rightarrow> lock_resource \<Rightarrow> lock_entry option andromeda_result" where
  "lock_entry_of m r =
     and_then (validate_lock_resource r)
       (\<lambda>_. and_then (lock_inner m) (\<lambda>_. Inr (map_of (entries m) r)))"

definition snapshot :: "lock_manager \<Rightarrow> (lock_resource \<times> lock_entry) list andromeda_result" where
  "snapshot m = and_then (lock_inner m) (\<lambda>_. Inr (sort_key fst (entries m)))"

text \<open>
  \<open>acquire\<close> on one entry, with the sequence counter: first the request of a transaction that
  already holds the resource at index \<open>i\<close>, then that of one that does not.
\<close>

definition push_waiter ::
    "u64 \<Rightarrow> lock_mode \<Rightarrow> (u64 \<Rightarrow> lock_acquire_status) \<Rightarrow> lock_entry \<Rightarrow> u64 \<Rightarrow>
     lock_entry \<times> u64 \<times> lock_acquire_status andromeda_result" where
  "push_waiter tx mode status entry seq =
     (case allocate_sequence seq of
        (seq', Inl e) \<Rightarrow> (entry, seq', Inl e)
      | (seq', Inr sequence) \<Rightarrow>
          (case lock_waiter_new tx mode sequence of
             Inl e \<Rightarrow> (entry, seq', Inl e)
           | Inr w \<Rightarrow>
               (entry\<lparr>waiters := waiters entry @ [w]\<rparr>, seq', Inr (status sequence))))"

definition acquire_held ::
    "u64 \<Rightarrow> lock_mode \<Rightarrow> nat \<Rightarrow> lock_entry \<Rightarrow> u64 \<Rightarrow>
     lock_entry \<times> u64 \<times> lock_acquire_status andromeda_result" where
  "acquire_held tx mode i entry seq =
     (let held_mode = holder_mode (holders entry ! i) in
      if held_mode = mode \<or> held_mode_covers_requested held_mode mode
      then (entry, seq, Inr (AlreadyHeld held_mode))
      else if \<not> is_v0_upgrade held_mode mode
      then (entry, seq, Inl (AndromedaError Transaction
              ''lock conversion between different modes is not supported by V0''))
      else
        let blockers = filter (\<lambda>h. holder_tx_id h \<noteq> tx \<and>
                         \<not> is_compatible_with (holder_mode h) mode) (holders entry);
            has_older_incompatible_waiter =
              list_ex (\<lambda>w. \<not> is_compatible_with (waiter_mode w) mode) (waiters entry)
        in
        if blockers = [] \<and> \<not> has_older_incompatible_waiter
        then (entry\<lparr>holders := (holders entry)[i := (holders entry ! i)\<lparr>holder_mode := mode\<rparr>]\<rparr>,
              seq, Inr (Upgraded held_mode mode))
        else
          (case List.find (\<lambda>w. waiter_tx_id w = tx \<and> waiter_mode w = mode) (waiters entry) of
             Some w \<Rightarrow> (entry, seq, Inr (WaitingUpgrade (waiter_sequence w) held_mode mode blockers))
           | None \<Rightarrow> push_waiter tx mode (\<lambda>s. WaitingUpgrade s held_mode mode blockers) entry seq))"

definition acquire_fresh ::
    "u64 \<Rightarrow> lock_mode \<Rightarrow> lock_entry \<Rightarrow> u64 \<Rightarrow>
     lock_entry \<times> u64 \<times> lock_acquire_status andromeda_result" where
  "acquire_fresh tx mode entry seq =
     (let blockers = filter (\<lambda>h. \<not> is_compatible_with (holder_mode h) mode) (holders entry) in
      case List.find (\<lambda>w. waiter_tx_id w = tx \<and> waiter_mode w = mode) (waiters entry) of
        Some w \<Rightarrow> (entry, seq, Inr (Waiting (waiter_sequence w) blockers))
      | None \<Rightarrow>
          let has_older_incompatible_waiter =
                list_ex (\<lambda>w. \<not> is_compatible_with (waiter_mode w) mode) (waiters entry)
          in
          if blockers = [] \<and> \<not> has_older_incompatible_waiter
          then (entry\<lparr>holders := holders entry @ [\<lparr>holder_tx_id = tx, holder_mode = mode\<rparr>]\<rparr>,
                seq, Inr Granted)
          else push_waiter tx mode (\<lambda>s. Waiting s blockers) entry seq)"

definition acquire_entry ::
    "u64 \<Rightarrow> lock_mode \<Rightarrow> lock_entry \<Rightarrow> u64 \<Rightarrow>
     lock_entry \<times> u64 \<times> lock_acquire_status andromeda_result" where
  "acquire_entry tx mode entry seq =
     (case position (\<lambda>h. holder_tx_id h = tx) (holders entry) of
        Some i \<Rightarrow> acquire_held tx mode i entry seq
      | None \<Rightarrow> acquire_fresh tx mode entry seq)"

definition acquire ::
    "lock_manager \<Rightarrow> u64 \<Rightarrow> lock_resource \<Rightarrow> lock_mode \<Rightarrow>
     lock_manager \<times> lock_acquire_status andromeda_result" where
  "acquire m tx r mode =
     (case and_then (validate_transaction_id tx)
             (\<lambda>_. and_then (validate_lock_resource r) (\<lambda>_. lock_inner m)) of
        Inl e \<Rightarrow> (m, Inl e)
      | Inr _ \<Rightarrow>
          (case acquire_entry tx mode (entry_or_new m r) (next_sequence m) of
             (entry, seq, status) \<Rightarrow>
               (m\<lparr>entries := AList.update r entry (entries m), next_sequence := seq\<rparr>, status)))"

definition acquire_with_evidence ::
    "lock_manager \<Rightarrow> u64 \<Rightarrow> lock_resource \<Rightarrow> lock_mode \<Rightarrow>
     lock_manager \<times> lock_acquire_evidence andromeda_result" where
  "acquire_with_evidence m tx r mode =
     (case acquire m tx r mode of
        (m', result) \<Rightarrow>
          (m', and_then result (\<lambda>status.
             Inr \<lparr>acquire_status = status,
                  acquire_evidence = critical_wait_evidence status tx r mode\<rparr>)))"

text \<open>The two hooks that evaluate no compatibility.\<close>

definition enqueue_waiter ::
    "lock_manager \<Rightarrow> lock_resource \<Rightarrow> u64 \<Rightarrow> lock_mode \<Rightarrow> lock_manager \<times> u64 andromeda_result" where
  "enqueue_waiter m r tx mode =
     (case and_then (validate_transaction_id tx)
             (\<lambda>_. and_then (validate_lock_resource r) (\<lambda>_. lock_inner m)) of
        Inl e \<Rightarrow> (m, Inl e)
      | Inr _ \<Rightarrow>
          (case allocate_sequence (next_sequence m) of
             (seq', Inl e) \<Rightarrow> (m\<lparr>next_sequence := seq'\<rparr>, Inl e)
           | (seq', Inr sequence) \<Rightarrow>
               (case lock_waiter_new tx mode sequence of
                  Inl e \<Rightarrow> (m\<lparr>next_sequence := seq'\<rparr>, Inl e)
                | Inr w \<Rightarrow>
                    (let entry = entry_or_new m r in
                     (m\<lparr>entries := AList.update r (entry\<lparr>waiters := waiters entry @ [w]\<rparr>) (entries m),
                        next_sequence := seq'\<rparr>, Inr sequence)))))"

definition record_holder ::
    "lock_manager \<Rightarrow> lock_resource \<Rightarrow> u64 \<Rightarrow> lock_mode \<Rightarrow> lock_manager \<times> unit andromeda_result" where
  "record_holder m r tx mode =
     (case and_then (validate_lock_resource r)
             (\<lambda>_. and_then (lock_holder_new tx mode) (\<lambda>h. and_then (lock_inner m) (\<lambda>_. Inr h))) of
        Inl e \<Rightarrow> (m, Inl e)
      | Inr h \<Rightarrow>
          (let entry = entry_or_new m r in
           (m\<lparr>entries := AList.update r (entry\<lparr>holders := holders entry @ [h]\<rparr>) (entries m)\<rparr>,
            Inr ())))"

text \<open>Both release operations drop the transaction's records of an entry.\<close>

definition retain_others :: "u64 \<Rightarrow> lock_entry \<Rightarrow> lock_entry" where
  "retain_others tx entry =
     entry\<lparr>holders := filter (\<lambda>h. holder_tx_id h \<noteq> tx) (holders entry),
           waiters := filter (\<lambda>w. waiter_tx_id w \<noteq> tx) (waiters entry)\<rparr>"

definition release_with_evidence ::
    "lock_manager \<Rightarrow> u64 \<Rightarrow> lock_resource \<Rightarrow> lock_manager \<times> lock_release_evidence andromeda_result" where
  "release_with_evidence m tx r =
     (case and_then (validate_transaction_id tx)
             (\<lambda>_. and_then (validate_lock_resource r) (\<lambda>_. lock_inner m)) of
        Inl e \<Rightarrow> (m, Inl e)
      | Inr _ \<Rightarrow>
          (case map_of (entries m) r of
             None \<Rightarrow> (m, Inr \<lparr>released_any = False, release_evidence = []\<rparr>)
           | Some entry \<Rightarrow>
               (let kept = retain_others tx entry;
                    removed = length (holders entry) \<noteq> length (holders kept) \<or>
                              length (waiters entry) \<noteq> length (waiters kept);
                    (entry', promoted) =
                      (if removed then promote_compatible_waiters kept else (kept, []));
                    evidence = map (evidence_promotion r) promoted;
                    entries' = AList.update r entry' (entries m)
                in
                (m\<lparr>entries := (if holders entry' = [] \<and> waiters entry' = []
                               then AList.delete r entries' else entries')\<rparr>,
                 Inr \<lparr>released_any = removed, release_evidence = evidence\<rparr>))))"

definition release ::
    "lock_manager \<Rightarrow> u64 \<Rightarrow> lock_resource \<Rightarrow> lock_manager \<times> bool andromeda_result" where
  "release m tx r =
     (case release_with_evidence m tx r of
        (m', result) \<Rightarrow> (m', and_then result (\<lambda>ev. Inr (released_any ev))))"

record release_all_acc =
  acc_entries :: "(lock_resource \<times> lock_entry) list"
  acc_summary :: lock_release_all_summary
  acc_evidence :: "lock_decision_evidence list"
  acc_empty_resources :: "lock_resource list"

definition release_all_step :: "u64 \<Rightarrow> lock_resource \<Rightarrow> release_all_acc \<Rightarrow> release_all_acc" where
  "release_all_step tx r acc =
     (case map_of (acc_entries acc) r of
        None \<Rightarrow> acc
      | Some entry \<Rightarrow>
          (let kept = retain_others tx entry;
               released = length (holders entry) - length (holders kept);
               removed = length (waiters entry) - length (waiters kept)
           in
           if released = 0 \<and> removed = 0
           then acc\<lparr>acc_entries := AList.update r kept (acc_entries acc)\<rparr>
           else
             (case promote_compatible_waiters kept of
                (entry', promoted) \<Rightarrow>
                  acc\<lparr>acc_entries := AList.update r entry' (acc_entries acc),
                      acc_summary :=
                        \<lparr>affected_resource_count = affected_resource_count (acc_summary acc) + 1,
                         released_holder_count = released_holder_count (acc_summary acc) + released,
                         removed_waiter_count = removed_waiter_count (acc_summary acc) + removed\<rparr>,
                      acc_evidence := acc_evidence acc @ map (evidence_promotion r) promoted,
                      acc_empty_resources :=
                        (if holders entry' = [] \<and> waiters entry' = []
                         then acc_empty_resources acc @ [r] else acc_empty_resources acc)\<rparr>)))"

definition release_all_with_evidence ::
    "lock_manager \<Rightarrow> u64 \<Rightarrow> lock_manager \<times> lock_release_all_evidence andromeda_result" where
  "release_all_with_evidence m tx =
     (case and_then (validate_transaction_id tx) (\<lambda>_. lock_inner m) of
        Inl e \<Rightarrow> (m, Inl e)
      | Inr _ \<Rightarrow>
          (let resources = sort (map fst (entries m));
               acc = fold (release_all_step tx) resources
                 \<lparr>acc_entries = entries m, acc_summary = summary_default,
                  acc_evidence = [], acc_empty_resources = []\<rparr>
           in
           (m\<lparr>entries := fold AList.delete (acc_empty_resources acc) (acc_entries acc)\<rparr>,
            Inr \<lparr>release_all_summary = acc_summary acc,
                 release_all_evidence =
                   summary_to_trace (acc_summary acc) tx # acc_evidence acc\<rparr>)))"

definition release_all ::
    "lock_manager \<Rightarrow> u64 \<Rightarrow> lock_manager \<times> lock_release_all_summary andromeda_result" where
  "release_all m tx =
     (case release_all_with_evidence m tx of
        (m', result) \<Rightarrow> (m', and_then result (\<lambda>ev. Inr (release_all_summary ev))))"

text \<open>The equations that evaluate the manager on concrete tables.\<close>

lemmas lock_manager_eval =
  lock_manager_new_def lock_inner_def allocate_sequence_def checked_add_def entry_or_new_def
  lock_entry_new_def push_waiter_def lock_waiter_new_def lock_holder_new_def
  acquire_def acquire_entry_def acquire_held_def acquire_fresh_def
  retain_others_def release_def release_with_evidence_def promote_compatible_waiters_def
  promote_loop.simps promote_waiter_to_holder_def waiter_is_compatible_with_holders_def
  release_all_def release_all_with_evidence_def release_all_step_def
  validate_transaction_id_def validate_non_zero_def Let_def

end
