(* ===== verification/Lock_Manager_Inv.thy ===== *)
theory Lock_Manager_Inv
  imports Lock_Manager
begin

text \<open>
  The invariant of the lock table and that every operation keeps it. An entry is well formed when
  each transaction holds it at most once, holders of different transactions are compatible, the
  waiting queue is ordered by sequence number, and the waiter at the front of the queue is really
  blocked by another transaction's holder (so no wake-up has been lost).
\<close>

section \<open>The invariant of an entry\<close>

definition holders_compatible :: "lock_entry \<Rightarrow> bool" where
  "holders_compatible e \<longleftrightarrow>
     (\<forall>h \<in> set (holders e). \<forall>k \<in> set (holders e).
        holder_tx_id h \<noteq> holder_tx_id k \<longrightarrow> is_compatible_with (holder_mode h) (holder_mode k))"

definition holders_unique :: "lock_entry \<Rightarrow> bool" where
  "holders_unique e \<longleftrightarrow> distinct (map holder_tx_id (holders e))"

definition queue_head_blocked :: "lock_entry \<Rightarrow> bool" where
  "queue_head_blocked e \<longleftrightarrow>
     (case waiters e of [] \<Rightarrow> True | w # ws \<Rightarrow> \<not> waiter_is_compatible_with_holders e w)"

definition queue_ordered :: "u64 \<Rightarrow> lock_entry \<Rightarrow> bool" where
  "queue_ordered seq e \<longleftrightarrow>
     sorted_wrt (<) (map waiter_sequence (waiters e)) \<and>
     (\<forall>w \<in> set (waiters e). 0 < waiter_sequence w \<and> waiter_sequence w \<le> seq)"

definition ids_nonzero :: "lock_entry \<Rightarrow> bool" where
  "ids_nonzero e \<longleftrightarrow>
     (\<forall>h \<in> set (holders e). holder_tx_id h \<noteq> 0) \<and> (\<forall>w \<in> set (waiters e). waiter_tx_id w \<noteq> 0)"

definition entry_inv :: "u64 \<Rightarrow> lock_entry \<Rightarrow> bool" where
  "entry_inv seq e \<longleftrightarrow>
     holders_compatible e \<and> holders_unique e \<and> queue_head_blocked e \<and>
     queue_ordered seq e \<and> ids_nonzero e"

definition holder_claims :: "lock_entry \<Rightarrow> (u64 \<times> lock_mode) set" where
  "holder_claims e = (\<lambda>h. (holder_tx_id h, holder_mode h)) ` set (holders e)"

lemma holders_compatible_claims:
  "holders_compatible e \<longleftrightarrow> modes.pairwise_compatible (holder_claims e)"
  by (auto simp: holders_compatible_def holder_claims_def modes.pairwise_compatible_def)

lemma holders_compatible_mono:
  "set (holders d) \<subseteq> set (holders e) \<Longrightarrow> holders_compatible e \<Longrightarrow> holders_compatible d"
  by (auto simp: holders_compatible_def)

lemma waiter_compatible_iff:
  "waiter_is_compatible_with_holders e w \<longleftrightarrow>
     (\<forall>h \<in> set (holders e). holder_tx_id h \<noteq> waiter_tx_id w \<longrightarrow>
        is_compatible_with (holder_mode h) (waiter_mode w))"
  by (auto simp: waiter_is_compatible_with_holders_def list_all_iff)

lemma holders_compatible_new_claim:
  assumes "holders_compatible e"
    and "\<And>h. h \<in> set (holders e) \<Longrightarrow> holder_tx_id h \<noteq> tx \<Longrightarrow>
           is_compatible_with (holder_mode h) mode"
    and "holder_claims d \<subseteq> insert (tx, mode) (holder_claims e)"
  shows "holders_compatible d"
proof -
  have "modes.pairwise_compatible (insert (tx, mode) (holder_claims e))"
    using assms(1,2)
    by (intro modes.pairwise_compatible_insert)
      (auto simp: holders_compatible_claims holder_claims_def)
  then show ?thesis
    using assms(3) modes.pairwise_compatible_subset by (auto simp: holders_compatible_claims)
qed

lemma holder_claims_update:
  "holder_claims (e\<lparr>holders := (holders e)[i := h]\<rparr>)
     \<subseteq> insert (holder_tx_id h, holder_mode h) (holder_claims e)"
  using set_update_subset_insert [of "holders e" i h] by (auto simp: holder_claims_def)

lemma holder_claims_snoc:
  "holder_claims (e\<lparr>holders := holders e @ [h]\<rparr>)
     = insert (holder_tx_id h, holder_mode h) (holder_claims e)"
  by (auto simp: holder_claims_def)

lemma holder_claims_waiters [simp]: "holder_claims (e\<lparr>waiters := ws\<rparr>) = holder_claims e"
  by (simp add: holder_claims_def)

lemma holders_compatible_waiters [simp]:
  "holders_compatible (e\<lparr>waiters := ws\<rparr>) = holders_compatible e"
  by (simp add: holders_compatible_def)

lemma holders_unique_waiters [simp]: "holders_unique (e\<lparr>waiters := ws\<rparr>) = holders_unique e"
  by (simp add: holders_unique_def)

lemma waiter_compatible_waiters [simp]:
  "waiter_is_compatible_with_holders (e\<lparr>waiters := ws\<rparr>) w = waiter_is_compatible_with_holders e w"
  by (simp add: waiter_is_compatible_with_holders_def)

lemma queue_ordered_holders [simp]: "queue_ordered seq (e\<lparr>holders := hs\<rparr>) = queue_ordered seq e"
  by (simp add: queue_ordered_def)

lemma queue_ordered_mono: "queue_ordered seq e \<Longrightarrow> seq \<le> seq' \<Longrightarrow> queue_ordered seq' e"
  by (auto simp: queue_ordered_def)

lemma entry_inv_mono: "entry_inv seq e \<Longrightarrow> seq \<le> seq' \<Longrightarrow> entry_inv seq' e"
  by (auto simp: entry_inv_def intro: queue_ordered_mono)

lemma entry_inv_new [simp]: "entry_inv seq lock_entry_new"
  by (simp add: entry_inv_def lock_entry_new_def holders_compatible_def holders_unique_def
      queue_head_blocked_def queue_ordered_def ids_nonzero_def)

section \<open>Promotion\<close>

lemma promote_waiter_holders:
  "holders (promote_waiter_to_holder e w) =
     (case position (\<lambda>h. holder_tx_id h = waiter_tx_id w) (holders e) of
        Some i \<Rightarrow> if holder_mode (holders e ! i) \<noteq> waiter_mode w \<and>
                     \<not> held_mode_covers_requested (holder_mode (holders e ! i)) (waiter_mode w)
                  then (holders e)[i := (holders e ! i)\<lparr>holder_mode := waiter_mode w\<rparr>]
                  else holders e
      | None \<Rightarrow> holders e @ [\<lparr>holder_tx_id = waiter_tx_id w, holder_mode = waiter_mode w\<rparr>])"
  by (simp add: promote_waiter_to_holder_def Let_def split: option.splits)

lemma promote_waiter_claims:
  "holder_claims (promote_waiter_to_holder e w)
     \<subseteq> insert (waiter_tx_id w, waiter_mode w) (holder_claims e)"
proof (cases "position (\<lambda>h. holder_tx_id h = waiter_tx_id w) (holders e)")
  case None
  then show ?thesis by (auto simp: holder_claims_def promote_waiter_holders)
next
  case (Some i)
  let ?h = "(holders e ! i)\<lparr>holder_mode := waiter_mode w\<rparr>"
  from Some have "holder_tx_id (holders e ! i) = waiter_tx_id w"
    using position_SomeD by blast
  then show ?thesis
    using Some set_update_subset_insert [of "holders e" i ?h]
    by (auto simp: holder_claims_def promote_waiter_holders)
qed

lemma promote_waiter_compatible:
  assumes "holders_compatible e" and "waiter_is_compatible_with_holders e w"
  shows "holders_compatible (promote_waiter_to_holder e w)"
  using assms(1) _ promote_waiter_claims
  by (rule holders_compatible_new_claim) (use assms(2) in \<open>auto simp: waiter_compatible_iff\<close>)

lemma promote_waiter_unique:
  assumes "holders_unique e"
  shows "holders_unique (promote_waiter_to_holder e w)"
proof (cases "position (\<lambda>h. holder_tx_id h = waiter_tx_id w) (holders e)")
  case None
  then have "waiter_tx_id w \<notin> holder_tx_id ` set (holders e)"
    by (auto simp: position_None_iff)
  with None show ?thesis
    using assms by (auto simp: holders_unique_def promote_waiter_holders)
next
  case (Some i)
  then have "i < length (holders e)" using position_SomeD by blast
  then show ?thesis
    using assms Some by (auto simp: holders_unique_def promote_waiter_holders intro!: distinct_map_update)
qed

lemma promote_waiter_holder_ids:
  "holder_tx_id ` set (holders (promote_waiter_to_holder e w))
     = insert (waiter_tx_id w) (holder_tx_id ` set (holders e))"
proof (cases "position (\<lambda>h. holder_tx_id h = waiter_tx_id w) (holders e)")
  case None
  then show ?thesis by (simp add: promote_waiter_holders)
next
  case (Some i)
  then have i: "i < length (holders e)" "holder_tx_id (holders e ! i) = waiter_tx_id w"
    using position_SomeD by blast+
  have "map holder_tx_id ((holders e)[i := (holders e ! i)\<lparr>holder_mode := waiter_mode w\<rparr>])
          = map holder_tx_id (holders e)"
    using i by (simp add: map_update) (metis list_update_id nth_map)
  then have "holder_tx_id ` set ((holders e)[i := (holders e ! i)\<lparr>holder_mode := waiter_mode w\<rparr>])
          = holder_tx_id ` set (holders e)"
    by (metis list.set_map)
  moreover have "waiter_tx_id w \<in> holder_tx_id ` set (holders e)"
    using i by (metis image_eqI nth_mem)
  ultimately show ?thesis
    using Some by (auto simp: promote_waiter_holders)
qed

text \<open>What one run of the promotion loop does to an entry, by induction on the loop.\<close>

definition promotion_sound :: "lock_entry \<Rightarrow> lock_entry \<Rightarrow> lock_waiter list \<Rightarrow> bool" where
  "promotion_sound e e' ps \<longleftrightarrow>
     waiters e = ps @ waiters e' \<and>
     queue_head_blocked e' \<and>
     (holders_compatible e \<longrightarrow> holders_compatible e') \<and>
     (holders_unique e \<longrightarrow> holders_unique e') \<and>
     holder_tx_id ` set (holders e') = holder_tx_id ` set (holders e) \<union> waiter_tx_id ` set ps"

lemma promote_loop_sound:
  "promote_loop e acc = (e', ps) \<Longrightarrow> \<exists>qs. ps = acc @ qs \<and> promotion_sound e e' qs"
proof (induction e acc arbitrary: e' ps rule: promote_loop.induct)
  case (1 e acc)
  show ?case
  proof (cases "waiters e")
    case Nil
    with "1.prems" show ?thesis
      by (simp add: promote_loop.simps [of e] promotion_sound_def queue_head_blocked_def)
  next
    case (Cons w ws)
    show ?thesis
    proof (cases "waiter_is_compatible_with_holders e w")
      case False
      with Cons "1.prems" show ?thesis
        by (simp add: promote_loop.simps [of e] promotion_sound_def queue_head_blocked_def)
    next
      case True
      let ?d = "promote_waiter_to_holder (e\<lparr>waiters := ws\<rparr>) w"
      have "promote_loop ?d (acc @ [w]) = (e', ps)"
        using True Cons "1.prems" by (simp add: promote_loop.simps [of e])
      then obtain qs where qs: "ps = acc @ w # qs" "promotion_sound ?d e' qs"
        using "1.IH" [OF Cons] True by fastforce
      have "promotion_sound e e' (w # qs)"
        using qs(2) Cons True promote_waiter_compatible [of "e\<lparr>waiters := ws\<rparr>" w]
          promote_waiter_unique [of "e\<lparr>waiters := ws\<rparr>" w]
        by (auto simp: promotion_sound_def promote_waiter_holder_ids)
      then show ?thesis using qs(1) by auto
    qed
  qed
qed

lemma promote_sound:
  "promote_compatible_waiters e = (e', ps) \<Longrightarrow> promotion_sound e e' ps"
  using promote_loop_sound [of e "[]"] by (simp add: promote_compatible_waiters_def)

section \<open>Acquisition\<close>

lemma push_waiter_cases:
  assumes "push_waiter tx mode status e seq = (e', seq', res)" and "tx \<noteq> 0"
  obtains
    (full) "checked_add seq 1 = None" "e' = e" "seq' = seq" "\<exists>err. res = Inl err"
  | (pushed) s where "checked_add seq 1 = Some s" "seq' = s" "res = Inr (status s)"
      "e' = e\<lparr>waiters := waiters e @
         [\<lparr>waiter_tx_id = tx, waiter_mode = mode, waiter_sequence = s\<rparr>]\<rparr>"
proof (cases "checked_add seq 1")
  case None
  show thesis
    by (rule full) (use assms None in \<open>auto simp: push_waiter_def allocate_sequence_def\<close>)
next
  case (Some s)
  then have s: "s \<noteq> 0" using checked_add_one_pos [OF Some] by auto
  show thesis
    by (rule pushed [OF Some])
      (use assms Some s in \<open>auto simp: push_waiter_def allocate_sequence_def
        lock_waiter_new_def validate_non_zero_def validate_transaction_id_def\<close>)
qed

text \<open>The four ways an acquisition can change an entry.\<close>

datatype acquire_effect = EffectNone | EffectGrant | EffectUpgrade nat | EffectEnqueue u64

definition acquire_effect ::
    "u64 \<Rightarrow> lock_mode \<Rightarrow> lock_entry \<Rightarrow> u64 \<Rightarrow> lock_entry \<Rightarrow> u64 \<Rightarrow> acquire_effect \<Rightarrow> bool" where
  "acquire_effect tx mode e seq e' seq' eff =
     (case eff of
        EffectNone \<Rightarrow> e' = e \<and> seq' = seq
      | EffectGrant \<Rightarrow> seq' = seq \<and>
          (\<forall>h \<in> set (holders e). holder_tx_id h \<noteq> tx \<and> is_compatible_with (holder_mode h) mode) \<and>
          (\<forall>w \<in> set (waiters e). is_compatible_with (waiter_mode w) mode) \<and>
          e' = e\<lparr>holders := holders e @ [\<lparr>holder_tx_id = tx, holder_mode = mode\<rparr>]\<rparr>
      | EffectUpgrade i \<Rightarrow> seq' = seq \<and> i < length (holders e) \<and> holder_tx_id (holders e ! i) = tx \<and>
          is_v0_upgrade (holder_mode (holders e ! i)) mode \<and>
          (\<forall>h \<in> set (holders e). holder_tx_id h \<noteq> tx \<longrightarrow> is_compatible_with (holder_mode h) mode) \<and>
          (\<forall>w \<in> set (waiters e). is_compatible_with (waiter_mode w) mode) \<and>
          e' = e\<lparr>holders := (holders e)[i := (holders e ! i)\<lparr>holder_mode := mode\<rparr>]\<rparr>
      | EffectEnqueue s \<Rightarrow> checked_add seq 1 = Some s \<and> seq' = s \<and>
          ((\<exists>h \<in> set (holders e). holder_tx_id h \<noteq> tx \<and> \<not> is_compatible_with (holder_mode h) mode) \<or>
           (\<exists>w \<in> set (waiters e). \<not> is_compatible_with (waiter_mode w) mode)) \<and>
          e' = e\<lparr>waiters := waiters e @
            [\<lparr>waiter_tx_id = tx, waiter_mode = mode, waiter_sequence = s\<rparr>]\<rparr>)"

lemma acquire_held_effect:
  assumes "acquire_held tx mode i e seq = (e', seq', res)" and "tx \<noteq> 0"
    and "position (\<lambda>h. holder_tx_id h = tx) (holders e) = Some i"
  shows "\<exists>eff. acquire_effect tx mode e seq e' seq' eff"
proof -
  let ?held = "holder_mode (holders e ! i)"
  let ?blockers = "filter (\<lambda>h. holder_tx_id h \<noteq> tx \<and> \<not> is_compatible_with (holder_mode h) mode) (holders e)"
  let ?older = "list_ex (\<lambda>w. \<not> is_compatible_with (waiter_mode w) mode) (waiters e)"
  note i = position_SomeD [OF assms(3)]
  consider (covered) "?held = mode \<or> held_mode_covers_requested ?held mode \<or> \<not> is_v0_upgrade ?held mode"
    | (upgrade) "?held \<noteq> mode" "\<not> held_mode_covers_requested ?held mode" "is_v0_upgrade ?held mode"
        "?blockers = []" "\<not> ?older"
    | (wait) "?held \<noteq> mode" "\<not> held_mode_covers_requested ?held mode" "is_v0_upgrade ?held mode"
        "\<not> (?blockers = [] \<and> \<not> ?older)"
    by blast
  then show ?thesis
  proof cases
    case covered
    then have "acquire_effect tx mode e seq e' seq' EffectNone"
      using assms(1) by (auto simp: acquire_held_def Let_def acquire_effect_def split: if_splits)
    then show ?thesis ..
  next
    case upgrade
    then have "acquire_effect tx mode e seq e' seq' (EffectUpgrade i)"
      using assms(1) i
      by (auto simp: acquire_held_def Let_def acquire_effect_def filter_empty_conv list_ex_iff)
    then show ?thesis ..
  next
    case wait
    show ?thesis
    proof (cases "List.find (\<lambda>w. waiter_tx_id w = tx \<and> waiter_mode w = mode) (waiters e)")
      case (Some w)
      with wait have "acquire_effect tx mode e seq e' seq' EffectNone"
        using assms(1) by (auto simp: acquire_held_def Let_def acquire_effect_def split: if_splits)
      then show ?thesis ..
    next
      case None
      with wait have "push_waiter tx mode (\<lambda>s. WaitingUpgrade s ?held mode ?blockers) e seq = (e', seq', res)"
        using assms(1) by (auto simp: acquire_held_def Let_def split: if_splits)
      then show ?thesis
        using assms(2)
      proof (cases rule: push_waiter_cases)
        case full
        then have "acquire_effect tx mode e seq e' seq' EffectNone" by (simp add: acquire_effect_def)
        then show ?thesis ..
      next
        case (pushed s)
        then have "acquire_effect tx mode e seq e' seq' (EffectEnqueue s)"
          using wait(4) by (auto simp: acquire_effect_def filter_empty_conv list_ex_iff)
        then show ?thesis ..
      qed
    qed
  qed
qed

lemma acquire_fresh_effect:
  assumes "acquire_fresh tx mode e seq = (e', seq', res)" and "tx \<noteq> 0"
    and "position (\<lambda>h. holder_tx_id h = tx) (holders e) = None"
  shows "\<exists>eff. acquire_effect tx mode e seq e' seq' eff"
proof -
  let ?blockers = "filter (\<lambda>h. \<not> is_compatible_with (holder_mode h) mode) (holders e)"
  let ?older = "list_ex (\<lambda>w. \<not> is_compatible_with (waiter_mode w) mode) (waiters e)"
  have others: "\<forall>h \<in> set (holders e). holder_tx_id h \<noteq> tx"
    using assms(3) by (simp add: position_None_iff)
  show ?thesis
  proof (cases "List.find (\<lambda>w. waiter_tx_id w = tx \<and> waiter_mode w = mode) (waiters e)")
    case (Some w)
    then have "acquire_effect tx mode e seq e' seq' EffectNone"
      using assms(1) by (simp add: acquire_fresh_def Let_def acquire_effect_def)
    then show ?thesis ..
  next
    case None
    show ?thesis
    proof (cases "?blockers = [] \<and> \<not> ?older")
      case True
      with None have "acquire_effect tx mode e seq e' seq' EffectGrant"
        using assms(1) others
        by (auto simp: acquire_fresh_def Let_def acquire_effect_def filter_empty_conv list_ex_iff)
      then show ?thesis ..
    next
      case False
      with None have "push_waiter tx mode (\<lambda>s. Waiting s ?blockers) e seq = (e', seq', res)"
        using assms(1) by (auto simp: acquire_fresh_def Let_def split: if_splits)
      then show ?thesis
        using assms(2)
      proof (cases rule: push_waiter_cases)
        case full
        then have "acquire_effect tx mode e seq e' seq' EffectNone" by (simp add: acquire_effect_def)
        then show ?thesis ..
      next
        case (pushed s)
        then have "acquire_effect tx mode e seq e' seq' (EffectEnqueue s)"
          using False others by (auto simp: acquire_effect_def filter_empty_conv list_ex_iff)
        then show ?thesis ..
      qed
    qed
  qed
qed

lemma acquire_entry_effect:
  assumes "acquire_entry tx mode e seq = (e', seq', res)" and "tx \<noteq> 0"
  obtains eff where "acquire_effect tx mode e seq e' seq' eff"
proof (cases "position (\<lambda>h. holder_tx_id h = tx) (holders e)")
  case None
  with assms that show thesis
    using acquire_fresh_effect [of tx mode e seq e' seq' res] by (auto simp: acquire_entry_def)
next
  case (Some i)
  with assms that show thesis
    using acquire_held_effect [of tx mode i e seq e' seq' res] by (auto simp: acquire_entry_def)
qed

lemma acquire_effect_seq: "acquire_effect tx mode e seq e' seq' eff \<Longrightarrow> seq \<le> seq'"
  by (cases eff) (auto simp: acquire_effect_def intro: checked_add_one_le)

text \<open>Each kind of change keeps each part of the invariant.\<close>

lemma grant_keeps_head_blocked:
  "queue_head_blocked e \<Longrightarrow> queue_head_blocked (e\<lparr>holders := holders e @ [h]\<rparr>)"
  by (auto simp: queue_head_blocked_def waiter_compatible_iff split: list.splits)

lemma upgrade_keeps_head_blocked:
  assumes "queue_head_blocked e" and "i < length (holders e)"
    and "is_v0_upgrade (holder_mode (holders e ! i)) mode"
  shows "queue_head_blocked (e\<lparr>holders := (holders e)[i := (holders e ! i)\<lparr>holder_mode := mode\<rparr>]\<rparr>)"
proof (cases "waiters e")
  case Nil
  then show ?thesis by (simp add: queue_head_blocked_def)
next
  case (Cons w ws)
  let ?hs = "(holders e)[i := (holders e ! i)\<lparr>holder_mode := mode\<rparr>]"
  from assms(1) Cons obtain j where j: "j < length (holders e)"
      "holder_tx_id (holders e ! j) \<noteq> waiter_tx_id w"
      "\<not> is_compatible_with (holder_mode (holders e ! j)) (waiter_mode w)"
    by (auto simp: queue_head_blocked_def waiter_compatible_iff in_set_conv_nth)
  have "holder_tx_id (?hs ! j) \<noteq> waiter_tx_id w"
      "\<not> is_compatible_with (holder_mode (?hs ! j)) (waiter_mode w)"
    using j assms(2,3) modes.conflict_kept_by_upgrade [OF assms(3)]
    by (auto simp: nth_list_update)
  moreover have "?hs ! j \<in> set ?hs"
    by (rule nth_mem) (simp add: j)
  ultimately show ?thesis
    using Cons by (auto simp: queue_head_blocked_def waiter_compatible_iff)
qed

lemma enqueue_keeps_head_blocked:
  assumes "queue_head_blocked e"
    and "(\<exists>h \<in> set (holders e). holder_tx_id h \<noteq> waiter_tx_id w \<and>
            \<not> is_compatible_with (holder_mode h) (waiter_mode w)) \<or> waiters e \<noteq> []"
  shows "queue_head_blocked (e\<lparr>waiters := waiters e @ [w]\<rparr>)"
  using assms by (cases "waiters e") (auto simp: queue_head_blocked_def waiter_compatible_iff)

lemma acquire_effect_inv:
  assumes eff: "acquire_effect tx mode e seq e' seq' eff" and inv: "entry_inv seq e" and "tx \<noteq> 0"
  shows "entry_inv seq' e'"
proof (cases eff)
  case EffectNone
  with eff inv show ?thesis by (simp add: acquire_effect_def)
next
  case EffectGrant
  with eff have e': "e' = e\<lparr>holders := holders e @ [\<lparr>holder_tx_id = tx, holder_mode = mode\<rparr>]\<rparr>"
    and seq: "seq' = seq"
    and others: "\<forall>h \<in> set (holders e). holder_tx_id h \<noteq> tx \<and> is_compatible_with (holder_mode h) mode"
    by (simp_all add: acquire_effect_def)
  have "holders_compatible e'"
    by (rule holders_compatible_new_claim [of e tx mode])
      (use inv others in \<open>auto simp: e' entry_inv_def holder_claims_snoc\<close>)
  then show ?thesis
    using inv others grant_keeps_head_blocked \<open>tx \<noteq> 0\<close>
    by (auto simp: e' seq entry_inv_def holders_unique_def ids_nonzero_def)
next
  case (EffectUpgrade i)
  let ?h = "(holders e ! i)\<lparr>holder_mode := mode\<rparr>"
  from EffectUpgrade eff have e': "e' = e\<lparr>holders := (holders e)[i := ?h]\<rparr>"
    and seq: "seq' = seq" and i: "i < length (holders e)" "holder_tx_id (holders e ! i) = tx"
    and up: "is_v0_upgrade (holder_mode (holders e ! i)) mode"
    and others: "\<forall>h \<in> set (holders e). holder_tx_id h \<noteq> tx \<longrightarrow> is_compatible_with (holder_mode h) mode"
    by (simp_all add: acquire_effect_def)
  have "holders_compatible e'"
    by (rule holders_compatible_new_claim [of e tx mode])
      (use inv others i(2) holder_claims_update [of e i ?h] in \<open>auto simp: e' entry_inv_def\<close>)
  moreover have "holders_unique e'"
    using inv i by (auto simp: e' entry_inv_def holders_unique_def intro!: distinct_map_update)
  moreover have "ids_nonzero e'"
    using inv i \<open>tx \<noteq> 0\<close> set_update_subset_insert [of "holders e" i ?h]
    by (auto simp: e' entry_inv_def ids_nonzero_def)
  ultimately show ?thesis
    using inv upgrade_keeps_head_blocked [OF _ i(1) up] by (simp add: e' seq entry_inv_def)
next
  case (EffectEnqueue s)
  let ?w = "\<lparr>waiter_tx_id = tx, waiter_mode = mode, waiter_sequence = s\<rparr>"
  from EffectEnqueue eff have e': "e' = e\<lparr>waiters := waiters e @ [?w]\<rparr>"
    and seq: "seq' = s" "checked_add seq 1 = Some s"
    and blocked: "(\<exists>h \<in> set (holders e). holder_tx_id h \<noteq> tx \<and> \<not> is_compatible_with (holder_mode h) mode) \<or>
           (\<exists>w \<in> set (waiters e). \<not> is_compatible_with (waiter_mode w) mode)"
    by (simp_all add: acquire_effect_def)
  have "queue_head_blocked e'"
    unfolding e'
    by (rule enqueue_keeps_head_blocked) (use inv blocked in \<open>auto simp: entry_inv_def\<close>)
  moreover have "queue_ordered s e'"
    using inv checked_add_one_less [OF seq(2)] checked_add_one_pos [OF seq(2)]
    by (auto simp: e' entry_inv_def queue_ordered_def sorted_wrt_append)
  ultimately show ?thesis
    using inv \<open>tx \<noteq> 0\<close> by (auto simp: e' seq entry_inv_def ids_nonzero_def)
qed

lemma acquire_entry_inv:
  assumes "acquire_entry tx mode e seq = (e', seq', res)" and "entry_inv seq e" and "tx \<noteq> 0"
  shows "entry_inv seq' e'" and "seq \<le> seq'"
proof -
  obtain eff where eff: "acquire_effect tx mode e seq e' seq' eff"
    using assms(1,3) by (rule acquire_entry_effect)
  show "entry_inv seq' e'" using eff assms(2,3) by (rule acquire_effect_inv)
  show "seq \<le> seq'" using eff by (rule acquire_effect_seq)
qed

section \<open>Release\<close>

definition mentions :: "u64 \<Rightarrow> lock_entry \<Rightarrow> bool" where
  "mentions tx e \<longleftrightarrow>
     (\<exists>h \<in> set (holders e). holder_tx_id h = tx) \<or> (\<exists>w \<in> set (waiters e). waiter_tx_id w = tx)"

definition entry_empty :: "lock_entry \<Rightarrow> bool" where
  "entry_empty e \<longleftrightarrow> holders e = [] \<and> waiters e = []"

text \<open>What a release does to one entry: promotion runs only if something was removed.\<close>

definition release_entry :: "u64 \<Rightarrow> lock_entry \<Rightarrow> lock_entry" where
  "release_entry tx e =
     (if mentions tx e then fst (promote_compatible_waiters (retain_others tx e)) else e)"

lemma length_filter_eq_iff: "length (filter P xs) = length xs \<longleftrightarrow> (\<forall>x \<in> set xs. P x)"
  by (metis filter_True length_filter_less nat_less_le)

lemma retain_others_unmentioned: "\<not> mentions tx e \<Longrightarrow> retain_others tx e = e"
  by (auto simp: mentions_def retain_others_def intro!: lock_entry.equality filter_True)

lemma removed_iff_mentions:
  "(length (holders e) \<noteq> length (holders (retain_others tx e)) \<or>
    length (waiters e) \<noteq> length (waiters (retain_others tx e))) \<longleftrightarrow> mentions tx e"
  using length_filter_eq_iff [of "\<lambda>h. holder_tx_id h \<noteq> tx" "holders e"]
    length_filter_eq_iff [of "\<lambda>w. waiter_tx_id w \<noteq> tx" "waiters e"]
  by (auto simp: mentions_def retain_others_def dest: sym)

lemma removed_zero_iff:
  "length (holders e) \<le> length (holders (retain_others tx e)) \<and>
   length (waiters e) \<le> length (waiters (retain_others tx e)) \<longleftrightarrow> \<not> mentions tx e"
proof -
  have "length (holders (retain_others tx e)) \<le> length (holders e)"
    "length (waiters (retain_others tx e)) \<le> length (waiters e)"
    by (simp_all add: retain_others_def)
  then show ?thesis using removed_iff_mentions [of e tx] by auto
qed

lemma retain_others_parts:
  assumes "entry_inv seq e"
  shows "holders_compatible (retain_others tx e)" and "holders_unique (retain_others tx e)"
    and "queue_ordered seq (retain_others tx e)" and "ids_nonzero (retain_others tx e)"
  using assms
  by (auto simp: entry_inv_def retain_others_def holders_compatible_def holders_unique_def
      queue_ordered_def ids_nonzero_def distinct_map_filter sorted_wrt_map sorted_wrt_filter)

lemma promote_inv:
  assumes "promote_compatible_waiters e = (e', ps)"
    and "holders_compatible e" and "holders_unique e" and "queue_ordered seq e" and "ids_nonzero e"
  shows "entry_inv seq e'"
proof -
  have ps: "promotion_sound e e' ps" using assms(1) by (rule promote_sound)
  have "0 \<notin> holder_tx_id ` set (holders e')"
  proof
    assume "0 \<in> holder_tx_id ` set (holders e')"
    then have "0 \<in> holder_tx_id ` set (holders e) \<union> waiter_tx_id ` set ps"
      using ps by (simp add: promotion_sound_def)
    then show False using ps assms(5) by (auto simp: promotion_sound_def ids_nonzero_def)
  qed
  then have "ids_nonzero e'"
    using ps assms(5) by (auto simp: promotion_sound_def ids_nonzero_def)
  moreover have "queue_ordered seq e'"
    using ps assms(4) by (auto simp: promotion_sound_def queue_ordered_def sorted_wrt_append)
  ultimately show ?thesis
    using ps assms(2,3) by (auto simp: promotion_sound_def entry_inv_def)
qed

lemma release_entry_inv: "entry_inv seq e \<Longrightarrow> entry_inv seq (release_entry tx e)"
  using promote_inv [of "retain_others tx e", OF surjective_pairing] retain_others_parts [of seq e tx]
  by (auto simp: release_entry_def)

lemma release_entry_unmentioned: "\<not> mentions tx (release_entry tx e)"
proof (cases "mentions tx e")
  case False
  then show ?thesis by (simp add: release_entry_def)
next
  case True
  obtain e' ps where p: "promote_compatible_waiters (retain_others tx e) = (e', ps)"
    by fastforce
  then have ps: "promotion_sound (retain_others tx e) e' ps" by (rule promote_sound)
  have ws: "set ps \<subseteq> set (waiters (retain_others tx e))" "set (waiters e') \<subseteq> set (waiters (retain_others tx e))"
    using ps by (auto simp: promotion_sound_def)
  have "tx \<notin> holder_tx_id ` set (holders e')"
  proof
    assume "tx \<in> holder_tx_id ` set (holders e')"
    then have "tx \<in> holder_tx_id ` set (holders (retain_others tx e)) \<union> waiter_tx_id ` set ps"
      using ps by (simp add: promotion_sound_def)
    then show False using ws by (auto simp: retain_others_def)
  qed
  moreover have "release_entry tx e = e'" using True p by (simp add: release_entry_def)
  ultimately show ?thesis
    unfolding mentions_def using ws by (auto simp: retain_others_def)
qed

text \<open>The table after \<open>release\<close> and after \<open>release_all\<close>, resource by resource.\<close>

definition promoted_by_release :: "u64 \<Rightarrow> lock_entry \<Rightarrow> lock_waiter list" where
  "promoted_by_release tx e =
     (if mentions tx e then snd (promote_compatible_waiters (retain_others tx e)) else [])"

lemma release_with_evidence_Some:
  assumes "tx \<noteq> 0" and "validate_lock_resource r = Inr ()" and "\<not> poisoned m"
    and "map_of (entries m) r = Some e"
  shows "release_with_evidence m tx r =
     (m\<lparr>entries := (if entry_empty (release_entry tx e)
                    then AList.delete r (AList.update r (release_entry tx e) (entries m))
                    else AList.update r (release_entry tx e) (entries m))\<rparr>,
      Inr \<lparr>released_any = mentions tx e,
           release_evidence = map (evidence_promotion r) (promoted_by_release tx e)\<rparr>)"
  unfolding release_with_evidence_def Let_def removed_iff_mentions
  using assms
  by (cases "mentions tx e")
    (auto simp: lock_inner_def release_entry_def promoted_by_release_def entry_empty_def
      retain_others_unmentioned split: prod.split)

lemma release_entries:
  assumes "tx \<noteq> 0" and "validate_lock_resource r = Inr ()" and "\<not> poisoned m" and "hash_inv (entries m)"
  shows "map_of (entries (fst (release_with_evidence m tx r))) =
     (case map_of (entries m) r of
        None \<Rightarrow> map_of (entries m)
      | Some e \<Rightarrow> (map_of (entries m))(r := (if entry_empty (release_entry tx e) then None
                                          else Some (release_entry tx e))))"
    and "hash_inv (entries (fst (release_with_evidence m tx r)))"
proof -
  show "map_of (entries (fst (release_with_evidence m tx r))) =
     (case map_of (entries m) r of
        None \<Rightarrow> map_of (entries m)
      | Some e \<Rightarrow> (map_of (entries m))(r := (if entry_empty (release_entry tx e) then None
                                          else Some (release_entry tx e))))"
    and "hash_inv (entries (fst (release_with_evidence m tx r)))"
    using assms release_with_evidence_Some [of tx r m]
    by (cases "map_of (entries m) r";
        simp add: release_with_evidence_def lock_inner_def hash_map.get_put hash_map.get_del
          hash_map.invar_put hash_map.invar_del)+
qed

lemma release_all_step_entries:
  assumes "hash_inv (acc_entries acc)"
  shows "map_of (acc_entries (release_all_step tx r acc)) =
      (map_of (acc_entries acc))(r := map_option (release_entry tx) (map_of (acc_entries acc) r))"
    and "hash_inv (acc_entries (release_all_step tx r acc))"
    and "acc_empty_resources (release_all_step tx r acc) = acc_empty_resources acc @
      (case map_of (acc_entries acc) r of
         None \<Rightarrow> []
       | Some e \<Rightarrow> if mentions tx e \<and> entry_empty (release_entry tx e) then [r] else [])"
proof -
  have entries: "acc_entries (release_all_step tx r acc) =
      (case map_of (acc_entries acc) r of
         None \<Rightarrow> acc_entries acc
       | Some e \<Rightarrow> AList.update r (release_entry tx e) (acc_entries acc))"
    using removed_zero_iff
    by (auto simp: release_all_step_def Let_def release_entry_def retain_others_unmentioned
        split: option.splits prod.splits)
  show "map_of (acc_entries (release_all_step tx r acc)) =
      (map_of (acc_entries acc))(r := map_option (release_entry tx) (map_of (acc_entries acc) r))"
    and "hash_inv (acc_entries (release_all_step tx r acc))"
    using assms
    by (simp_all add: entries hash_map.get_put hash_map.invar_put fun_upd_idem split: option.splits)
  show "acc_empty_resources (release_all_step tx r acc) = acc_empty_resources acc @
      (case map_of (acc_entries acc) r of
         None \<Rightarrow> []
       | Some e \<Rightarrow> if mentions tx e \<and> entry_empty (release_entry tx e) then [r] else [])"
    using removed_zero_iff
    by (auto simp: release_all_step_def Let_def release_entry_def entry_empty_def
        split: option.splits prod.splits)
qed

lemma release_all_fold_entries:
  assumes "hash_inv (acc_entries acc)" and "distinct rs"
  shows "hash_inv (acc_entries (fold (release_all_step tx) rs acc)) \<and>
    map_of (acc_entries (fold (release_all_step tx) rs acc)) =
      (\<lambda>r. if r \<in> set rs then map_option (release_entry tx) (map_of (acc_entries acc) r)
            else map_of (acc_entries acc) r) \<and>
    set (acc_empty_resources (fold (release_all_step tx) rs acc)) = set (acc_empty_resources acc) \<union>
      {r \<in> set rs. \<exists>e. map_of (acc_entries acc) r = Some e \<and> mentions tx e \<and>
         entry_empty (release_entry tx e)}"
  using assms
proof (induction rs arbitrary: acc)
  case Nil
  then show ?case by simp
next
  case (Cons r rs)
  let ?acc = "release_all_step tx r acc"
  note step = release_all_step_entries [OF Cons.prems(1), of tx r]
  have r: "r \<notin> set rs" and d: "distinct rs" using Cons.prems(2) by auto
  note IH = Cons.IH [OF step(2) d]
  show ?case
    using IH r by (cases "map_of (acc_entries acc) r") (auto simp: step fun_eq_iff)
qed

lemma fold_delete_entries:
  assumes "hash_inv kvs"
  shows "hash_inv (fold AList.delete ks kvs) \<and>
    map_of (fold AList.delete ks kvs) = (\<lambda>k. if k \<in> set ks then None else map_of kvs k)"
  using assms
proof (induction ks arbitrary: kvs)
  case (Cons k ks)
  have "hash_inv (AList.delete k kvs)" using Cons.prems by (rule hash_map.invar_del)
  from Cons.IH [OF this] show ?case
    using Cons.prems by (auto simp: hash_map.get_del fun_eq_iff)
qed simp

lemma release_all_entries:
  assumes "tx \<noteq> 0" and "\<not> poisoned m" and "hash_inv (entries m)"
  shows "map_of (entries (fst (release_all_with_evidence m tx))) r =
     (case map_of (entries m) r of
        None \<Rightarrow> None
      | Some e \<Rightarrow> if mentions tx e \<and> entry_empty (release_entry tx e) then None
                 else Some (release_entry tx e))"
    and "hash_inv (entries (fst (release_all_with_evidence m tx)))"
proof -
  let ?start = "\<lparr>acc_entries = entries m, acc_summary = summary_default,
                acc_evidence = [], acc_empty_resources = []\<rparr>"
  let ?acc = "fold (release_all_step tx) (sort (map fst (entries m))) ?start"
  have "distinct (sort (map fst (entries m)))"
    using assms(3) by (simp add: hash_inv_def)
  then have f: "hash_inv (acc_entries ?acc)"
    "map_of (acc_entries ?acc) = (\<lambda>r. if r \<in> fst ` set (entries m)
        then map_option (release_entry tx) (map_of (entries m) r) else map_of (entries m) r)"
    "set (acc_empty_resources ?acc) = {r \<in> fst ` set (entries m).
        \<exists>e. map_of (entries m) r = Some e \<and> mentions tx e \<and> entry_empty (release_entry tx e)}"
    using release_all_fold_entries [of ?start "sort (map fst (entries m))" tx] assms(3) by auto
  have m': "entries (fst (release_all_with_evidence m tx)) =
      fold AList.delete (acc_empty_resources ?acc) (acc_entries ?acc)"
    using assms(1,2) by (simp add: release_all_with_evidence_def lock_inner_def Let_def)
  show "hash_inv (entries (fst (release_all_with_evidence m tx)))"
    using fold_delete_entries [OF f(1)] m' by simp
  have "map_of (entries m) r = Some e \<Longrightarrow> r \<in> fst ` set (entries m)" for e
    by (metis domI dom_map_of_conv_image_fst)
  then show "map_of (entries (fst (release_all_with_evidence m tx))) r =
     (case map_of (entries m) r of
        None \<Rightarrow> None
      | Some e \<Rightarrow> if mentions tx e \<and> entry_empty (release_entry tx e) then None
                 else Some (release_entry tx e))"
    using fold_delete_entries [OF f(1)] by (auto simp: m' f split: option.splits)
qed

section \<open>The manager\<close>

definition manager_inv :: "lock_manager \<Rightarrow> bool" where
  "manager_inv m \<longleftrightarrow> hash_inv (entries m) \<and>
     (\<forall>r e. map_of (entries m) r = Some e \<longrightarrow>
        validate_lock_resource r = Inr () \<and> entry_inv (next_sequence m) e)"

lemma manager_inv_new: "manager_inv lock_manager_new"
  by (simp add: manager_inv_def lock_manager_new_def hash_inv_def)

lemma manager_inv_update:
  assumes "manager_inv m" and "validate_lock_resource r = Inr ()"
    and "entry_inv seq e" and "next_sequence m \<le> seq"
  shows "manager_inv (m\<lparr>entries := AList.update r e (entries m), next_sequence := seq\<rparr>)"
proof -
  have "hash_inv (entries m)" using assms(1) by (simp add: manager_inv_def)
  then show ?thesis
    using assms by (auto simp: manager_inv_def hash_map.get_put hash_map.invar_put intro: entry_inv_mono
        split: if_splits)
qed

lemma entry_or_new_inv: "manager_inv m \<Longrightarrow> entry_inv (next_sequence m) (entry_or_new m r)"
  by (auto simp: manager_inv_def entry_or_new_def split: option.splits)

lemma acquire_inv: "manager_inv m \<Longrightarrow> manager_inv (fst (acquire m tx r mode))"
proof (cases "and_then (validate_transaction_id tx)
    (\<lambda>_. and_then (validate_lock_resource r) (\<lambda>_. lock_inner m))")
  case (Inr u)
  assume inv: "manager_inv m"
  obtain e' seq' res where acq: "acquire_entry tx mode (entry_or_new m r) (next_sequence m) = (e', seq', res)"
    by (metis prod_cases3)
  from Inr have ok: "tx \<noteq> 0" "validate_lock_resource r = Inr ()"
    by (auto simp: and_then_eq_Inr_iff)
  show ?thesis
    using manager_inv_update [OF inv ok(2) acquire_entry_inv [OF acq entry_or_new_inv [OF inv] ok(1)]]
      Inr acq by (simp add: acquire_def)
qed (simp add: acquire_def)

lemma ensure_entry_inv: "manager_inv m \<Longrightarrow> manager_inv (fst (ensure_entry m r))"
  using manager_inv_update [OF _ _ entry_or_new_inv, of m r m r]
  by (auto simp: ensure_entry_def and_then_eq_Inr_iff split: sum.splits)

lemma manager_inv_entries:
  assumes "manager_inv m" and "hash_inv kvs"
    and "\<And>r e. map_of kvs r = Some e \<Longrightarrow> \<exists>d. map_of (entries m) r = Some d \<and> (e = d \<or> e = release_entry tx d)"
  shows "manager_inv (m\<lparr>entries := kvs\<rparr>)"
  using assms release_entry_inv by (fastforce simp: manager_inv_def)

lemma entries_update_self: "\<exists>kvs. m = m\<lparr>entries := kvs\<rparr>" for m :: lock_manager
  by (rule exI [of _ "entries m"]) simp

lemma release_with_evidence_other:
  "\<exists>kvs. fst (release_with_evidence m tx r) = m\<lparr>entries := kvs\<rparr>"
  using entries_update_self [of m]
  by (auto simp: release_with_evidence_def Let_def split: sum.splits option.splits prod.splits)

lemma release_all_other:
  "\<exists>kvs. fst (release_all_with_evidence m tx) = m\<lparr>entries := kvs\<rparr>"
  using entries_update_self [of m]
  by (auto simp: release_all_with_evidence_def Let_def split: sum.splits)

lemma release_inv:
  assumes "manager_inv m"
  shows "manager_inv (fst (release_with_evidence m tx r))"
proof (cases "and_then (validate_transaction_id tx)
    (\<lambda>_. and_then (validate_lock_resource r) (\<lambda>_. lock_inner m))")
  case (Inl e)
  then show ?thesis using assms by (simp add: release_with_evidence_def)
next
  case (Inr u)
  then have ok: "tx \<noteq> 0" "validate_lock_resource r = Inr ()" "\<not> poisoned m"
    by (auto simp: and_then_eq_Inr_iff lock_inner_def split: if_splits)
  have h: "hash_inv (entries m)" using assms by (simp add: manager_inv_def)
  obtain kvs where kvs: "fst (release_with_evidence m tx r) = m\<lparr>entries := kvs\<rparr>"
    using release_with_evidence_other by blast
  show ?thesis
    unfolding kvs
    by (rule manager_inv_entries [of _ _ tx, OF assms])
      (use release_entries [OF ok h] kvs in \<open>auto split: option.splits if_splits\<close>)
qed

lemma release_all_inv:
  assumes "manager_inv m"
  shows "manager_inv (fst (release_all_with_evidence m tx))"
proof (cases "and_then (validate_transaction_id tx) (\<lambda>_. lock_inner m)")
  case (Inl e)
  then show ?thesis using assms by (simp add: release_all_with_evidence_def)
next
  case (Inr u)
  then have ok: "tx \<noteq> 0" "\<not> poisoned m"
    by (auto simp: and_then_eq_Inr_iff lock_inner_def split: if_splits)
  have h: "hash_inv (entries m)" using assms by (simp add: manager_inv_def)
  obtain kvs where kvs: "fst (release_all_with_evidence m tx) = m\<lparr>entries := kvs\<rparr>"
    using release_all_other by blast
  show ?thesis
    unfolding kvs
    by (rule manager_inv_entries [of _ _ tx, OF assms])
      (use release_all_entries [OF ok h] kvs in \<open>auto split: option.splits if_splits\<close>)
qed

text \<open>
  The steps of the manager: any of its operations, by any transaction, whatever it returns. The
  two hooks \<open>enqueue_waiter\<close> and \<open>record_holder\<close> that evaluate no compatibility are not steps;
  nothing in the repository outside the crate's tests calls them.
\<close>

inductive lock_step :: "lock_manager \<Rightarrow> lock_manager \<Rightarrow> bool" where
  step_ensure: "lock_step m (fst (ensure_entry m r))"
| step_acquire: "lock_step m (fst (acquire m tx r mode))"
| step_acquire_evidence: "lock_step m (fst (acquire_with_evidence m tx r mode))"
| step_release: "lock_step m (fst (release m tx r))"
| step_release_evidence: "lock_step m (fst (release_with_evidence m tx r))"
| step_release_all: "lock_step m (fst (release_all m tx))"
| step_release_all_evidence: "lock_step m (fst (release_all_with_evidence m tx))"

inductive_cases lock_stepE: "lock_step m m'"

lemma wrapper_states [simp]:
  "fst (acquire_with_evidence m tx r mode) = fst (acquire m tx r mode)"
  "fst (release m tx r) = fst (release_with_evidence m tx r)"
  "fst (release_all m tx) = fst (release_all_with_evidence m tx)"
  by (simp_all add: acquire_with_evidence_def release_def release_all_def split: prod.splits)

lemma lock_step_inv: "lock_step m m' \<Longrightarrow> manager_inv m \<Longrightarrow> manager_inv m'"
  by (auto elim!: lock_stepE simp: acquire_inv release_inv release_all_inv ensure_entry_inv)

interpretation lock_table: invariant_system lock_manager_new lock_step manager_inv
  by unfold_locales (auto intro: manager_inv_new lock_step_inv)

abbreviation lock_reachable :: "lock_manager \<Rightarrow> bool" where
  "lock_reachable m \<equiv> lock_step\<^sup>*\<^sup>* lock_manager_new m"

lemma reachable_entry_inv:
  "lock_reachable m \<Longrightarrow> map_of (entries m) r = Some e \<Longrightarrow> entry_inv (next_sequence m) e"
  using lock_table.reachable_inv by (auto simp: manager_inv_def)

lemma reachable_hash_inv: "lock_reachable m \<Longrightarrow> hash_inv (entries m)"
  using lock_table.reachable_inv by (auto simp: manager_inv_def)

end
