(* ===== verification/Deadlock_Graph.thy ===== *)
theory Deadlock_Graph
  imports Lock_Manager_Inv
begin

text \<open>
  The wait-for graph of the deadlock detector (\<open>deadlock_detection/graph.rs\<close> and
  \<open>validation.rs\<close>): an ordered map from a waiting transaction to the ordered set of the
  transactions that block it. The locale \<open>digraph\<close> is what the cycle search needs of a graph; its
  interpretation gives it the wait-for graph.
\<close>

section \<open>Validation\<close>

definition deadlock_error :: "string \<Rightarrow> andromeda_error" where
  "deadlock_error message = AndromedaError Transaction message"

definition deadlock_validate_transaction_id :: "u64 \<Rightarrow> unit andromeda_result" where
  "deadlock_validate_transaction_id tx =
     (if tx = 0 then Inl (deadlock_error ''deadlock transaction id must not be zero'') else Inr ())"

definition validate_start_order :: "u64 \<Rightarrow> unit andromeda_result" where
  "validate_start_order start_order =
     (if start_order = 0
      then Inl (deadlock_error ''deadlock transaction start order must not be zero'') else Inr ())"

definition validate_not_self_edge :: "u64 \<Rightarrow> u64 \<Rightarrow> unit andromeda_result" where
  "validate_not_self_edge waiting blocking =
     (if waiting = blocking
      then Inl (deadlock_error ''deadlock wait-for self edge is invalid'') else Inr ())"

fun validate_transaction_ids :: "u64 list \<Rightarrow> unit andromeda_result" where
  "validate_transaction_ids [] = Inr ()"
| "validate_transaction_ids (tx # txs) =
     and_then (deadlock_validate_transaction_id tx) (\<lambda>_. validate_transaction_ids txs)"

definition validate_cycle_participants :: "u64 list \<Rightarrow> unit andromeda_result" where
  "validate_cycle_participants participants =
     (if length participants < 2
      then Inl (deadlock_error ''deadlock cycle must contain at least two transactions'')
      else validate_transaction_ids participants)"

lemma deadlock_validate_iff [simp]: "deadlock_validate_transaction_id tx = Inr u \<longleftrightarrow> tx \<noteq> 0"
  by (simp add: deadlock_validate_transaction_id_def)

lemma deadlock_validate_ok [simp]: "tx \<noteq> 0 \<Longrightarrow> deadlock_validate_transaction_id tx = Inr ()"
  by simp

lemma validate_transaction_ids_iff [simp]: "validate_transaction_ids txs = Inr u \<longleftrightarrow> 0 \<notin> set txs"
  by (induction txs) (auto simp: and_then_eq_Inr_iff)

section \<open>The graph\<close>

record wait_for_graph =
  wfg_edges :: "(u64 \<times> u64 list) list"

definition wait_for_graph_new :: wait_for_graph where
  "wait_for_graph_new = \<lparr>wfg_edges = []\<rparr>"

definition blockers_of :: "wait_for_graph \<Rightarrow> u64 \<Rightarrow> u64 list" where
  "blockers_of g tx = (case map_of (wfg_edges g) tx of None \<Rightarrow> [] | Some bs \<Rightarrow> bs)"

definition insert_edge ::
    "wait_for_graph \<Rightarrow> u64 \<Rightarrow> u64 \<Rightarrow> wait_for_graph \<times> bool andromeda_result" where
  "insert_edge g waiting blocking =
     (case and_then (deadlock_validate_transaction_id waiting)
             (\<lambda>_. and_then (deadlock_validate_transaction_id blocking)
               (\<lambda>_. validate_not_self_edge waiting blocking)) of
        Inl e \<Rightarrow> (g, Inl e)
      | Inr _ \<Rightarrow>
          (let bs = blockers_of g waiting in
           (g\<lparr>wfg_edges := btree_insert waiting (btree_set_insert blocking bs) (wfg_edges g)\<rparr>,
            Inr (blocking \<notin> set bs))))"

definition remove_edge ::
    "wait_for_graph \<Rightarrow> u64 \<Rightarrow> u64 \<Rightarrow> wait_for_graph \<times> bool andromeda_result" where
  "remove_edge g waiting blocking =
     (case and_then (deadlock_validate_transaction_id waiting)
             (\<lambda>_. and_then (deadlock_validate_transaction_id blocking)
               (\<lambda>_. validate_not_self_edge waiting blocking)) of
        Inl e \<Rightarrow> (g, Inl e)
      | Inr _ \<Rightarrow>
          (case map_of (wfg_edges g) waiting of
             None \<Rightarrow> (g, Inr False)
           | Some bs \<Rightarrow>
               (let bs' = filter (\<lambda>b. b \<noteq> blocking) bs in
                (g\<lparr>wfg_edges :=
                     (if bs' = [] then btree_remove waiting (wfg_edges g)
                      else btree_insert waiting bs' (wfg_edges g))\<rparr>,
                 Inr (blocking \<in> set bs)))))"

definition remove_transaction :: "wait_for_graph \<Rightarrow> u64 \<Rightarrow> wait_for_graph \<times> bool andromeda_result" where
  "remove_transaction g tx =
     (case deadlock_validate_transaction_id tx of
        Inl e \<Rightarrow> (g, Inl e)
      | Inr _ \<Rightarrow>
          (let removed_outgoing = map_of (wfg_edges g) tx \<noteq> None;
               remaining = btree_remove tx (wfg_edges g);
               removed_incoming = list_ex (\<lambda>kv. tx \<in> set (snd kv)) remaining
           in
           (g\<lparr>wfg_edges := filter (\<lambda>kv. snd kv \<noteq> [])
                (map (\<lambda>kv. (fst kv, filter (\<lambda>b. b \<noteq> tx) (snd kv))) remaining)\<rparr>,
            Inr (removed_outgoing \<or> removed_incoming))))"

definition blockers_for :: "wait_for_graph \<Rightarrow> u64 \<Rightarrow> u64 list andromeda_result" where
  "blockers_for g waiting =
     and_then (deadlock_validate_transaction_id waiting) (\<lambda>_. Inr (blockers_of g waiting))"

definition graph_edges :: "wait_for_graph \<Rightarrow> (u64 \<times> u64) list" where
  "graph_edges g = concat (map (\<lambda>kv. map (\<lambda>b. (fst kv, b)) (snd kv)) (wfg_edges g))"

definition graph_is_empty :: "wait_for_graph \<Rightarrow> bool" where
  "graph_is_empty g \<longleftrightarrow> wfg_edges g = []"

definition transaction_ids :: "wait_for_graph \<Rightarrow> u64 list" where
  "transaction_ids g = sort (remdups (concat (map (\<lambda>kv. fst kv # snd kv) (wfg_edges g))))"

fun validate_blockers :: "u64 \<Rightarrow> u64 list \<Rightarrow> unit andromeda_result" where
  "validate_blockers waiting [] = Inr ()"
| "validate_blockers waiting (b # bs) =
     and_then (deadlock_validate_transaction_id b)
       (\<lambda>_. and_then (validate_not_self_edge waiting b) (\<lambda>_. validate_blockers waiting bs))"

fun validate_edges :: "(u64 \<times> u64 list) list \<Rightarrow> unit andromeda_result" where
  "validate_edges [] = Inr ()"
| "validate_edges ((waiting, bs) # kvs) =
     and_then (deadlock_validate_transaction_id waiting)
       (\<lambda>_. and_then (validate_blockers waiting bs) (\<lambda>_. validate_edges kvs))"

definition graph_validate :: "wait_for_graph \<Rightarrow> unit andromeda_result" where
  "graph_validate g = validate_edges (wfg_edges g)"

text \<open>Building the graph from a lock-table snapshot: entries, then waiters, then holders.\<close>

fun add_holder_edges ::
    "wait_for_graph \<Rightarrow> lock_waiter \<Rightarrow> lock_holder list \<Rightarrow> wait_for_graph andromeda_result" where
  "add_holder_edges g w [] = Inr g"
| "add_holder_edges g w (h # hs) =
     and_then (deadlock_validate_transaction_id (holder_tx_id h)) (\<lambda>_.
       if holder_tx_id h = waiter_tx_id w then add_holder_edges g w hs
       else if \<not> is_compatible_with (holder_mode h) (waiter_mode w) then
         (case insert_edge g (waiter_tx_id w) (holder_tx_id h) of
            (g', Inl e) \<Rightarrow> Inl e
          | (g', Inr changed) \<Rightarrow> add_holder_edges g' w hs)
       else add_holder_edges g w hs)"

fun add_waiter_edges ::
    "wait_for_graph \<Rightarrow> lock_holder list \<Rightarrow> lock_waiter list \<Rightarrow> wait_for_graph andromeda_result" where
  "add_waiter_edges g hs [] = Inr g"
| "add_waiter_edges g hs (w # ws) =
     and_then (deadlock_validate_transaction_id (waiter_tx_id w)) (\<lambda>_.
       and_then (add_holder_edges g w hs) (\<lambda>g'. add_waiter_edges g' hs ws))"

fun add_entry_edges ::
    "wait_for_graph \<Rightarrow> (lock_resource \<times> lock_entry) list \<Rightarrow> wait_for_graph andromeda_result" where
  "add_entry_edges g [] = Inr g"
| "add_entry_edges g ((r, entry) # rest) =
     and_then (add_waiter_edges g (holders entry) (waiters entry)) (\<lambda>g'. add_entry_edges g' rest)"

definition from_lock_table_snapshot ::
    "(lock_resource \<times> lock_entry) list \<Rightarrow> wait_for_graph andromeda_result" where
  "from_lock_table_snapshot snap = add_entry_edges wait_for_graph_new snap"

section \<open>Edges and well-formedness\<close>

definition edge_rel :: "wait_for_graph \<Rightarrow> (u64 \<times> u64) set" where
  "edge_rel g = {(w, b). b \<in> set (blockers_of g w)}"

definition wfg_inv :: "wait_for_graph \<Rightarrow> bool" where
  "wfg_inv g \<longleftrightarrow> btree_inv (wfg_edges g) \<and>
     (\<forall>w bs. map_of (wfg_edges g) w = Some bs \<longrightarrow>
        w \<noteq> 0 \<and> bs \<noteq> [] \<and> 0 \<notin> set bs \<and> w \<notin> set bs \<and> sorted_wrt (<) bs)"

lemma blockers_Some: "map_of (wfg_edges g) w = Some bs \<Longrightarrow> blockers_of g w = bs"
  by (simp add: blockers_of_def)

lemma wfg_inv_new: "wfg_inv wait_for_graph_new"
  by (simp add: wfg_inv_def wait_for_graph_new_def btree_inv_def)

lemma edge_rel_new: "edge_rel wait_for_graph_new = {}"
  by (simp add: edge_rel_def blockers_of_def wait_for_graph_new_def)

lemma wfg_inv_blockers:
  assumes "wfg_inv g"
  shows "sorted_wrt (<) (blockers_of g w)" and "0 \<notin> set (blockers_of g w)"
    and "w \<notin> set (blockers_of g w)" and "blockers_of g w \<noteq> [] \<Longrightarrow> w \<noteq> 0"
  using assms by (auto simp: wfg_inv_def blockers_of_def split: option.splits)

lemma set_transaction_ids:
  "set (transaction_ids g) = (\<Union>kv \<in> set (wfg_edges g). insert (fst kv) (set (snd kv)))"
  by (auto simp: transaction_ids_def)

lemma transaction_ids_edge:
  assumes "(w, b) \<in> edge_rel g"
  shows "w \<in> set (transaction_ids g)" and "b \<in> set (transaction_ids g)"
proof -
  from assms obtain bs where bs: "map_of (wfg_edges g) w = Some bs" "b \<in> set bs"
    by (cases "map_of (wfg_edges g) w") (auto simp: edge_rel_def blockers_of_def)
  then have "(w, bs) \<in> set (wfg_edges g)" by (simp add: map_of_SomeD)
  with bs(2) show "w \<in> set (transaction_ids g)" "b \<in> set (transaction_ids g)"
    by (force simp: set_transaction_ids)+
qed

lemma transaction_ids_nonzero: "wfg_inv g \<Longrightarrow> 0 \<notin> set (transaction_ids g)"
  by (force simp: wfg_inv_def set_transaction_ids btree_inv_distinct)

lemma insert_edge_ok:
  assumes "wfg_inv g" and "w \<noteq> 0" and "b \<noteq> 0" and "w \<noteq> b"
  obtains g' where "insert_edge g w b = (g', Inr (b \<notin> set (blockers_of g w)))"
    "wfg_inv g'" "edge_rel g' = insert (w, b) (edge_rel g)"
proof
  let ?bs = "blockers_of g w"
  let ?g = "g\<lparr>wfg_edges := btree_insert w (btree_set_insert b ?bs) (wfg_edges g)\<rparr>"
  show "insert_edge g w b = (?g, Inr (b \<notin> set ?bs))"
    using assms by (simp add: insert_edge_def validate_not_self_edge_def Let_def)
  have tree: "btree_inv (wfg_edges g)" using assms(1) by (simp add: wfg_inv_def)
  show "wfg_inv ?g"
    using assms tree wfg_inv_blockers [OF assms(1), of w] sorted_btree_set_insert [of ?bs b]
    by (auto simp: wfg_inv_def btree_map.get_put btree_map.invar_put btree_set_insert_def insort_not_Nil
        set_insort_key split: if_splits)
  show "edge_rel ?g = insert (w, b) (edge_rel g)"
    using tree by (auto simp: edge_rel_def blockers_of_def btree_map.get_put split: if_splits option.splits)
qed

text \<open>The edges a snapshot stands for: a waiter and each other transaction's conflicting holder.\<close>

definition entry_waits :: "lock_entry \<Rightarrow> (u64 \<times> u64) set" where
  "entry_waits e = {(waiter_tx_id w, holder_tx_id h) | w h.
     w \<in> set (waiters e) \<and> h \<in> set (holders e) \<and> holder_tx_id h \<noteq> waiter_tx_id w \<and>
     \<not> is_compatible_with (holder_mode h) (waiter_mode w)}"

definition extends_by :: "wait_for_graph \<Rightarrow> (u64 \<times> u64) set \<Rightarrow> wait_for_graph andromeda_result \<Rightarrow> bool" where
  "extends_by g E res \<longleftrightarrow> (\<exists>g'. res = Inr g' \<and> wfg_inv g' \<and> edge_rel g' = edge_rel g \<union> E)"

lemma add_holder_edges_ok:
  assumes "wfg_inv g" and "waiter_tx_id w \<noteq> 0" and "\<forall>h \<in> set hs. holder_tx_id h \<noteq> 0"
  shows "extends_by g {(waiter_tx_id w, holder_tx_id h) | h. h \<in> set hs \<and>
     holder_tx_id h \<noteq> waiter_tx_id w \<and> \<not> is_compatible_with (holder_mode h) (waiter_mode w)}
     (add_holder_edges g w hs)"
  using assms
proof (induction hs arbitrary: g)
  case Nil
  then show ?case by (simp add: extends_by_def)
next
  case (Cons h hs)
  let ?edge = "holder_tx_id h \<noteq> waiter_tx_id w \<and> \<not> is_compatible_with (holder_mode h) (waiter_mode w)"
  show ?case
  proof (cases ?edge)
    case True
    obtain g' where g': "insert_edge g (waiter_tx_id w) (holder_tx_id h) =
        (g', Inr (holder_tx_id h \<notin> set (blockers_of g (waiter_tx_id w))))"
        "wfg_inv g'" "edge_rel g' = insert (waiter_tx_id w, holder_tx_id h) (edge_rel g)"
      by (rule insert_edge_ok [of g "waiter_tx_id w" "holder_tx_id h"]) (use Cons.prems True in auto)
    from Cons.IH [OF g'(2)] Cons.prems True g'(1,3) show ?thesis
      by (auto simp: extends_by_def)
  next
    case False
    with Cons.IH [OF Cons.prems(1)] Cons.prems show ?thesis
      by (auto simp: extends_by_def)
  qed
qed

lemma add_waiter_edges_ok:
  assumes "wfg_inv g" and "\<forall>w \<in> set ws. waiter_tx_id w \<noteq> 0" and "\<forall>h \<in> set hs. holder_tx_id h \<noteq> 0"
  shows "extends_by g (entry_waits \<lparr>holders = hs, waiters = ws\<rparr>) (add_waiter_edges g hs ws)"
  using assms
proof (induction ws arbitrary: g)
  case Nil
  then show ?case by (simp add: extends_by_def entry_waits_def)
next
  case (Cons w ws)
  obtain g' where g': "add_holder_edges g w hs = Inr g'" "wfg_inv g'"
      "edge_rel g' = edge_rel g \<union> {(waiter_tx_id w, holder_tx_id h) | h. h \<in> set hs \<and>
         holder_tx_id h \<noteq> waiter_tx_id w \<and> \<not> is_compatible_with (holder_mode h) (waiter_mode w)}"
    using add_holder_edges_ok [of g w hs] Cons.prems by (auto simp: extends_by_def)
  from Cons.IH [OF g'(2)] Cons.prems obtain g'' where
    "add_waiter_edges g' hs ws = Inr g''" "wfg_inv g''"
    "edge_rel g'' = edge_rel g' \<union> entry_waits \<lparr>holders = hs, waiters = ws\<rparr>"
    by (auto simp: extends_by_def)
  with g' Cons.prems show ?case
    by (auto simp: extends_by_def entry_waits_def)
qed

lemma add_entry_edges_ok:
  assumes "wfg_inv g" and "\<forall>re \<in> set snap. ids_nonzero (snd re)"
  shows "extends_by g (\<Union>re \<in> set snap. entry_waits (snd re)) (add_entry_edges g snap)"
  using assms
proof (induction snap arbitrary: g)
  case Nil
  then show ?case by (simp add: extends_by_def)
next
  case (Cons re snap)
  obtain r e where re: "re = (r, e)" by fastforce
  obtain g' where g': "add_waiter_edges g (holders e) (waiters e) = Inr g'" "wfg_inv g'"
      "edge_rel g' = edge_rel g \<union> entry_waits e"
    using add_waiter_edges_ok [of g "waiters e" "holders e"] Cons.prems re
    by (auto simp: extends_by_def ids_nonzero_def entry_waits_def)
  from Cons.IH [OF g'(2)] Cons.prems obtain g'' where
    "add_entry_edges g' snap = Inr g''" "wfg_inv g''"
    "edge_rel g'' = edge_rel g' \<union> (\<Union>re \<in> set snap. entry_waits (snd re))"
    by (auto simp: extends_by_def)
  with g' re show ?case by (auto simp: extends_by_def)
qed

lemma from_snapshot_ok:
  assumes "\<forall>re \<in> set snap. ids_nonzero (snd re)"
  obtains g where "from_lock_table_snapshot snap = Inr g" "wfg_inv g"
    "edge_rel g = (\<Union>re \<in> set snap. entry_waits (snd re))"
  using add_entry_edges_ok [OF wfg_inv_new assms]
  by (auto simp: extends_by_def from_lock_table_snapshot_def edge_rel_new)

lemma graph_edges_set: "wfg_inv g \<Longrightarrow> set (graph_edges g) = edge_rel g"
  by (force simp: graph_edges_def edge_rel_def blockers_of_def wfg_inv_def btree_inv_distinct
      split: option.splits dest: map_of_SomeD)

lemma validate_blockers_ok: "0 \<notin> set bs \<Longrightarrow> w \<notin> set bs \<Longrightarrow> validate_blockers w bs = Inr ()"
  by (induction bs) (auto simp: validate_not_self_edge_def)

lemma graph_validate_ok:
  assumes "wfg_inv g"
  shows "graph_validate g = Inr ()"
proof -
  have "validate_edges kvs = Inr ()"
    if "\<forall>kv \<in> set kvs. fst kv \<noteq> 0 \<and> 0 \<notin> set (snd kv) \<and> fst kv \<notin> set (snd kv)" for kvs
    using that by (induction kvs rule: validate_edges.induct) (auto simp: validate_blockers_ok)
  moreover have "\<forall>kv \<in> set (wfg_edges g). fst kv \<noteq> 0 \<and> 0 \<notin> set (snd kv) \<and> fst kv \<notin> set (snd kv)"
    using assms by (fastforce simp: wfg_inv_def btree_inv_distinct)
  ultimately show ?thesis by (simp add: graph_validate_def)
qed

section \<open>Directed graphs and their cycles\<close>

text \<open>
  The interface of a finite graph as the cycle search uses it. A cycle is a non-empty list without
  repetitions whose consecutive elements are joined by edges, as are its last and its first.
\<close>

locale digraph =
  fixes nodes :: "'a list" and succs :: "'a \<Rightarrow> 'a list"
  assumes succs_nodes: "y \<in> set (succs x) \<Longrightarrow> x \<in> set nodes \<and> y \<in> set nodes"
begin

definition arcs :: "('a \<times> 'a) set" where
  "arcs = {(x, y). y \<in> set (succs x)}"

lemma closed_trancl:
  assumes "\<And>x y. x \<in> V \<Longrightarrow> y \<in> set (succs x) \<Longrightarrow> y \<in> V" and "(x, y) \<in> arcs\<^sup>+" and "x \<in> V"
  shows "y \<in> V"
  using assms(2,3) by (induction rule: trancl_induct) (auto simp: arcs_def intro: assms(1))

text \<open>A node whose successors lie in a closed set that does not hold it is on no cycle.\<close>

lemma no_cycle_through:
  assumes closed: "\<And>x y. x \<in> V \<Longrightarrow> y \<in> set (succs x) \<Longrightarrow> y \<in> V"
    and "set (succs x) \<subseteq> V" and "x \<notin> V"
  shows "(x, x) \<notin> arcs\<^sup>+"
proof
  assume "(x, x) \<in> arcs\<^sup>+"
  then obtain y where "(x, y) \<in> arcs" "y = x \<or> (y, x) \<in> arcs\<^sup>+"
    by (metis tranclD rtranclD)
  then show False
    using assms closed_trancl [of V y x] by (auto simp: arcs_def)
qed

lemma path_trancl:
  "successively (\<lambda>x y. y \<in> set (succs x)) (x # xs) \<Longrightarrow> (last (x # xs), z) \<in> arcs \<Longrightarrow> (x, z) \<in> arcs\<^sup>+"
proof (induction xs arbitrary: x)
  case (Cons y ys)
  then have "(x, y) \<in> arcs" "(y, z) \<in> arcs\<^sup>+" by (auto simp: arcs_def)
  then show ?case by (rule trancl_into_trancl2)
qed auto

end

interpretation wfg: digraph "transaction_ids g" "blockers_of g" for g
  using transaction_ids_edge [of _ _ g] by unfold_locales (auto simp: edge_rel_def)

lemma wfg_arcs: "wfg.arcs g = edge_rel g"
  by (simp add: wfg.arcs_def edge_rel_def)

definition is_cycle :: "wait_for_graph \<Rightarrow> u64 list \<Rightarrow> bool" where
  "is_cycle g c \<longleftrightarrow> c \<noteq> [] \<and> distinct c \<and>
     successively (\<lambda>x y. y \<in> set (blockers_of g x)) c \<and> hd c \<in> set (blockers_of g (last c))"

lemma is_cycle_trancl: "is_cycle g c \<Longrightarrow> (hd c, hd c) \<in> (edge_rel g)\<^sup>+"
  using wfg.path_trancl [of g "hd c" "tl c" "hd c"]
  by (cases c) (auto simp: is_cycle_def wfg_arcs, simp add: edge_rel_def)

end
