(* ===== verification/Deadlock_Policy.thy ===== *)
theory Deadlock_Policy
  imports Deadlock_Graph
begin

text \<open>
  Policy, clocks, deadlines and transaction metadata of the deadlock detector
  (\<open>deadlock_detection/policy.rs\<close> and \<open>metadata.rs\<close>). A duration is a number of nanoseconds. A
  clock is read several times during one detection: it is modelled by the sequence of its
  readings, of which the code reads the next one each time.
\<close>

section \<open>Policy\<close>

type_synonym duration = nat

definition duration_max :: duration where
  "duration_max = 2 ^ 64 * 10 ^ 9 - 1"

definition duration_checked_add :: "duration \<Rightarrow> duration \<Rightarrow> duration option" where
  "duration_checked_add a b = (if a + b \<le> duration_max then Some (a + b) else None)"

definition MAX_DEADLOCK_TIMEOUT :: duration where
  "MAX_DEADLOCK_TIMEOUT = 60 * 10 ^ 9"

definition DEFAULT_DEADLOCK_TIMEOUT :: duration where
  "DEFAULT_DEADLOCK_TIMEOUT = 500 * 10 ^ 6"

datatype deadlock_victim_policy =
  YoungestTransactionStartOrder | YoungestTransactionId | OldestTransactionId

record deadlock_policy =
  detection_timeout :: duration
  victim_policy :: deadlock_victim_policy

definition validate_deadlock_timeout :: "duration \<Rightarrow> unit andromeda_result" where
  "validate_deadlock_timeout timeout =
     (if timeout = 0 then Inl (deadlock_error ''deadlock detection timeout must not be zero'')
      else if timeout > MAX_DEADLOCK_TIMEOUT
      then Inl (deadlock_error ''deadlock detection timeout exceeds V0 bound'')
      else Inr ())"

definition policy_validate :: "deadlock_policy \<Rightarrow> unit andromeda_result" where
  "policy_validate policy = validate_deadlock_timeout (detection_timeout policy)"

definition deadlock_policy_default :: deadlock_policy where
  "deadlock_policy_default =
     \<lparr>detection_timeout = DEFAULT_DEADLOCK_TIMEOUT, victim_policy = YoungestTransactionStartOrder\<rparr>"

section \<open>Clocks and deadlines\<close>

record deadlock_clock_instant =
  elapsed_since_clock_start :: duration

definition instant :: "duration \<Rightarrow> deadlock_clock_instant" where
  "instant d = \<lparr>elapsed_since_clock_start = d\<rparr>"

definition elapsed_since :: "deadlock_clock_instant \<Rightarrow> deadlock_clock_instant \<Rightarrow> duration" where
  "elapsed_since now earlier = elapsed_since_clock_start now - elapsed_since_clock_start earlier"

text \<open>The readings of a clock: reading number \<open>k\<close> is \<open>clock k\<close>.\<close>

type_synonym clock_readings = "nat \<Rightarrow> deadlock_clock_instant"

record manual_deadlock_clock =
  manual_now :: deadlock_clock_instant

definition manual_clock_new :: manual_deadlock_clock where
  "manual_clock_new = \<lparr>manual_now = instant 0\<rparr>"

definition manual_clock_advance ::
    "manual_deadlock_clock \<Rightarrow> duration \<Rightarrow> manual_deadlock_clock \<times> unit andromeda_result" where
  "manual_clock_advance c elapsed =
     (case duration_checked_add (elapsed_since_clock_start (manual_now c)) elapsed of
        None \<Rightarrow> (c, Inl (deadlock_error ''deadlock manual clock advance overflowed''))
      | Some next \<Rightarrow> (c\<lparr>manual_now := instant next\<rparr>, Inr ()))"

definition manual_clock_set :: "manual_deadlock_clock \<Rightarrow> duration \<Rightarrow> manual_deadlock_clock" where
  "manual_clock_set c d = c\<lparr>manual_now := instant d\<rparr>"

definition manual_readings :: "manual_deadlock_clock \<Rightarrow> clock_readings" where
  "manual_readings c = (\<lambda>_. manual_now c)"

record deadlock_detection_deadline =
  started_at :: deadlock_clock_instant
  deadline_timeout :: duration

definition deadline_new :: "deadlock_clock_instant \<Rightarrow> duration \<Rightarrow> deadlock_detection_deadline andromeda_result" where
  "deadline_new start timeout =
     and_then (validate_deadlock_timeout timeout)
       (\<lambda>_. Inr \<lparr>started_at = start, deadline_timeout = timeout\<rparr>)"

definition deadline_from_policy ::
    "deadlock_policy \<Rightarrow> clock_readings \<Rightarrow> nat \<Rightarrow> deadlock_detection_deadline andromeda_result" where
  "deadline_from_policy policy clock k =
     and_then (policy_validate policy) (\<lambda>_. deadline_new (clock k) (detection_timeout policy))"

definition elapsed_at :: "deadlock_detection_deadline \<Rightarrow> deadlock_clock_instant \<Rightarrow> duration" where
  "elapsed_at deadline now = elapsed_since now (started_at deadline)"

definition is_expired_at :: "deadlock_detection_deadline \<Rightarrow> deadlock_clock_instant \<Rightarrow> bool" where
  "is_expired_at deadline now \<longleftrightarrow> elapsed_at deadline now \<ge> deadline_timeout deadline"

definition is_expired :: "deadlock_detection_deadline \<Rightarrow> clock_readings \<Rightarrow> nat \<Rightarrow> bool" where
  "is_expired deadline clock k \<longleftrightarrow> is_expired_at deadline (clock k)"

text \<open>
  The contract of the \<open>DeadlockClock\<close> trait: an instant is a monotonic duration, so later readings
  are not smaller. A deadline that has expired therefore stays expired.
\<close>

locale deadlock_clock =
  fixes clock :: "nat \<Rightarrow> deadlock_clock_instant"
  assumes monotonic: "i \<le> j \<Longrightarrow> elapsed_since_clock_start (clock i) \<le> elapsed_since_clock_start (clock j)"
begin

lemma elapsed_mono: "i \<le> j \<Longrightarrow> elapsed_at d (clock i) \<le> elapsed_at d (clock j)"
  by (simp add: elapsed_at_def elapsed_since_def diff_le_mono monotonic)

lemma expired_stays: "is_expired d clock i \<Longrightarrow> i \<le> j \<Longrightarrow> is_expired d clock j"
  using elapsed_mono [of i j d] by (auto simp: is_expired_def is_expired_at_def)

end

interpretation manual_clock: deadlock_clock "manual_readings c" for c
  by unfold_locales (simp add: manual_readings_def)

section \<open>Transaction metadata\<close>

record deadlock_transaction_metadata =
  metadata_tx_id :: u64
  start_order :: u64

definition metadata_validate :: "deadlock_transaction_metadata \<Rightarrow> unit andromeda_result" where
  "metadata_validate md =
     and_then (deadlock_validate_transaction_id (metadata_tx_id md))
       (\<lambda>_. validate_start_order (start_order md))"

definition metadata_new :: "u64 \<Rightarrow> u64 \<Rightarrow> deadlock_transaction_metadata andromeda_result" where
  "metadata_new tx order =
     and_then (deadlock_validate_transaction_id tx)
       (\<lambda>_. and_then (validate_start_order order)
         (\<lambda>_. Inr \<lparr>metadata_tx_id = tx, start_order = order\<rparr>))"

record metadata_table =
  metadata_entries :: "(u64 \<times> deadlock_transaction_metadata) list"

definition metadata_table_new :: metadata_table where
  "metadata_table_new = \<lparr>metadata_entries = []\<rparr>"

definition register ::
    "metadata_table \<Rightarrow> deadlock_transaction_metadata \<Rightarrow>
     metadata_table \<times> deadlock_transaction_metadata option andromeda_result" where
  "register t md =
     (case metadata_validate md of
        Inl e \<Rightarrow> (t, Inl e)
      | Inr _ \<Rightarrow>
          (t\<lparr>metadata_entries := btree_insert (metadata_tx_id md) md (metadata_entries t)\<rparr>,
           Inr (map_of (metadata_entries t) (metadata_tx_id md))))"

definition register_start_order ::
    "metadata_table \<Rightarrow> u64 \<Rightarrow> u64 \<Rightarrow>
     metadata_table \<times> deadlock_transaction_metadata option andromeda_result" where
  "register_start_order t tx order =
     (case metadata_new tx order of Inl e \<Rightarrow> (t, Inl e) | Inr md \<Rightarrow> register t md)"

definition metadata_for ::
    "metadata_table \<Rightarrow> u64 \<Rightarrow> deadlock_transaction_metadata option andromeda_result" where
  "metadata_for t tx =
     and_then (deadlock_validate_transaction_id tx) (\<lambda>_. Inr (map_of (metadata_entries t) tx))"

fun has_metadata_for_all :: "metadata_table \<Rightarrow> u64 list \<Rightarrow> bool andromeda_result" where
  "has_metadata_for_all t [] = Inr True"
| "has_metadata_for_all t (tx # txs) =
     and_then (deadlock_validate_transaction_id tx) (\<lambda>_.
       if map_of (metadata_entries t) tx = None then Inr False else has_metadata_for_all t txs)"

lemma has_metadata_for_all_eq:
  "0 \<notin> set txs \<Longrightarrow>
     has_metadata_for_all t txs = Inr (\<forall>tx \<in> set txs. map_of (metadata_entries t) tx \<noteq> None)"
  by (induction txs) auto

end
