(* ===== verification/Deadlock_Cycle.thy ===== *)
theory Deadlock_Cycle
  imports Deadlock_Policy
begin

text \<open>
  The depth-first cycle search (\<open>deadlock_detection/cycle.rs\<close>). Its two mutable maps, the stack and
  the number of clock readings taken so far are a context that is passed through the recursion.
  The recursion is bounded by fuel, \<open>None\<close> standing for fuel that ran out; the number of
  transactions of the graph is enough, since a nested call always marks one more transaction.
\<close>

datatype dfs_visit_state = Visiting | Visited

datatype cycle_search_outcome = NoCycle | CycleFound "u64 list" | TimedOut

record dfs_context =
  dfs_states :: "u64 \<Rightarrow> dfs_visit_state option"
  dfs_stack :: "u64 list"
  dfs_reads :: nat

definition tick :: "dfs_context \<Rightarrow> dfs_context" where
  "tick ctx = ctx\<lparr>dfs_reads := Suc (dfs_reads ctx)\<rparr>"

definition enter_node :: "u64 \<Rightarrow> dfs_context \<Rightarrow> dfs_context" where
  "enter_node tx ctx = ctx\<lparr>dfs_states := (dfs_states ctx)(tx \<mapsto> Visiting), dfs_stack := dfs_stack ctx @ [tx]\<rparr>"

definition leave_node :: "u64 \<Rightarrow> dfs_context \<Rightarrow> dfs_context" where
  "leave_node tx ctx = ctx\<lparr>dfs_states := (dfs_states ctx)(tx \<mapsto> Visited), dfs_stack := butlast (dfs_stack ctx)\<rparr>"

fun dfs_cycle_from_until ::
    "nat \<Rightarrow> u64 \<Rightarrow> wait_for_graph \<Rightarrow> deadlock_detection_deadline \<Rightarrow> clock_readings \<Rightarrow> dfs_context \<Rightarrow>
     (dfs_context \<times> cycle_search_outcome andromeda_result) option"
  and dfs_visit_blockers ::
    "nat \<Rightarrow> u64 list \<Rightarrow> wait_for_graph \<Rightarrow> deadlock_detection_deadline \<Rightarrow> clock_readings \<Rightarrow> dfs_context \<Rightarrow>
     (dfs_context \<times> cycle_search_outcome andromeda_result) option"
where
  "dfs_cycle_from_until 0 tx g deadline clock ctx = None"
| "dfs_cycle_from_until (Suc fuel) tx g deadline clock ctx =
     (if is_expired deadline clock (dfs_reads ctx) then Some (tick ctx, Inr TimedOut)
      else
        let entered = enter_node tx (tick ctx) in
        case blockers_for g tx of
          Inl e \<Rightarrow> Some (entered, Inl e)
        | Inr blockers \<Rightarrow>
            (case dfs_visit_blockers fuel blockers g deadline clock entered of
               Some (ctx', Inr NoCycle) \<Rightarrow> Some (leave_node tx ctx', Inr NoCycle)
             | other \<Rightarrow> other))"
| "dfs_visit_blockers fuel [] g deadline clock ctx = Some (ctx, Inr NoCycle)"
| "dfs_visit_blockers fuel (b # bs) g deadline clock ctx =
     (if is_expired deadline clock (dfs_reads ctx) then Some (tick ctx, Inr TimedOut)
      else
        let ctx = tick ctx in
        case dfs_states ctx b of
          Some Visiting \<Rightarrow>
            (case position (\<lambda>stacked. stacked = b) (dfs_stack ctx) of
               Some cycle_start \<Rightarrow> Some (ctx, Inr (CycleFound (drop cycle_start (dfs_stack ctx))))
             | None \<Rightarrow> dfs_visit_blockers fuel bs g deadline clock ctx)
        | Some Visited \<Rightarrow> dfs_visit_blockers fuel bs g deadline clock ctx
        | None \<Rightarrow>
            (case dfs_cycle_from_until fuel b g deadline clock ctx of
               Some (ctx', Inr NoCycle) \<Rightarrow> dfs_visit_blockers fuel bs g deadline clock ctx'
             | other \<Rightarrow> other))"

fun find_cycle_loop ::
    "nat \<Rightarrow> u64 list \<Rightarrow> wait_for_graph \<Rightarrow> deadlock_detection_deadline \<Rightarrow> clock_readings \<Rightarrow> dfs_context \<Rightarrow>
     (dfs_context \<times> cycle_search_outcome andromeda_result) option" where
  "find_cycle_loop fuel [] g deadline clock ctx = Some (ctx, Inr NoCycle)"
| "find_cycle_loop fuel (tx # txs) g deadline clock ctx =
     (if is_expired deadline clock (dfs_reads ctx) then Some (tick ctx, Inr TimedOut)
      else
        let ctx = tick ctx in
        if dfs_states ctx tx \<noteq> None then find_cycle_loop fuel txs g deadline clock ctx
        else
          (case dfs_cycle_from_until fuel tx g deadline clock ctx of
             Some (ctx', Inr NoCycle) \<Rightarrow> find_cycle_loop fuel txs g deadline clock ctx'
           | other \<Rightarrow> other))"

text \<open>The search starts at clock reading \<open>k\<close> and also returns how many readings were taken.\<close>

definition find_first_cycle_until ::
    "wait_for_graph \<Rightarrow> deadlock_detection_deadline \<Rightarrow> clock_readings \<Rightarrow> nat \<Rightarrow>
     (nat \<times> cycle_search_outcome andromeda_result) option" where
  "find_first_cycle_until g deadline clock k =
     map_option (\<lambda>(ctx, outcome). (dfs_reads ctx, outcome))
       (find_cycle_loop (length (transaction_ids g)) (transaction_ids g) g deadline clock
          \<lparr>dfs_states = Map.empty, dfs_stack = [], dfs_reads = k\<rparr>)"

section \<open>The invariant of the search\<close>

definition visited :: "dfs_context \<Rightarrow> u64 set" where
  "visited ctx = {x. dfs_states ctx x = Some Visited}"

definition unvisited :: "wait_for_graph \<Rightarrow> dfs_context \<Rightarrow> u64 set" where
  "unvisited g ctx = {x \<in> set (transaction_ids g). dfs_states ctx x = None}"

text \<open>
  The stack is a path of the graph and holds exactly the transactions being visited; what has been
  visited is closed under edges and lies on no cycle.
\<close>

definition dfs_inv :: "wait_for_graph \<Rightarrow> dfs_context \<Rightarrow> bool" where
  "dfs_inv g ctx \<longleftrightarrow>
     distinct (dfs_stack ctx) \<and>
     (\<forall>x. dfs_states ctx x = Some Visiting \<longleftrightarrow> x \<in> set (dfs_stack ctx)) \<and>
     successively (\<lambda>x y. y \<in> set (blockers_of g x)) (dfs_stack ctx) \<and>
     (\<forall>x \<in> visited ctx. set (blockers_of g x) \<subseteq> visited ctx) \<and>
     (\<forall>x \<in> visited ctx. (x, x) \<notin> (edge_rel g)\<^sup>+)"

definition entry_point :: "wait_for_graph \<Rightarrow> dfs_context \<Rightarrow> u64 \<Rightarrow> bool" where
  "entry_point g ctx tx \<longleftrightarrow> dfs_stack ctx = [] \<or> tx \<in> set (blockers_of g (last (dfs_stack ctx)))"

text \<open>What the search returns, and what it leaves behind when it goes on.\<close>

definition dfs_post ::
    "wait_for_graph \<Rightarrow> deadlock_detection_deadline \<Rightarrow> clock_readings \<Rightarrow> dfs_context \<Rightarrow> u64 set \<Rightarrow>
     (dfs_context \<times> cycle_search_outcome andromeda_result) option \<Rightarrow> bool" where
  "dfs_post g deadline clock ctx todo res \<longleftrightarrow>
     (\<exists>ctx' out. res = Some (ctx', Inr out) \<and> dfs_reads ctx \<le> dfs_reads ctx' \<and>
        (case out of
           NoCycle \<Rightarrow> dfs_inv g ctx' \<and> dfs_stack ctx' = dfs_stack ctx \<and> visited ctx \<subseteq> visited ctx' \<and>
             todo \<subseteq> visited ctx' \<and> unvisited g ctx' \<subseteq> unvisited g ctx
         | CycleFound c \<Rightarrow> is_cycle g c
         | TimedOut \<Rightarrow> \<exists>k. dfs_reads ctx \<le> k \<and> k < dfs_reads ctx' \<and> is_expired deadline clock k))"

lemma tick_simps [simp]:
  "dfs_states (tick ctx) = dfs_states ctx" "dfs_stack (tick ctx) = dfs_stack ctx"
  "dfs_reads (tick ctx) = Suc (dfs_reads ctx)" "visited (tick ctx) = visited ctx"
  "unvisited g (tick ctx) = unvisited g ctx" "dfs_inv g (tick ctx) = dfs_inv g ctx"
  "entry_point g (tick ctx) = entry_point g ctx"
  by (simp_all add: tick_def visited_def unvisited_def dfs_inv_def entry_point_def fun_eq_iff)

lemma enter_leave_simps [simp]:
  "dfs_stack (enter_node tx ctx) = dfs_stack ctx @ [tx]" "dfs_reads (enter_node tx ctx) = dfs_reads ctx"
  "dfs_stack (leave_node tx ctx) = butlast (dfs_stack ctx)" "dfs_reads (leave_node tx ctx) = dfs_reads ctx"
  by (simp_all add: enter_node_def leave_node_def)

lemma finite_unvisited [simp]: "finite (unvisited g ctx)"
  by (simp add: unvisited_def)

lemma unvisited_enter:
  "unvisited g (enter_node tx ctx) = unvisited g ctx - {tx}"
  by (auto simp: unvisited_def enter_node_def)

lemma visited_enter: "dfs_states ctx tx = None \<Longrightarrow> visited (enter_node tx ctx) = visited ctx"
  by (auto simp: visited_def enter_node_def)

lemma visited_leave: "visited (leave_node tx ctx) = insert tx (visited ctx)"
  by (auto simp: visited_def leave_node_def)

lemma unvisited_leave: "unvisited g (leave_node tx ctx) \<subseteq> unvisited g ctx"
  by (auto simp: unvisited_def leave_node_def)

lemma dfs_inv_enter:
  assumes "dfs_inv g ctx" and "dfs_states ctx tx = None" and "entry_point g ctx tx"
  shows "dfs_inv g (enter_node tx ctx)"
proof -
  have "tx \<notin> set (dfs_stack ctx)"
    using assms(1,2) unfolding dfs_inv_def by (metis option.distinct(1))
  then show ?thesis
    using assms visited_enter [OF assms(2)]
    by (auto simp: dfs_inv_def entry_point_def successively_append_iff)
      (auto simp: enter_node_def split: if_splits)
qed

lemma dfs_inv_leave:
  assumes inv: "dfs_inv g ctx" and stack: "dfs_stack ctx = stk @ [tx]"
    and succs: "set (blockers_of g tx) \<subseteq> visited ctx"
  shows "dfs_inv g (leave_node tx ctx)"
proof -
  have tx: "dfs_states ctx tx = Some Visiting" "tx \<notin> set stk"
    using inv stack by (auto simp: dfs_inv_def)
  then have "tx \<notin> visited ctx" by (simp add: visited_def)
  then have "(tx, tx) \<notin> (edge_rel g)\<^sup>+"
    using wfg.no_cycle_through [of "visited ctx" g tx] inv succs
    by (auto simp: dfs_inv_def wfg_arcs)
  moreover have "dfs_states (leave_node tx ctx) x = Some Visiting \<longleftrightarrow> x \<in> set stk" for x
    using inv stack tx by (auto simp: dfs_inv_def leave_node_def)
  ultimately show ?thesis
    using inv stack succs by (auto simp: dfs_inv_def visited_leave successively_append_iff)
qed

lemma stack_cycle:
  assumes "dfs_inv g ctx" and "dfs_stack ctx \<noteq> []"
    and "b \<in> set (blockers_of g (last (dfs_stack ctx)))"
    and "position (\<lambda>s. s = b) (dfs_stack ctx) = Some i"
  shows "is_cycle g (drop i (dfs_stack ctx))"
proof -
  have i: "i < length (dfs_stack ctx)" "dfs_stack ctx ! i = b"
    using position_SomeD [OF assms(4)] by auto
  have "successively (\<lambda>x y. y \<in> set (blockers_of g x)) (take i (dfs_stack ctx) @ drop i (dfs_stack ctx))"
    using assms(1) by (simp add: dfs_inv_def)
  then have "successively (\<lambda>x y. y \<in> set (blockers_of g x)) (drop i (dfs_stack ctx))"
    unfolding successively_append_iff by blast
  then show ?thesis
    using assms(1,3) i by (simp add: is_cycle_def dfs_inv_def hd_drop_conv_nth)
qed

lemma position_on_stack:
  "dfs_inv g ctx \<Longrightarrow> dfs_states ctx b = Some Visiting \<Longrightarrow> \<exists>i. position (\<lambda>s. s = b) (dfs_stack ctx) = Some i"
  using position_None_iff [of "\<lambda>s. s = b" "dfs_stack ctx"] by (fastforce simp: dfs_inv_def)

text \<open>How results compose when the search goes on after a part that found no cycle.\<close>

lemma dfs_post_NoCycleD:
  assumes "dfs_post g deadline clock ctx todo (Some (ctx', Inr NoCycle))"
  shows "dfs_inv g ctx'" "dfs_stack ctx' = dfs_stack ctx" "visited ctx \<subseteq> visited ctx'"
    "todo \<subseteq> visited ctx'" "unvisited g ctx' \<subseteq> unvisited g ctx" "dfs_reads ctx \<le> dfs_reads ctx'"
  using assms by (auto simp: dfs_post_def)

lemma dfs_post_after:
  assumes "dfs_post g deadline clock ctx' todo' res"
    and "dfs_reads ctx \<le> dfs_reads ctx'" and "dfs_stack ctx' = dfs_stack ctx"
    and "visited ctx \<subseteq> visited ctx'" and "unvisited g ctx' \<subseteq> unvisited g ctx"
    and "todo \<subseteq> visited ctx' \<union> todo'"
  shows "dfs_post g deadline clock ctx todo res"
proof -
  obtain ctx'' out where res: "res = Some (ctx'', Inr out)"
    using assms(1) by (auto simp: dfs_post_def)
  show ?thesis
  proof (cases out)
    case NoCycle
    then show ?thesis
      using dfs_post_NoCycleD [OF assms(1) [unfolded res NoCycle]] assms(2-) res
      by (auto simp: dfs_post_def)
  qed (use assms(1,2) res in \<open>auto simp: dfs_post_def intro: order_trans\<close>)
qed

lemma dfs_post_cases:
  assumes "dfs_post g deadline clock ctx todo res"
  obtains (go_on) ctx' where "res = Some (ctx', Inr NoCycle)"
  | (stop) ctx' out where "res = Some (ctx', Inr out)" "out \<noteq> NoCycle"
      "\<And>todo'. dfs_post g deadline clock ctx todo' res"
proof -
  obtain ctx' out where res: "res = Some (ctx', Inr out)"
    using assms by (auto simp: dfs_post_def)
  show thesis
  proof (cases "out = NoCycle")
    case True
    with res show thesis by (auto intro: go_on)
  next
    case False
    with assms res have "dfs_post g deadline clock ctx todo' res" for todo'
      by (cases out) (auto simp: dfs_post_def)
    with res False show thesis by (auto intro: stop)
  qed
qed

lemma dfs_post_timed_out:
  "is_expired deadline clock (dfs_reads ctx) \<Longrightarrow>
   dfs_post g deadline clock ctx todo (Some (tick ctx, Inr TimedOut))"
  by (auto simp: dfs_post_def)

text \<open>One call on an unmarked transaction, and one step of the loop over the blockers.\<close>

lemma dfs_cycle_from_step:
  assumes alive: "\<not> is_expired deadline clock (dfs_reads ctx)"
    and bl: "blockers_for g tx = Inr (blockers_of g tx)"
    and ent: "dfs_stack ent = dfs_stack ctx @ [tx]" "visited ent = visited ctx"
      "unvisited g ent = unvisited g ctx - {tx}" "dfs_reads ent = Suc (dfs_reads ctx)"
    and ent_def: "ent = enter_node tx (tick ctx)"
    and post: "dfs_post g deadline clock ent (set (blockers_of g tx))
      (dfs_visit_blockers fuel (blockers_of g tx) g deadline clock ent)"
  shows "dfs_post g deadline clock ctx {tx} (dfs_cycle_from_until (Suc fuel) tx g deadline clock ctx)"
  using post
proof (cases rule: dfs_post_cases)
  case (go_on ctx')
  note c = dfs_post_NoCycleD [OF post [unfolded go_on]]
  have "dfs_inv g (leave_node tx ctx')" using dfs_inv_leave c ent by metis
  then show ?thesis
    using alive bl go_on c ent unvisited_leave [of g tx ctx']
    by (auto simp: dfs_post_def visited_leave ent_def [symmetric])
next
  case (stop ctx' out)
  then show ?thesis
    using alive bl ent stop(3) [of "{}"]
    by (auto simp: ent_def [symmetric] dfs_post_def split: cycle_search_outcome.splits)
      (meson Suc_leD)
qed

lemma dfs_visit_unmarked_step:
  assumes alive: "\<not> is_expired deadline clock (dfs_reads ctx)" and new: "dfs_states ctx b = None"
    and post: "dfs_post g deadline clock (tick ctx) {b}
      (dfs_cycle_from_until fuel b g deadline clock (tick ctx))"
    and IH: "\<And>c. dfs_inv g c \<Longrightarrow> dfs_stack c = dfs_stack ctx \<Longrightarrow> unvisited g c \<subseteq> unvisited g ctx \<Longrightarrow>
      dfs_cycle_from_until fuel b g deadline clock (tick ctx) = Some (c, Inr NoCycle) \<Longrightarrow>
      dfs_post g deadline clock c (set bs) (dfs_visit_blockers fuel bs g deadline clock c)"
  shows "dfs_post g deadline clock ctx (set (b # bs)) (dfs_visit_blockers fuel (b # bs) g deadline clock ctx)"
  using post
proof (cases rule: dfs_post_cases)
  case (go_on ctx')
  note c = dfs_post_NoCycleD [OF post [unfolded go_on], simplified]
  have "dfs_post g deadline clock ctx' (set bs) (dfs_visit_blockers fuel bs g deadline clock ctx')"
    by (rule IH) (use go_on c in auto)
  from dfs_post_after [OF this, of ctx] show ?thesis using alive new go_on c by auto
next
  case (stop ctx' out)
  from dfs_post_after [OF stop(3), of ctx] show ?thesis
    using alive new stop by (auto split: cycle_search_outcome.splits)
qed

lemma dfs_search_post:
  "wfg_inv g \<Longrightarrow> dfs_inv g ctx \<Longrightarrow> dfs_states ctx tx = None \<Longrightarrow> tx \<in> set (transaction_ids g) \<Longrightarrow>
   entry_point g ctx tx \<Longrightarrow> card (unvisited g ctx) \<le> fuel \<Longrightarrow>
   dfs_post g deadline clock ctx {tx} (dfs_cycle_from_until fuel tx g deadline clock ctx)"
  "wfg_inv g \<Longrightarrow> dfs_inv g ctx \<Longrightarrow> dfs_stack ctx \<noteq> [] \<Longrightarrow>
   set bs \<subseteq> set (blockers_of g (last (dfs_stack ctx))) \<Longrightarrow> card (unvisited g ctx) \<le> fuel \<Longrightarrow>
   dfs_post g deadline clock ctx (set bs) (dfs_visit_blockers fuel bs g deadline clock ctx)"
proof (induction fuel tx g deadline clock ctx and fuel bs g deadline clock ctx
    rule: dfs_cycle_from_until_dfs_visit_blockers.induct)
  case (1 tx g deadline clock ctx)
  then have "tx \<in> unvisited g ctx" "unvisited g ctx = {}" by (simp_all add: unvisited_def)
  then show ?case by simp
next
  case (2 fuel tx g deadline clock ctx)
  show ?case
  proof (cases "is_expired deadline clock (dfs_reads ctx)")
    case False
    define ent where "ent = enter_node tx (tick ctx)"
    have tx: "tx \<in> unvisited g ctx" using 2 by (simp add: unvisited_def)
    have "tx \<noteq> 0" using 2 transaction_ids_nonzero by blast
    then have bl: "blockers_for g tx = Inr (blockers_of g tx)" by (simp add: blockers_for_def)
    have ent: "dfs_inv g ent" "dfs_stack ent = dfs_stack ctx @ [tx]" "visited ent = visited ctx"
      "unvisited g ent = unvisited g ctx - {tx}" "dfs_reads ent = Suc (dfs_reads ctx)"
      using 2 by (simp_all add: ent_def dfs_inv_enter unvisited_enter visited_enter)
    have post: "dfs_post g deadline clock ent (set (blockers_of g tx))
        (dfs_visit_blockers fuel (blockers_of g tx) g deadline clock ent)"
      by (rule "2.IH") (use 2 False bl ent tx in \<open>simp_all add: ent_def card_Diff_singleton\<close>)
    then show ?thesis by (rule dfs_cycle_from_step [OF False bl ent(2-5) ent_def])
  qed (simp add: dfs_post_timed_out)
next
  case (3 fuel g deadline clock ctx)
  then show ?case by (simp add: dfs_post_def)
next
  case (4 fuel b bs g deadline clock ctx)
  consider "is_expired deadline clock (dfs_reads ctx)"
    | (alive) "\<not> is_expired deadline clock (dfs_reads ctx)" by blast
  then show ?case
  proof cases
    case alive
    consider "dfs_states ctx b = Some Visiting" | "b \<in> visited ctx" | "dfs_states ctx b = None"
      by (cases "dfs_states ctx b"; cases "the (dfs_states ctx b)") (auto simp: visited_def)
    then show ?thesis
    proof cases
      case 1
      then obtain i where "position (\<lambda>s. s = b) (dfs_stack ctx) = Some i"
        using position_on_stack 4 by blast
      then show ?thesis using alive 1 4 stack_cycle [of g ctx b i] by (simp add: dfs_post_def)
    next
      case 2
      have "dfs_post g deadline clock (tick ctx) (set bs)
          (dfs_visit_blockers fuel bs g deadline clock (tick ctx))"
        by (rule "4.IH"(4)) (use 4 alive 2 in \<open>simp_all add: visited_def\<close>)
      from dfs_post_after [OF this, of ctx "set (b # bs)"] show ?thesis
        using alive 2 by (auto simp: visited_def)
    next
      case 3
      show ?thesis
      proof (rule dfs_visit_unmarked_step [OF alive 3])
        show "dfs_post g deadline clock (tick ctx) {b}
            (dfs_cycle_from_until fuel b g deadline clock (tick ctx))"
          by (rule "4.IH"(1)) (use 4 alive 3 in \<open>auto simp: entry_point_def edge_rel_def
              intro: transaction_ids_edge(2) [of "last (dfs_stack ctx)"]\<close>)
      next
        fix c assume "dfs_inv g c" "dfs_stack c = dfs_stack ctx" "unvisited g c \<subseteq> unvisited g ctx"
          "dfs_cycle_from_until fuel b g deadline clock (tick ctx) = Some (c, Inr NoCycle)"
        then show "dfs_post g deadline clock c (set bs) (dfs_visit_blockers fuel bs g deadline clock c)"
          using card_mono [OF finite_unvisited, of "unvisited g c" g ctx] 4 alive 3
          by (intro "4.IH"(2)) auto
      qed
    qed
  qed (simp add: dfs_post_timed_out)
qed

lemma find_cycle_loop_post:
  "wfg_inv g \<Longrightarrow> dfs_inv g ctx \<Longrightarrow> dfs_stack ctx = [] \<Longrightarrow> set txs \<subseteq> set (transaction_ids g) \<Longrightarrow>
   card (unvisited g ctx) \<le> fuel \<Longrightarrow>
   dfs_post g deadline clock ctx (set txs) (find_cycle_loop fuel txs g deadline clock ctx)"
proof (induction txs arbitrary: ctx)
  case (Cons tx txs)
  note after = dfs_post_after [where ctx = ctx and todo = "set (tx # txs)"]
  consider "is_expired deadline clock (dfs_reads ctx)"
    | (old) "\<not> is_expired deadline clock (dfs_reads ctx)" "tx \<in> visited ctx"
    | (new) "\<not> is_expired deadline clock (dfs_reads ctx)" "dfs_states ctx tx = None"
    using Cons.prems(2,3) by (cases "dfs_states ctx tx"; cases "the (dfs_states ctx tx)")
      (auto simp: visited_def dfs_inv_def)
  then show ?case
  proof cases
    case old
    from after [OF Cons.IH [of "tick ctx"]] show ?thesis
      using old Cons.prems by (auto simp: visited_def)
  next
    case new
    have post: "dfs_post g deadline clock (tick ctx) {tx}
        (dfs_cycle_from_until fuel tx g deadline clock (tick ctx))"
      by (rule dfs_search_post) (use Cons.prems new in \<open>auto simp: entry_point_def\<close>)
    then show ?thesis
    proof (cases rule: dfs_post_cases)
      case (go_on ctx')
      note c = dfs_post_NoCycleD [OF post [unfolded go_on], simplified]
      from after [OF Cons.IH [of ctx']] show ?thesis
        using new go_on c Cons.prems card_mono [OF finite_unvisited c(5)] by auto
    next
      case (stop ctx' out)
      from after [OF stop(3)] show ?thesis
        using new stop by (auto split: cycle_search_outcome.splits)
    qed
  qed (simp add: dfs_post_timed_out)
qed (simp add: dfs_post_def)

lemma acyclic_if_visited:
  assumes "dfs_inv g ctx" and "set (transaction_ids g) \<subseteq> visited ctx"
  shows "acyclic (edge_rel g)"
proof (rule acyclicI, intro allI notI)
  fix x assume x: "(x, x) \<in> (edge_rel g)\<^sup>+"
  then obtain y where "(x, y) \<in> edge_rel g" by (meson tranclD)
  then have "x \<in> visited ctx" using assms(2) transaction_ids_edge(1) by blast
  with assms(1) x show False by (auto simp: dfs_inv_def)
qed

text \<open>What the search returns on any well-formed graph: it always returns, and never an error.\<close>

lemma find_first_cycle_result:
  assumes "wfg_inv g"
  obtains k' out where "find_first_cycle_until g deadline clock k = Some (k', Inr out)" "k \<le> k'"
    "out = NoCycle \<Longrightarrow> acyclic (edge_rel g)" "\<And>c. out = CycleFound c \<Longrightarrow> is_cycle g c"
    "out = TimedOut \<Longrightarrow> \<exists>r. k \<le> r \<and> r < k' \<and> is_expired deadline clock r"
proof -
  let ?start = "\<lparr>dfs_states = Map.empty, dfs_stack = [], dfs_reads = k\<rparr>"
  have "dfs_inv g ?start" by (simp add: dfs_inv_def visited_def)
  moreover have "card (unvisited g ?start) \<le> length (transaction_ids g)"
    by (simp add: unvisited_def card_length)
  ultimately have "dfs_post g deadline clock ?start (set (transaction_ids g))
      (find_cycle_loop (length (transaction_ids g)) (transaction_ids g) g deadline clock ?start)"
    using assms by (intro find_cycle_loop_post) simp_all
  then obtain ctx' out where
    res: "find_cycle_loop (length (transaction_ids g)) (transaction_ids g) g deadline clock ?start
        = Some (ctx', Inr out)" and reads: "k \<le> dfs_reads ctx'"
    and out: "case out of
         NoCycle \<Rightarrow> dfs_inv g ctx' \<and> set (transaction_ids g) \<subseteq> visited ctx'
       | CycleFound c \<Rightarrow> is_cycle g c
       | TimedOut \<Rightarrow> \<exists>r. k \<le> r \<and> r < dfs_reads ctx' \<and> is_expired deadline clock r"
    by (fastforce simp: dfs_post_def split: cycle_search_outcome.splits)
  show thesis
    by (rule that [of "dfs_reads ctx'" out])
      (use res reads out acyclic_if_visited in \<open>auto simp: find_first_cycle_until_def\<close>)
qed

lemma is_cycle_not_acyclic: "is_cycle g c \<Longrightarrow> \<not> acyclic (edge_rel g)"
  using is_cycle_trancl by (auto simp: acyclic_def)

end
