(* ===== verification/Deadlock_Detector.thy ===== *)
theory Deadlock_Detector
  imports Deadlock_Cycle
begin

text \<open>
  Victim selection, the detector and the decision interface of the deadlock detector
  (\<open>deadlock_detection/victim.rs\<close>, \<open>detector.rs\<close>, \<open>decision.rs\<close> and \<open>api.rs\<close>). A function that reads
  the clock takes its readings and the number of the next one.
\<close>

section \<open>Victims\<close>

record deadlock_victim =
  victim_tx_id :: u64
  victim_chosen_by :: deadlock_victim_policy
  victim_cycle_participants :: "u64 list"

definition MISSING_TRANSACTION_ORDERING_METADATA_REASON :: string where
  "MISSING_TRANSACTION_ORDERING_METADATA_REASON =
     ''deadlock transaction ordering metadata missing for cycle participant''"

definition DEADLOCK_DETECTION_TIMEOUT_REASON :: string where
  "DEADLOCK_DETECTION_TIMEOUT_REASON = ''deadlock detection deadline expired''"

definition sorted_unique :: "u64 list \<Rightarrow> u64 list" where
  "sorted_unique tx_ids = remdups_adj (sort tx_ids)"

text \<open>Rust compares the pairs lexicographically.\<close>

definition candidate_greater :: "u64 \<times> u64 \<Rightarrow> u64 \<times> u64 \<Rightarrow> bool" where
  "candidate_greater candidate current \<longleftrightarrow>
     fst candidate > fst current \<or> fst candidate = fst current \<and> snd candidate > snd current"

fun select_youngest_loop ::
    "metadata_table \<Rightarrow> u64 list \<Rightarrow> (u64 \<times> u64) option \<Rightarrow> (u64 \<times> u64) option andromeda_result" where
  "select_youngest_loop t [] selected = Inr selected"
| "select_youngest_loop t (tx # txs) selected =
     and_then (metadata_for t tx) (\<lambda>found.
       case found of
         None \<Rightarrow> Inl (deadlock_error MISSING_TRANSACTION_ORDERING_METADATA_REASON)
       | Some md \<Rightarrow>
           (let candidate = (start_order md, tx) in
            if (case selected of Some current \<Rightarrow> candidate_greater candidate current | None \<Rightarrow> True)
            then select_youngest_loop t txs (Some candidate)
            else select_youngest_loop t txs selected))"

definition select_youngest_by_start_order :: "u64 list \<Rightarrow> metadata_table \<Rightarrow> u64 andromeda_result" where
  "select_youngest_by_start_order participants t =
     and_then (select_youngest_loop t participants None) (\<lambda>selected.
       case selected of
         None \<Rightarrow> Inl (deadlock_error ''deadlock cycle must not be empty'')
       | Some (order, tx) \<Rightarrow> Inr tx)"

definition last_participant :: "u64 list \<Rightarrow> u64 andromeda_result" where
  "last_participant txs =
     (if txs = [] then Inl (deadlock_error ''deadlock cycle must not be empty'') else Inr (last txs))"

definition first_participant :: "u64 list \<Rightarrow> u64 andromeda_result" where
  "first_participant txs =
     (if txs = [] then Inl (deadlock_error ''deadlock cycle must not be empty'') else Inr (hd txs))"

definition victim_from_cycle :: "u64 list \<Rightarrow> deadlock_victim_policy \<Rightarrow> deadlock_victim andromeda_result" where
  "victim_from_cycle participants policy =
     and_then (validate_cycle_participants participants) (\<lambda>_.
       let sorted_participants = sorted_unique participants in
       and_then
         (case policy of
            YoungestTransactionStartOrder \<Rightarrow>
              Inl (deadlock_error ''deadlock youngest transaction policy requires ordering metadata'')
          | YoungestTransactionId \<Rightarrow> last_participant sorted_participants
          | OldestTransactionId \<Rightarrow> first_participant sorted_participants)
         (\<lambda>tx. Inr \<lparr>victim_tx_id = tx, victim_chosen_by = policy,
                   victim_cycle_participants = sorted_participants\<rparr>))"

definition victim_from_cycle_with_transaction_metadata ::
    "u64 list \<Rightarrow> deadlock_victim_policy \<Rightarrow> metadata_table \<Rightarrow> deadlock_victim andromeda_result" where
  "victim_from_cycle_with_transaction_metadata participants policy t =
     and_then (validate_cycle_participants participants) (\<lambda>_.
       let sorted_participants = sorted_unique participants in
       and_then
         (case policy of
            YoungestTransactionStartOrder \<Rightarrow> select_youngest_by_start_order sorted_participants t
          | YoungestTransactionId \<Rightarrow> last_participant sorted_participants
          | OldestTransactionId \<Rightarrow> first_participant sorted_participants)
         (\<lambda>tx. Inr \<lparr>victim_tx_id = tx, victim_chosen_by = policy,
                   victim_cycle_participants = sorted_participants\<rparr>))"

section \<open>The detector\<close>

datatype deadlock_detection_status =
  StatusNoCycle
| StatusCycleFound deadlock_victim "u64 list"
| StatusTimedOut string duration duration
| StatusDeferred string

record deadlock_detector =
  detector_policy :: deadlock_policy

definition deadlock_detector_new :: "deadlock_policy \<Rightarrow> deadlock_detector andromeda_result" where
  "deadlock_detector_new policy =
     and_then (policy_validate policy) (\<lambda>_. Inr \<lparr>detector_policy = policy\<rparr>)"

definition timeout_status ::
    "deadlock_detection_deadline \<Rightarrow> deadlock_clock_instant \<Rightarrow> deadlock_detection_status" where
  "timeout_status deadline now =
     StatusTimedOut DEADLOCK_DETECTION_TIMEOUT_REASON (elapsed_at deadline now) (deadline_timeout deadline)"

definition timeout_status_if_expired ::
    "deadlock_detection_deadline \<Rightarrow> clock_readings \<Rightarrow> nat \<Rightarrow> deadlock_detection_status option" where
  "timeout_status_if_expired deadline clock k =
     (let now = clock k in
      if is_expired_at deadline now then Some (timeout_status deadline now) else None)"

definition status_of_cycle ::
    "deadlock_policy \<Rightarrow> metadata_table \<Rightarrow> u64 list \<Rightarrow> deadlock_detection_status andromeda_result" where
  "status_of_cycle policy t participants =
     and_then
       (if victim_policy policy = YoungestTransactionStartOrder
        then and_then (has_metadata_for_all t participants) (\<lambda>complete. Inr (\<not> complete))
        else Inr False)
       (\<lambda>deferred.
          if deferred then Inr (StatusDeferred MISSING_TRANSACTION_ORDERING_METADATA_REASON)
          else
            and_then (victim_from_cycle_with_transaction_metadata participants (victim_policy policy) t)
              (\<lambda>victim. Inr (StatusCycleFound victim (victim_cycle_participants victim))))"

definition detect_with_transaction_metadata_and_deadline ::
    "deadlock_detector \<Rightarrow> wait_for_graph \<Rightarrow> metadata_table \<Rightarrow> deadlock_detection_deadline \<Rightarrow>
     clock_readings \<Rightarrow> nat \<Rightarrow> deadlock_detection_status andromeda_result option" where
  "detect_with_transaction_metadata_and_deadline d g t deadline clock k =
     (case and_then (policy_validate (detector_policy d)) (\<lambda>_.
           and_then (validate_deadlock_timeout (deadline_timeout deadline)) (\<lambda>_.
             if deadline_timeout deadline > detection_timeout (detector_policy d)
             then Inl (deadlock_error ''deadlock detection deadline exceeds policy timeout'')
             else Inr ())) of
        Inl e \<Rightarrow> Some (Inl e)
      | Inr _ \<Rightarrow>
          (case timeout_status_if_expired deadline clock k of
             Some status \<Rightarrow> Some (Inr status)
           | None \<Rightarrow>
               (case graph_validate g of
                  Inl e \<Rightarrow> Some (Inl e)
                | Inr _ \<Rightarrow>
                    if graph_is_empty g then Some (Inr StatusNoCycle)
                    else
                      (case find_first_cycle_until g deadline clock (Suc k) of
                         None \<Rightarrow> None
                       | Some (_, Inl e) \<Rightarrow> Some (Inl e)
                       | Some (_, Inr (CycleFound participants)) \<Rightarrow>
                           Some (status_of_cycle (detector_policy d) t participants)
                       | Some (_, Inr NoCycle) \<Rightarrow> Some (Inr StatusNoCycle)
                       | Some (k', Inr TimedOut) \<Rightarrow> Some (Inr (timeout_status deadline (clock k')))))))"

definition detect_with_transaction_metadata ::
    "deadlock_detector \<Rightarrow> wait_for_graph \<Rightarrow> metadata_table \<Rightarrow> deadlock_detection_status andromeda_result option" where
  "detect_with_transaction_metadata d g t =
     (let clock = manual_readings manual_clock_new in
      case deadline_from_policy (detector_policy d) clock 0 of
        Inl e \<Rightarrow> Some (Inl e)
      | Inr deadline \<Rightarrow> detect_with_transaction_metadata_and_deadline d g t deadline clock 1)"

section \<open>Decisions for a transaction coordinator\<close>

record deadlock_decision_evidence =
  lock_snapshot_resource_count :: usize
  wait_for_edges :: "(u64 \<times> u64) list"

definition decision_evidence_new :: "usize \<Rightarrow> wait_for_graph \<Rightarrow> deadlock_decision_evidence" where
  "decision_evidence_new n g = \<lparr>lock_snapshot_resource_count = n, wait_for_edges = graph_edges g\<rparr>"

datatype deadlock_decision =
  DecisionNoCycle deadlock_decision_evidence
| DecisionVictimSuggested deadlock_victim "u64 list" deadlock_decision_evidence
| DecisionDeferred string deadlock_decision_evidence
| DecisionTimedOut string duration duration deadlock_decision_evidence

datatype decision_trace_outcome = TraceNoCycle | TraceVictimSuggested | TraceDeferred | TraceTimedOut

record deadlock_decision_trace =
  trace_tx_id :: "u64 option"
  trace_wait_for_edges :: "(u64 \<times> u64) list"
  trace_cycle_participants :: "u64 list"
  trace_outcome :: decision_trace_outcome
  trace_reason :: string
  trace_resource_count :: usize

fun decision_to_trace :: "deadlock_decision \<Rightarrow> deadlock_decision_trace" where
  "decision_to_trace (DecisionNoCycle ev) =
     \<lparr>trace_tx_id = None, trace_wait_for_edges = wait_for_edges ev, trace_cycle_participants = [],
      trace_outcome = TraceNoCycle, trace_reason = ''deadlock_detection_found_no_cycle'',
      trace_resource_count = lock_snapshot_resource_count ev\<rparr>"
| "decision_to_trace (DecisionVictimSuggested victim participants ev) =
     \<lparr>trace_tx_id = Some (victim_tx_id victim), trace_wait_for_edges = wait_for_edges ev,
      trace_cycle_participants = participants, trace_outcome = TraceVictimSuggested,
      trace_reason = ''deadlock_detection_suggested_victim'',
      trace_resource_count = lock_snapshot_resource_count ev\<rparr>"
| "decision_to_trace (DecisionDeferred reason ev) =
     \<lparr>trace_tx_id = None, trace_wait_for_edges = wait_for_edges ev, trace_cycle_participants = [],
      trace_outcome = TraceDeferred, trace_reason = reason,
      trace_resource_count = lock_snapshot_resource_count ev\<rparr>"
| "decision_to_trace (DecisionTimedOut reason elapsed timeout ev) =
     \<lparr>trace_tx_id = None, trace_wait_for_edges = wait_for_edges ev, trace_cycle_participants = [],
      trace_outcome = TraceTimedOut, trace_reason = reason,
      trace_resource_count = lock_snapshot_resource_count ev\<rparr>"

fun decision_from_detection_status ::
    "deadlock_detection_status \<Rightarrow> deadlock_decision_evidence \<Rightarrow> deadlock_decision" where
  "decision_from_detection_status StatusNoCycle ev = DecisionNoCycle ev"
| "decision_from_detection_status (StatusCycleFound victim participants) ev =
     DecisionVictimSuggested victim participants ev"
| "decision_from_detection_status (StatusTimedOut reason elapsed timeout) ev =
     DecisionTimedOut reason elapsed timeout ev"
| "decision_from_detection_status (StatusDeferred reason) ev = DecisionDeferred reason ev"

record deadlock_decision_options =
  options_metadata :: "metadata_table option"
  options_deadline :: "deadlock_detection_deadline option"
  options_clock :: clock_readings

type_synonym lock_snapshot = "(lock_resource \<times> lock_entry) list"

definition decide_deadlock_from_lock_table_snapshot_with_deadline ::
    "lock_snapshot \<Rightarrow> deadlock_policy \<Rightarrow> metadata_table option \<Rightarrow> deadlock_detection_deadline \<Rightarrow>
     clock_readings \<Rightarrow> nat \<Rightarrow> deadlock_decision andromeda_result option" where
  "decide_deadlock_from_lock_table_snapshot_with_deadline snap policy md deadline clock k =
     (case from_lock_table_snapshot snap of
        Inl e \<Rightarrow> Some (Inl e)
      | Inr g \<Rightarrow>
          (let evidence = decision_evidence_new (length snap) g in
           case deadlock_detector_new policy of
             Inl e \<Rightarrow> Some (Inl e)
           | Inr d \<Rightarrow>
               (let t = (case md of Some t \<Rightarrow> t | None \<Rightarrow> metadata_table_new) in
                map_option
                  (\<lambda>res. and_then res (\<lambda>status. Inr (decision_from_detection_status status evidence)))
                  (detect_with_transaction_metadata_and_deadline d g t deadline clock k))))"

definition decide_deadlock_from_lock_table_snapshot ::
    "lock_snapshot \<Rightarrow> deadlock_policy \<Rightarrow> metadata_table option \<Rightarrow> deadlock_decision andromeda_result option" where
  "decide_deadlock_from_lock_table_snapshot snap policy md =
     (let clock = manual_readings manual_clock_new in
      case deadline_from_policy policy clock 0 of
        Inl e \<Rightarrow> Some (Inl e)
      | Inr deadline \<Rightarrow>
          decide_deadlock_from_lock_table_snapshot_with_deadline snap policy md deadline clock 1)"

definition decide_deadlock_from_lock_table_snapshot_with_options ::
    "lock_snapshot \<Rightarrow> deadlock_policy \<Rightarrow> deadlock_decision_options \<Rightarrow>
     deadlock_decision andromeda_result option" where
  "decide_deadlock_from_lock_table_snapshot_with_options snap policy opts =
     (case (case options_deadline opts of
              Some deadline \<Rightarrow> Inr (deadline, 0)
            | None \<Rightarrow>
                and_then (deadline_from_policy policy (options_clock opts) 0)
                  (\<lambda>deadline. Inr (deadline, 1))) of
        Inl e \<Rightarrow> Some (Inl e)
      | Inr (deadline, k) \<Rightarrow>
          decide_deadlock_from_lock_table_snapshot_with_deadline snap policy (options_metadata opts)
            deadline (options_clock opts) k)"

definition decide_deadlock_from_lock_manager ::
    "lock_manager \<Rightarrow> deadlock_policy \<Rightarrow> metadata_table option \<Rightarrow> deadlock_decision andromeda_result option" where
  "decide_deadlock_from_lock_manager m policy md =
     (case snapshot m of
        Inl e \<Rightarrow> Some (Inl e)
      | Inr snap \<Rightarrow> decide_deadlock_from_lock_table_snapshot snap policy md)"

definition decide_deadlock_from_lock_manager_with_options ::
    "lock_manager \<Rightarrow> deadlock_policy \<Rightarrow> deadlock_decision_options \<Rightarrow>
     deadlock_decision andromeda_result option" where
  "decide_deadlock_from_lock_manager_with_options m policy opts =
     (case snapshot m of
        Inl e \<Rightarrow> Some (Inl e)
      | Inr snap \<Rightarrow> decide_deadlock_from_lock_table_snapshot_with_options snap policy opts)"

definition decide_deadlock_from_lock_manager_with_deadline ::
    "lock_manager \<Rightarrow> deadlock_policy \<Rightarrow> metadata_table option \<Rightarrow> deadlock_detection_deadline \<Rightarrow>
     clock_readings \<Rightarrow> nat \<Rightarrow> deadlock_decision andromeda_result option" where
  "decide_deadlock_from_lock_manager_with_deadline m policy md deadline clock k =
     (case snapshot m of
        Inl e \<Rightarrow> Some (Inl e)
      | Inr snap \<Rightarrow>
          decide_deadlock_from_lock_table_snapshot_with_deadline snap policy md deadline clock k)"

section \<open>Victim selection is optimal for its policy\<close>

definition victim_optimal :: "deadlock_victim_policy \<Rightarrow> metadata_table \<Rightarrow> u64 list \<Rightarrow> u64 \<Rightarrow> bool" where
  "victim_optimal policy t participants v \<longleftrightarrow> v \<in> set participants \<and>
     (\<forall>p \<in> set participants.
        case policy of
          YoungestTransactionStartOrder \<Rightarrow>
            \<not> candidate_greater (start_order (the (map_of (metadata_entries t) p)), p)
                (start_order (the (map_of (metadata_entries t) v)), v)
        | YoungestTransactionId \<Rightarrow> p \<le> v
        | OldestTransactionId \<Rightarrow> v \<le> p)"

lemma candidate_order:
  "\<not> candidate_greater a a"
  "candidate_greater a b \<Longrightarrow> \<not> candidate_greater b a"
  "\<not> candidate_greater a b \<Longrightarrow> \<not> candidate_greater b c \<Longrightarrow> \<not> candidate_greater a c"
  by (auto simp: candidate_greater_def)

lemma sorted_wrt_remdups_adj:
  "sorted xs \<Longrightarrow> sorted_wrt (<) (remdups_adj xs)" for xs :: "u64 list"
  by (induction xs rule: remdups_adj.induct) (auto simp: order.order_iff_strict)

lemma sorted_unique [simp]:
  "set (sorted_unique xs) = set xs" "sorted_wrt (<) (sorted_unique xs)"
  "sorted_unique xs = [] \<longleftrightarrow> xs = []"
  by (simp_all add: sorted_unique_def sorted_wrt_remdups_adj)
    (metis list.set(1) set_empty set_sort)

definition ordering_key :: "metadata_table \<Rightarrow> u64 \<Rightarrow> u64 \<times> u64" where
  "ordering_key t tx = (start_order (the (map_of (metadata_entries t) tx)), tx)"

lemma select_youngest_loop_ok:
  "0 \<notin> set txs \<Longrightarrow> \<forall>tx \<in> set txs. map_of (metadata_entries t) tx \<noteq> None \<Longrightarrow>
   \<exists>v. select_youngest_loop t txs (Some s) = Inr (Some v) \<and>
     v \<in> insert s (ordering_key t ` set txs) \<and> (\<forall>w \<in> insert s (ordering_key t ` set txs). \<not> candidate_greater w v)"
proof (induction txs arbitrary: s)
  case Nil
  then show ?case by (simp add: candidate_order(1))
next
  case (Cons tx txs)
  let ?s = "if candidate_greater (ordering_key t tx) s then ordering_key t tx else s"
  have "select_youngest_loop t (tx # txs) (Some s) = select_youngest_loop t txs (Some ?s)"
    using Cons.prems by (auto simp: metadata_for_def ordering_key_def)
  moreover obtain v where v: "select_youngest_loop t txs (Some ?s) = Inr (Some v)"
    "v \<in> insert ?s (ordering_key t ` set txs)" "\<not> candidate_greater ?s v"
    "\<forall>w \<in> ordering_key t ` set txs. \<not> candidate_greater w v"
    using Cons.IH [of ?s] Cons.prems by auto
  moreover have "\<not> candidate_greater s ?s" "\<not> candidate_greater (ordering_key t tx) ?s"
    by (simp_all add: candidate_order(1,2))
  then have "\<not> candidate_greater s v" "\<not> candidate_greater (ordering_key t tx) v"
    using v(3) candidate_order(3) by blast+
  ultimately show ?case by (auto split: if_splits)
qed

lemma select_youngest_ok:
  assumes "0 \<notin> set txs" and "txs \<noteq> []" and "\<forall>tx \<in> set txs. map_of (metadata_entries t) tx \<noteq> None"
  obtains v where "select_youngest_by_start_order txs t = Inr v"
    "victim_optimal YoungestTransactionStartOrder t txs v"
proof -
  obtain x xs where txs: "txs = x # xs" using assms(2) by (cases txs) auto
  then have "select_youngest_loop t txs None = select_youngest_loop t xs (Some (ordering_key t x))"
    using assms by (auto simp: metadata_for_def ordering_key_def)
  with select_youngest_loop_ok [of xs t "ordering_key t x"] assms txs
  obtain v where v: "select_youngest_loop t txs None = Inr (Some (ordering_key t v))" "v \<in> set txs"
    "\<forall>w \<in> set txs. \<not> candidate_greater (ordering_key t w) (ordering_key t v)"
    by auto
  show thesis
    by (rule that [of v])
      (use v in \<open>auto simp: select_youngest_by_start_order_def victim_optimal_def ordering_key_def\<close>)
qed

lemma sorted_last_first:
  assumes "sorted_wrt (<) txs" and "txs \<noteq> []"
  shows "victim_optimal YoungestTransactionId t txs (last txs)"
    and "victim_optimal OldestTransactionId t txs (hd txs)"
proof -
  from assms show "victim_optimal YoungestTransactionId t txs (last txs)"
    by (cases txs rule: rev_cases) (auto simp: victim_optimal_def sorted_wrt_append less_imp_le)
  from assms show "victim_optimal OldestTransactionId t txs (hd txs)"
    by (cases txs) (auto simp: victim_optimal_def less_imp_le)
qed

lemma victim_from_cycle_ok:
  assumes "0 \<notin> set c" and "length c \<ge> 2"
    and "policy = YoungestTransactionStartOrder \<Longrightarrow> \<forall>tx \<in> set c. map_of (metadata_entries t) tx \<noteq> None"
  obtains v where "victim_from_cycle_with_transaction_metadata c policy t = Inr v"
    "victim_cycle_participants v = sorted_unique c" "victim_chosen_by v = policy"
    "victim_optimal policy t c (victim_tx_id v)"
proof -
  have c: "validate_cycle_participants c = Inr ()" "sorted_unique c \<noteq> []"
    using assms(1,2) by (auto simp: validate_cycle_participants_def)
  have "\<exists>v. (case policy of
            YoungestTransactionStartOrder \<Rightarrow> select_youngest_by_start_order (sorted_unique c) t
          | YoungestTransactionId \<Rightarrow> last_participant (sorted_unique c)
          | OldestTransactionId \<Rightarrow> first_participant (sorted_unique c)) = Inr v \<and>
        victim_optimal policy t (sorted_unique c) v"
    using c(2) assms sorted_last_first [of "sorted_unique c" t]
    by (cases policy) (auto simp: last_participant_def first_participant_def
        intro: select_youngest_ok [of "sorted_unique c" t])
  then obtain v where "victim_from_cycle_with_transaction_metadata c policy t =
      Inr \<lparr>victim_tx_id = v, victim_chosen_by = policy, victim_cycle_participants = sorted_unique c\<rparr>"
      "victim_optimal policy t (sorted_unique c) v"
    using c(1) by (auto simp: victim_from_cycle_with_transaction_metadata_def)
  then show thesis
    by (intro that) (auto simp: victim_optimal_def cong: deadlock_victim_policy.case_cong)
qed

end
