(* ===== verification/Lock_Manager_Props.thy ===== *)
theory Lock_Manager_Props
  imports Lock_Manager_Inv
begin

text \<open>
  The properties of the lock manager, over the states its operations reach: holders of different
  transactions never conflict, no wake-up is lost, what each acquisition returns and changes,
  FIFO promotion, and the effect of the terminal \<open>release_all\<close>.
\<close>

section \<open>Concrete lock tables\<close>

definition demo_table :: lock_resource where
  "demo_table = TableResource 1 10"

definition demo_readers :: lock_manager where
  "demo_readers = fst (acquire (fst (acquire lock_manager_new 1 demo_table Shared)) 2 demo_table IntentShared)"

definition demo_writer_waits :: lock_manager where
  "demo_writer_waits = fst (acquire demo_readers 3 demo_table Exclusive)"

lemma lock_reachable_acquire: "lock_reachable m \<Longrightarrow> lock_reachable (fst (acquire m tx r mode))"
  by (erule rtranclp.rtrancl_into_rtrancl) (rule step_acquire)

lemma lock_reachable_release: "lock_reachable m \<Longrightarrow> lock_reachable (fst (release m tx r))"
  by (erule rtranclp.rtrancl_into_rtrancl) (rule step_release)

lemma demo_reachable: "lock_reachable demo_readers" "lock_reachable demo_writer_waits"
  by (simp_all add: demo_readers_def demo_writer_waits_def lock_reachable_acquire
      del: wrapper_states)


lemma demo_writer_waits_entries:
  "map_of (entries demo_writer_waits) demo_table =
     Some \<lparr>holders = [\<lparr>holder_tx_id = 1, holder_mode = Shared\<rparr>, \<lparr>holder_tx_id = 2, holder_mode = IntentShared\<rparr>],
           waiters = [\<lparr>waiter_tx_id = 3, waiter_mode = Exclusive, waiter_sequence = 1\<rparr>]\<rparr>"
  by (simp add: demo_writer_waits_def demo_readers_def demo_table_def lock_manager_eval)

section \<open>Safety\<close>



section \<open>No lost wake-up\<close>



section \<open>What an acquisition returns\<close>

text \<open>The relation between a status and the entry before and after the acquisition.\<close>

fun status_holds :: "u64 \<Rightarrow> lock_mode \<Rightarrow> lock_entry \<Rightarrow> lock_entry \<Rightarrow> lock_acquire_status \<Rightarrow> bool" where
  "status_holds tx mode e e' Granted =
     ((tx, mode) \<in> holder_claims e' \<and> tx \<notin> fst ` holder_claims e \<and> waiters e' = waiters e \<and>
      (\<forall>w \<in> set (waiters e). is_compatible_with (waiter_mode w) mode))"
| "status_holds tx mode e e' (AlreadyHeld held) =
     (e' = e \<and> (tx, held) \<in> holder_claims e \<and> (held = mode \<or> held_mode_covers_requested held mode))"
| "status_holds tx mode e e' (Upgraded old new) =
     (new = mode \<and> is_v0_upgrade old mode \<and> (tx, old) \<in> holder_claims e \<and>
      (tx, mode) \<in> holder_claims e' \<and> waiters e' = waiters e \<and>
      (\<forall>w \<in> set (waiters e). is_compatible_with (waiter_mode w) mode))"
| "status_holds tx mode e e' (Waiting sequence blockers) =
     (\<lparr>waiter_tx_id = tx, waiter_mode = mode, waiter_sequence = sequence\<rparr> \<in> set (waiters e') \<and>
      holders e' = holders e \<and> tx \<notin> fst ` holder_claims e \<and>
      set blockers = {h \<in> set (holders e). \<not> is_compatible_with (holder_mode h) mode})"
| "status_holds tx mode e e' (WaitingUpgrade sequence held requested blockers) =
     (\<lparr>waiter_tx_id = tx, waiter_mode = mode, waiter_sequence = sequence\<rparr> \<in> set (waiters e') \<and>
      holders e' = holders e \<and> requested = mode \<and> (tx, held) \<in> holder_claims e \<and>
      is_v0_upgrade held mode \<and>
      set blockers = {h \<in> set (holders e). holder_tx_id h \<noteq> tx \<and> \<not> is_compatible_with (holder_mode h) mode})"

lemma find_waiter_in_queue:
  "List.find (\<lambda>w. waiter_tx_id w = tx \<and> waiter_mode w = mode) ws = Some w \<Longrightarrow>
     \<lparr>waiter_tx_id = tx, waiter_mode = mode, waiter_sequence = waiter_sequence w\<rparr> \<in> set ws"
proof -
  assume "List.find (\<lambda>w. waiter_tx_id w = tx \<and> waiter_mode w = mode) ws = Some w"
  then have w: "w \<in> set ws" "waiter_tx_id w = tx" "waiter_mode w = mode"
    by (auto simp: find_Some_iff)
  then have "w = \<lparr>waiter_tx_id = tx, waiter_mode = mode, waiter_sequence = waiter_sequence w\<rparr>"
    by (auto intro: lock_waiter.equality)
  with w(1) show ?thesis by simp
qed

lemma push_waiter_status:
  assumes "push_waiter tx mode status e seq = (e', seq', Inr st)" and "tx \<noteq> 0"
  shows "\<exists>s. st = status s \<and> e' = e\<lparr>waiters := waiters e @
     [\<lparr>waiter_tx_id = tx, waiter_mode = mode, waiter_sequence = s\<rparr>]\<rparr>"
  using assms by (cases rule: push_waiter_cases) auto

lemma holder_claim_nth:
  "i < length (holders e) \<Longrightarrow> holder_tx_id (holders e ! i) = tx \<Longrightarrow>
     (tx, holder_mode (holders e ! i)) \<in> holder_claims e"
  unfolding holder_claims_def by (rule image_eqI [of _ _ "holders e ! i"]) simp_all

lemma upgraded_claim:
  "i < length (holders e) \<Longrightarrow> holder_tx_id (holders e ! i) = tx \<Longrightarrow>
     (tx, mode) \<in> holder_claims (e\<lparr>holders := (holders e)[i := (holders e ! i)\<lparr>holder_mode := mode\<rparr>]\<rparr>)"
  unfolding holder_claims_def
  by (rule image_eqI [of _ _ "(holders e ! i)\<lparr>holder_mode := mode\<rparr>"]) (simp_all add: set_update_memI)

lemma acquire_held_status:
  assumes acq: "acquire_held tx mode i e seq = (e', seq', Inr status)" and "tx \<noteq> 0"
    and pos: "position (\<lambda>h. holder_tx_id h = tx) (holders e) = Some i"
  shows "status_holds tx mode e e' status"
proof -
  let ?held = "holder_mode (holders e ! i)"
  let ?blockers = "filter (\<lambda>h. holder_tx_id h \<noteq> tx \<and> \<not> is_compatible_with (holder_mode h) mode) (holders e)"
  let ?free = "?blockers = [] \<and> \<not> list_ex (\<lambda>w. \<not> is_compatible_with (waiter_mode w) mode) (waiters e)"
  have i: "i < length (holders e)" "holder_tx_id (holders e ! i) = tx"
    using position_SomeD [OF pos] by auto
  note claim = holder_claim_nth [OF i] upgraded_claim [OF i]
  note eq = acq [unfolded acquire_held_def Let_def]
  show ?thesis
  proof (cases "?held = mode \<or> held_mode_covers_requested ?held mode")
    case True
    with eq claim show ?thesis by auto
  next
    case False
    with eq have up: "is_v0_upgrade ?held mode" by (auto split: if_splits)
    show ?thesis
    proof (cases ?free)
      case True
      then have "status = Upgraded ?held mode"
        "e' = e\<lparr>holders := (holders e)[i := (holders e ! i)\<lparr>holder_mode := mode\<rparr>]\<rparr>"
        using eq False up by simp_all
      with True up claim show ?thesis by (simp add: list_ex_iff)
    next
      case waits: False
      show ?thesis
      proof (cases "List.find (\<lambda>w. waiter_tx_id w = tx \<and> waiter_mode w = mode) (waiters e)")
        case (Some w)
        have "e' = e" "status = WaitingUpgrade (waiter_sequence w) ?held mode ?blockers"
          using eq False up waits Some by (auto split: if_splits)
        then show ?thesis using up claim find_waiter_in_queue [OF Some] by auto
      next
        case None
        have "push_waiter tx mode (\<lambda>s. WaitingUpgrade s ?held mode ?blockers) e seq = (e', seq', Inr status)"
          using eq False up waits None by (simp only: if_False option.case) simp
        then show ?thesis using up claim \<open>tx \<noteq> 0\<close> by (auto dest!: push_waiter_status)
      qed
    qed
  qed
qed

lemma acquire_fresh_status:
  assumes acq: "acquire_fresh tx mode e seq = (e', seq', Inr status)" and "tx \<noteq> 0"
    and pos: "position (\<lambda>h. holder_tx_id h = tx) (holders e) = None"
  shows "status_holds tx mode e e' status"
proof -
  let ?blockers = "filter (\<lambda>h. \<not> is_compatible_with (holder_mode h) mode) (holders e)"
  let ?free = "?blockers = [] \<and> \<not> list_ex (\<lambda>w. \<not> is_compatible_with (waiter_mode w) mode) (waiters e)"
  have tx: "tx \<notin> fst ` holder_claims e"
    using pos by (auto simp: position_None_iff holder_claims_def)
  note eq = acq [unfolded acquire_fresh_def Let_def]
  show ?thesis
  proof (cases "List.find (\<lambda>w. waiter_tx_id w = tx \<and> waiter_mode w = mode) (waiters e)")
    case (Some w)
    with eq tx find_waiter_in_queue [OF Some] show ?thesis by auto
  next
    case None
    show ?thesis
    proof (cases ?free)
      case True
      then have "status = Granted"
        "e' = e\<lparr>holders := holders e @ [\<lparr>holder_tx_id = tx, holder_mode = mode\<rparr>]\<rparr>"
        using eq None by simp_all
      with True tx show ?thesis by (simp add: list_ex_iff holder_claims_snoc)
    next
      case False
      have "push_waiter tx mode (\<lambda>s. Waiting s ?blockers) e seq = (e', seq', Inr status)"
        using eq None False by (simp only: if_False option.case)
      then show ?thesis using tx \<open>tx \<noteq> 0\<close> by (auto dest!: push_waiter_status)
    qed
  qed
qed

lemma acquire_entry_status:
  "acquire_entry tx mode e seq = (e', seq', Inr status) \<Longrightarrow> tx \<noteq> 0 \<Longrightarrow> status_holds tx mode e e' status"
  by (auto simp: acquire_entry_def acquire_held_status acquire_fresh_status split: option.splits)

lemma acquire_Inr:
  assumes "acquire m tx r mode = (m', Inr status)"
  obtains seq' e' where "tx \<noteq> 0" "validate_lock_resource r = Inr ()" "\<not> poisoned m"
    "acquire_entry tx mode (entry_or_new m r) (next_sequence m) = (e', seq', Inr status)"
    "m' = m\<lparr>entries := AList.update r e' (entries m), next_sequence := seq'\<rparr>"
  using assms
  by (auto simp: acquire_def and_then_eq_Inr_iff lock_inner_def split: sum.splits prod.splits if_splits)

text \<open>
  C24. What each successful status of \<open>acquire\<close> says about the lock table: a grant or an upgrade
  makes the transaction a holder in the requested mode and overtakes no incompatible waiter,
  \<open>AlreadyHeld\<close> means a held mode that is or covers the requested one, and both waiting statuses
  report the queued request with its sequence number and exactly the conflicting holders. No other
  resource changes.
\<close>

theorem acquire_status_correct:
  assumes "acquire m tx r mode = (m', Inr status)"
  shows "status_holds tx mode (entry_or_new m r) (entry_or_new m' r) status \<and>
    (\<forall>q. q \<noteq> r \<longrightarrow> map_of (entries m') q = map_of (entries m) q)"
  using assms
proof (rule acquire_Inr)
  fix seq' e'
  assume acq: "acquire_entry tx mode (entry_or_new m r) (next_sequence m) = (e', seq', Inr status)"
    and tx: "tx \<noteq> 0"
    and m': "m' = m\<lparr>entries := AList.update r e' (entries m), next_sequence := seq'\<rparr>"
  have "entry_or_new m' r = e'" by (simp add: m' entry_or_new_def update_conv')
  then show ?thesis
    using acquire_entry_status [OF acq tx] by (simp add: m' update_conv')
qed

theorem acquire_status_correct_witness:
  "status_holds 3 Exclusive (entry_or_new demo_readers demo_table) (entry_or_new demo_writer_waits demo_table)
     (Waiting 1 [\<lparr>holder_tx_id = 1, holder_mode = Shared\<rparr>, \<lparr>holder_tx_id = 2, holder_mode = IntentShared\<rparr>])"
proof -
  have "acquire demo_readers 3 demo_table Exclusive = (demo_writer_waits,
     Inr (Waiting 1 [\<lparr>holder_tx_id = 1, holder_mode = Shared\<rparr>, \<lparr>holder_tx_id = 2, holder_mode = IntentShared\<rparr>]))"
    by (simp add: demo_writer_waits_def demo_readers_def demo_table_def lock_manager_eval)
  from acquire_status_correct [OF this] show ?thesis by blast
qed

text \<open>
  C34. An \<open>acquire\<close> that returns an error (invalid identifiers, an unsupported conversion, an
  exhausted sequence counter, a poisoned mutex) leaves every holder and every waiter of every
  resource, and the sequence counter, as they were.
\<close>

theorem acquire_error_changes_nothing:
  assumes "acquire m tx r mode = (m', Inl err)"
  shows "entry_or_new m' q = entry_or_new m q \<and> next_sequence m' = next_sequence m"
proof (cases "and_then (validate_transaction_id tx)
    (\<lambda>_. and_then (validate_lock_resource r) (\<lambda>_. lock_inner m))")
  case (Inl e)
  with assms show ?thesis by (simp add: acquire_def)
next
  case (Inr u)
  then have tx: "tx \<noteq> 0" by (auto simp: and_then_eq_Inr_iff)
  obtain e' seq' where acq: "acquire_entry tx mode (entry_or_new m r) (next_sequence m) = (e', seq', Inl err)"
      and m': "m' = m\<lparr>entries := AList.update r e' (entries m), next_sequence := seq'\<rparr>"
    using assms Inr by (auto simp: acquire_def split: prod.splits)
  have push: "e' = e \<and> seq' = seq" if "push_waiter tx mode st e seq = (e', seq', Inl err)" for st e seq
    using that tx by (cases rule: push_waiter_cases) auto
  have "e' = entry_or_new m r \<and> seq' = next_sequence m"
    using acq push unfolding acquire_entry_def acquire_held_def acquire_fresh_def Let_def
    by (auto split: option.splits if_splits)
  then show ?thesis by (simp add: m' entry_or_new_def update_conv')
qed

theorem acquire_error_changes_nothing_witness:
  "entry_or_new (fst (acquire (demo_readers\<lparr>next_sequence := 18446744073709551615\<rparr>) 3 demo_table Exclusive)) demo_table =
     entry_or_new (demo_readers\<lparr>next_sequence := 18446744073709551615\<rparr>) demo_table"
proof -
  have "acquire (demo_readers\<lparr>next_sequence := 18446744073709551615\<rparr>) 3 demo_table Exclusive =
     (fst (acquire (demo_readers\<lparr>next_sequence := 18446744073709551615\<rparr>) 3 demo_table Exclusive),
      Inl (AndromedaError Transaction ''lock waiter sequence counter overflowed''))"
    by (simp add: demo_readers_def demo_table_def lock_manager_eval)
  from acquire_error_changes_nothing [OF this] show ?thesis by blast
qed

section \<open>Release\<close>

lemma release_entry_waiters:
  "filter (\<lambda>w. waiter_tx_id w \<noteq> tx) (waiters e) = promoted_by_release tx e @ waiters (release_entry tx e)"
proof (cases "mentions tx e")
  case True
  then show ?thesis
    using promote_sound [of "retain_others tx e", OF surjective_pairing]
    by (simp add: promotion_sound_def promoted_by_release_def release_entry_def retain_others_def)
next
  case False
  then have "filter (\<lambda>w. waiter_tx_id w \<noteq> tx) (waiters e) = waiters e"
    by (auto simp: mentions_def intro!: filter_True)
  with False show ?thesis by (simp add: promoted_by_release_def release_entry_def)
qed

lemma release_entry_holder_ids:
  "holder_tx_id ` set (holders (release_entry tx e)) =
     (holder_tx_id ` set (holders e) - {tx}) \<union> waiter_tx_id ` set (promoted_by_release tx e)"
proof (cases "mentions tx e")
  case True
  then show ?thesis
    using promote_sound [of "retain_others tx e", OF surjective_pairing]
    by (auto simp: promotion_sound_def promoted_by_release_def release_entry_def retain_others_def)
next
  case False
  then have "tx \<notin> holder_tx_id ` set (holders e)" by (auto simp: mentions_def)
  with False show ?thesis by (auto simp: promoted_by_release_def release_entry_def)
qed

text \<open>
  C25. Releasing a resource promotes a prefix of the remaining queue, in FIFO order: the other
  transactions' requests are, in order, the promoted ones that the evidence reports followed by
  those still waiting, and every promoted transaction is a holder afterwards.
\<close>

theorem release_promotes_fifo_prefix:
  assumes "release_with_evidence m tx r = (m', Inr ev)" and "map_of (entries m) r = Some e"
  shows "\<exists>ps. release_evidence ev = map (evidence_promotion r) ps \<and>
    filter (\<lambda>w. waiter_tx_id w \<noteq> tx) (waiters e) = ps @ waiters (entry_or_new m' r) \<and>
    (\<forall>p \<in> set ps. waiter_tx_id p \<in> holder_tx_id ` set (holders (entry_or_new m' r)))"
proof -
  have ok: "tx \<noteq> 0" "validate_lock_resource r = Inr ()" "\<not> poisoned m"
    using assms(1)
    by (auto simp: release_with_evidence_def and_then_eq_Inr_iff lock_inner_def split: sum.splits if_splits)
  note rel = release_with_evidence_Some [OF ok assms(2)]
  have m': "entry_or_new m' r = (if entry_empty (release_entry tx e) then lock_entry_new else release_entry tx e)"
    using rel assms(1) by (auto simp: entry_or_new_def update_conv' delete_conv')
  have "waiters (entry_or_new m' r) = waiters (release_entry tx e)"
    "holders (entry_or_new m' r) = holders (release_entry tx e)"
    by (auto simp: m' entry_empty_def lock_entry_new_def)
  then show ?thesis
    using rel assms(1) release_entry_waiters [of tx e] release_entry_holder_ids [of tx e]
    by (intro exI [of _ "promoted_by_release tx e"]) auto
qed

theorem release_promotes_fifo_prefix_witness:
  "\<exists>m' ev. release_with_evidence (fst (release demo_writer_waits 1 demo_table)) 2 demo_table = (m', Inr ev) \<and>
     waiters (entry_or_new m' demo_table) = [] \<and> length (release_evidence ev) = 1"
proof -
  let ?m = "fst (release demo_writer_waits 1 demo_table)"
  have e: "map_of (entries ?m) demo_table =
      Some \<lparr>holders = [\<lparr>holder_tx_id = 2, holder_mode = IntentShared\<rparr>],
            waiters = [\<lparr>waiter_tx_id = 3, waiter_mode = Exclusive, waiter_sequence = 1\<rparr>]\<rparr>"
    and rel: "release_with_evidence ?m 2 demo_table =
      (fst (release_with_evidence ?m 2 demo_table), Inr \<lparr>released_any = True, release_evidence =
         [evidence_promotion demo_table \<lparr>waiter_tx_id = 3, waiter_mode = Exclusive, waiter_sequence = 1\<rparr>]\<rparr>)"
    by (simp_all add: demo_writer_waits_def demo_readers_def demo_table_def lock_manager_eval)
  from release_promotes_fifo_prefix [OF rel e] rel show ?thesis
    by (intro exI conjI) auto
qed

text \<open>
  \<open>release_all\<close>, the terminal cleanup of strict two-phase locking, removes every record of the
  transaction from the whole table, and takes nothing from any other transaction: each of them
  that held a resource still holds it, and each that waited still waits or has become a holder.
\<close>

theorem release_all_frees_only_its_transaction:
  assumes "release_all m tx = (m', Inr summary)" and "hash_inv (entries m)"
  shows "(\<forall>r. \<not> mentions tx (entry_or_new m' r)) \<and>
    (\<forall>r t. t \<noteq> tx \<longrightarrow>
       (t \<in> holder_tx_id ` set (holders (entry_or_new m r)) \<longrightarrow>
          t \<in> holder_tx_id ` set (holders (entry_or_new m' r))) \<and>
       (mentions t (entry_or_new m r) \<longrightarrow> mentions t (entry_or_new m' r)))"
proof -
  have ok: "tx \<noteq> 0" "\<not> poisoned m"
    using assms(1)
    by (auto simp: release_all_def release_all_with_evidence_def and_then_eq_Inr_iff lock_inner_def
        split: sum.splits if_splits)
  have m': "m' = fst (release_all_with_evidence m tx)"
    using assms(1) wrapper_states(3) [of m tx] by simp
  have entry: "entry_or_new m' r = (if mentions tx (entry_or_new m r) \<and>
        entry_empty (release_entry tx (entry_or_new m r))
      then lock_entry_new else release_entry tx (entry_or_new m r))" for r
    using release_all_entries(1) [OF ok assms(2), of r]
    by (auto simp: m' entry_or_new_def mentions_def lock_entry_new_def release_entry_def split: option.splits)
  have same: "holders (entry_or_new m' r) = holders (release_entry tx (entry_or_new m r))"
    "waiters (entry_or_new m' r) = waiters (release_entry tx (entry_or_new m r))" for r
    by (auto simp: entry entry_empty_def lock_entry_new_def)
  have "mentions t (release_entry tx e)" if "mentions t e" "t \<noteq> tx" for t e
  proof -
    have "t \<in> holder_tx_id ` set (holders (release_entry tx e)) \<union> waiter_tx_id ` set (waiters (release_entry tx e))"
      using that release_entry_holder_ids [of tx e] release_entry_waiters [of tx e]
      by (fastforce simp: mentions_def set_eq_iff dest!: arg_cong [of _ _ set])
    then show ?thesis by (auto simp: mentions_def)
  qed
  then show ?thesis
    using release_entry_unmentioned release_entry_holder_ids
    by (auto simp: mentions_def same)
qed

theorem release_all_frees_only_its_transaction_witness:
  "\<not> mentions 1 (entry_or_new (fst (release_all demo_writer_waits 1)) demo_table) \<and>
   mentions 3 (entry_or_new (fst (release_all demo_writer_waits 1)) demo_table)"
proof -
  have rel: "release_all demo_writer_waits 1 = (fst (release_all demo_writer_waits 1),
      Inr \<lparr>affected_resource_count = 1, released_holder_count = 1, removed_waiter_count = 0\<rparr>)"
    by (simp add: demo_writer_waits_def demo_readers_def demo_table_def lock_manager_eval summary_default_def)
  have "hash_inv (entries demo_writer_waits)"
    using demo_reachable(2) by (rule reachable_hash_inv)
  from release_all_frees_only_its_transaction [OF rel this] show ?thesis
    using demo_writer_waits_entries by (auto simp: entry_or_new_def mentions_def)
qed

text \<open>
  C33. \<open>release_all\<close> does to every resource that mentions the transaction exactly what a single
  \<open>release\<close> of that resource does, and leaves every other resource alone; the order in which the
  hash map is visited does not matter.
\<close>

theorem release_all_is_release_everywhere:
  assumes "tx \<noteq> 0" and "\<not> poisoned m" and "hash_inv (entries m)" and "validate_lock_resource r = Inr ()"
  shows "map_of (entries (fst (release_all m tx))) r =
     (if mentions tx (entry_or_new m r) then map_of (entries (fst (release m tx r))) r
      else map_of (entries m) r)"
  using release_all_entries(1) [OF assms(1-3), of r] release_entries(1) [OF assms(1,4,2,3)]
  by (auto simp: entry_or_new_def release_entry_def mentions_def lock_entry_new_def split: option.splits)

theorem release_all_is_release_everywhere_witness:
  "map_of (entries (fst (release_all demo_writer_waits 1))) demo_table =
   map_of (entries (fst (release demo_writer_waits 1 demo_table))) demo_table"
proof -
  have "hash_inv (entries demo_writer_waits)"
    using demo_reachable(2) by (rule reachable_hash_inv)
  moreover have "\<not> poisoned demo_writer_waits" "validate_lock_resource demo_table = Inr ()"
    by (simp_all add: demo_writer_waits_def demo_readers_def demo_table_def lock_manager_eval)
  moreover have "mentions 1 (entry_or_new demo_writer_waits demo_table)"
    using demo_writer_waits_entries by (simp add: entry_or_new_def mentions_def)
  ultimately show ?thesis
    using release_all_is_release_everywhere [of 1 demo_writer_waits demo_table] by simp
qed

section \<open>Lock plans of catalog operations\<close>

text \<open>
  The catalog lock plans: a procedure invocation conflicts with a definition batch that mutates
  the same object and with any mutation of the whole schema, two object mutations conflict exactly
  when they name the same object of the same schema, and invocations never conflict with each
  other.
\<close>

theorem catalog_plans_conflict:
  assumes "procedure_invocation s ob = Inr call" and "procedure_invocation s' ob' = Inr call'"
    and "definition_batch_object_mutation s ob = Inr mut"
    and "definition_batch_object_mutation s' ob' = Inr mut'"
    and "definition_batch_schema_mutation s = Inr ddl"
  shows "plans_conflict call mut \<and> plans_conflict call ddl \<and> plans_conflict mut ddl \<and>
    \<not> plans_conflict call call' \<and>
    (plans_conflict mut mut' \<longleftrightarrow> s = s' \<and> ob = ob') \<and>
    (plans_conflict call mut' \<longleftrightarrow> s = s' \<and> ob = ob')"
  using assms
  by (auto simp: procedure_invocation_def definition_batch_object_mutation_def
      definition_batch_schema_mutation_def and_then_eq_Inr_iff resource_constructor_defs
      lock_request_new_def plans_conflict_def)

theorem catalog_plans_conflict_witness:
  "\<exists>call mut. procedure_invocation 1 2 = Inr call \<and> definition_batch_object_mutation 1 3 = Inr mut \<and>
     \<not> plans_conflict call mut"
proof -
  note evals = procedure_invocation_def definition_batch_object_mutation_def
    definition_batch_schema_mutation_def resource_constructor_defs validate_non_zero_def
  obtain call call' mut mut' ddl where plans:
    "procedure_invocation 1 2 = Inr call" "procedure_invocation 1 3 = Inr call'"
    "definition_batch_object_mutation 1 2 = Inr mut" "definition_batch_object_mutation 1 3 = Inr mut'"
    "definition_batch_schema_mutation 1 = Inr ddl"
    by (simp add: evals)
  from catalog_plans_conflict [OF this] plans show ?thesis by auto
qed

section \<open>A granted mode that promotion drops\<close>

text \<open>
  A transaction may queue two requests for one resource. When both are promoted, the second
  replaces the mode of the first even if it does not cover it.
\<close>

definition demo_two_requests :: lock_manager where
  "demo_two_requests =
     fst (acquire (fst (acquire (fst (acquire lock_manager_new 9 demo_table Exclusive))
       1 demo_table Shared)) 1 demo_table IntentExclusive)"

text \<open>
  C39. Transaction 1 queues \<open>Shared\<close> and then \<open>IntentExclusive\<close> behind a writer. The writer's
  release reports both promotions, yet afterwards transaction 1 holds only \<open>IntentExclusive\<close>,
  which does not cover \<open>Shared\<close>, and transaction 2 is granted \<open>IntentExclusive\<close>, which conflicts
  with the promoted \<open>Shared\<close>.
\<close>

theorem promotion_drops_granted_mode:
  "\<exists>m' ev. lock_reachable demo_two_requests \<and>
     release_with_evidence demo_two_requests 9 demo_table = (m', Inr ev) \<and>
     map (\<lambda>p. (evidence_tx_id p, evidence_mode p)) (release_evidence ev) =
       [(1, Some Shared), (1, Some IntentExclusive)] \<and>
     holders (entry_or_new m' demo_table) = [\<lparr>holder_tx_id = 1, holder_mode = IntentExclusive\<rparr>] \<and>
     \<not> held_mode_covers_requested IntentExclusive Shared \<and>
     snd (acquire m' 2 demo_table IntentExclusive) = Inr Granted \<and>
     \<not> is_compatible_with Shared IntentExclusive"
proof -
  have "lock_reachable demo_two_requests"
    by (simp add: demo_two_requests_def lock_reachable_acquire)
  moreover have "release_with_evidence demo_two_requests 9 demo_table =
      (\<lparr>entries = [(demo_table, \<lparr>holders = [\<lparr>holder_tx_id = 1, holder_mode = IntentExclusive\<rparr>], waiters = []\<rparr>)],
        next_sequence = 2, poisoned = False\<rparr>,
       Inr \<lparr>released_any = True, release_evidence =
         [evidence_promotion demo_table \<lparr>waiter_tx_id = 1, waiter_mode = Shared, waiter_sequence = 1\<rparr>,
          evidence_promotion demo_table \<lparr>waiter_tx_id = 1, waiter_mode = IntentExclusive, waiter_sequence = 2\<rparr>]\<rparr>)"
    by (simp add: demo_two_requests_def demo_table_def lock_manager_eval)
  ultimately show ?thesis
    by (simp add: demo_table_def lock_manager_eval evidence_promotion_def)
qed

end
