(* ===== verification/Deadlock_Props.thy ===== *)
theory Deadlock_Props
  imports Deadlock_Detector Lock_Manager_Props
begin

text \<open>
  The properties of the deadlock detector: it always answers, its verdict is exact when its deadline
  is not reached, a reported timeout really elapsed, and the decision drawn from a lock manager is
  about exactly the conflicting waits of its lock table.
\<close>

section \<open>The detector on a well-formed graph\<close>

lemma is_cycle_participants:
  assumes "wfg_inv g" and "is_cycle g c"
  shows "length c \<ge> 2" and "0 \<notin> set c"
proof -
  have "c \<noteq> [x]" for x
    using assms wfg_inv_blockers(3) [of g x] by (auto simp: is_cycle_def)
  moreover have "c \<noteq> []" using assms(2) by (auto simp: is_cycle_def)
  ultimately show "length c \<ge> 2"
    by (cases c; cases "tl c") (auto simp: Suc_le_eq)
  have "x \<noteq> 0" if x: "x \<in> set c" for x
  proof -
    obtain ys zs where c: "c = ys @ x # zs" using split_list [OF x] by blast
    have "blockers_of g x \<noteq> []"
      using assms(2) unfolding is_cycle_def c
      by (cases zs) (auto simp: successively_append_iff)
    then show ?thesis using wfg_inv_blockers(4) [OF assms(1)] by blast
  qed
  then show "0 \<notin> set c" by blast
qed

definition usable :: "deadlock_policy \<Rightarrow> deadlock_detection_deadline \<Rightarrow> bool" where
  "usable policy deadline \<longleftrightarrow>
     policy_validate policy = Inr () \<and> validate_deadlock_timeout (deadline_timeout deadline) = Inr () \<and>
     deadline_timeout deadline \<le> detection_timeout policy"

lemma status_of_cycle_ok:
  assumes "wfg_inv g" and "is_cycle g c"
  obtains (deferred) "victim_policy policy = YoungestTransactionStartOrder"
      "\<exists>tx \<in> set c. map_of (metadata_entries t) tx = None"
      "status_of_cycle policy t c = Inr (StatusDeferred MISSING_TRANSACTION_ORDERING_METADATA_REASON)"
  | (chosen) v where
      "\<not> (victim_policy policy = YoungestTransactionStartOrder \<and>
         (\<exists>tx \<in> set c. map_of (metadata_entries t) tx = None))"
      "status_of_cycle policy t c = Inr (StatusCycleFound v (sorted_unique c))"
      "victim_optimal (victim_policy policy) t c (victim_tx_id v)"
proof -
  note c = is_cycle_participants [OF assms]
  show thesis
  proof (cases "victim_policy policy = YoungestTransactionStartOrder \<and>
      (\<exists>tx \<in> set c. map_of (metadata_entries t) tx = None)")
    case True
    then show thesis
      using c(2) by (intro deferred) (auto simp: status_of_cycle_def has_metadata_for_all_eq)
  next
    case False
    then obtain v where
      "victim_from_cycle_with_transaction_metadata c (victim_policy policy) t = Inr v"
      "victim_cycle_participants v = sorted_unique c"
      "victim_optimal (victim_policy policy) t c (victim_tx_id v)"
      using victim_from_cycle_ok [OF c(2,1), of "victim_policy policy" t] by auto
    with False show thesis
      using c(2) by (intro chosen [of v]) (auto simp: status_of_cycle_def has_metadata_for_all_eq)
  qed
qed

lemma graph_empty_acyclic: "graph_is_empty g \<Longrightarrow> acyclic (edge_rel g)"
  by (simp add: graph_is_empty_def edge_rel_def blockers_of_def acyclic_def)

text \<open>Everything the detector can answer with usable inputs.\<close>

lemma detect_cases:
  assumes g: "wfg_inv g" and u: "usable (detector_policy d) deadline"
  obtains (no_cycle) "acyclic (edge_rel g)"
      "detect_with_transaction_metadata_and_deadline d g t deadline clock k = Some (Inr StatusNoCycle)"
  | (timed_out) r k' where "k \<le> r" "r \<le> k'" "is_expired deadline clock r"
      "detect_with_transaction_metadata_and_deadline d g t deadline clock k =
         Some (Inr (timeout_status deadline (clock k')))"
  | (cycle) c where "is_cycle g c"
      "detect_with_transaction_metadata_and_deadline d g t deadline clock k =
         Some (status_of_cycle (detector_policy d) t c)"
proof (cases "is_expired deadline clock k")
  case True
  then show thesis
    using u by (intro timed_out [of k k])
      (auto simp: detect_with_transaction_metadata_and_deadline_def usable_def
        timeout_status_if_expired_def is_expired_def)
next
  case False
  note start = detect_with_transaction_metadata_and_deadline_def usable_def graph_validate_ok [OF g]
    timeout_status_if_expired_def is_expired_def
  show thesis
  proof (cases "graph_is_empty g")
    case True
    then show thesis
      using False u by (intro no_cycle) (auto simp: start graph_empty_acyclic)
  next
    case ne: False
    obtain k' out where out: "find_first_cycle_until g deadline clock (Suc k) = Some (k', Inr out)"
      "Suc k \<le> k'" "out = NoCycle \<Longrightarrow> acyclic (edge_rel g)" "\<And>c. out = CycleFound c \<Longrightarrow> is_cycle g c"
      "out = TimedOut \<Longrightarrow> \<exists>r. Suc k \<le> r \<and> r < k' \<and> is_expired deadline clock r"
      using find_first_cycle_result [OF g, of deadline clock "Suc k"] by metis
    show thesis
    proof (cases out)
      case NoCycle
      then show thesis using False ne u out by (intro no_cycle) (auto simp: start)
    next
      case (CycleFound c)
      then show thesis using False ne u out by (intro cycle [of c]) (auto simp: start)
    next
      case TimedOut
      then obtain r where "Suc k \<le> r" "r < k'" "is_expired deadline clock r" using out(5) by blast
      then show thesis
        using TimedOut False ne u out(1) by (intro timed_out [of r k']) (auto simp: start)
    qed
  qed
qed

section \<open>Properties of the detector\<close>

definition demo_cycle_graph :: wait_for_graph where
  "demo_cycle_graph = \<lparr>wfg_edges = [(1, [2]), (2, [1])]\<rparr>"

definition demo_detector :: deadlock_detector where
  "demo_detector = \<lparr>detector_policy = \<lparr>detection_timeout = 1000, victim_policy = YoungestTransactionId\<rparr>\<rparr>"

definition demo_deadline :: deadlock_detection_deadline where
  "demo_deadline = \<lparr>started_at = instant 0, deadline_timeout = 1000\<rparr>"

lemma demo_cycle_graph_inv: "wfg_inv demo_cycle_graph"
  by (auto simp: wfg_inv_def demo_cycle_graph_def btree_inv_def split: if_splits)

lemma demo_usable: "usable (detector_policy demo_detector) demo_deadline"
  by (simp add: usable_def demo_detector_def demo_deadline_def policy_validate_def
      validate_deadlock_timeout_def MAX_DEADLOCK_TIMEOUT_def)

text \<open>
  C13. Exact verdict. With usable inputs and a deadline that no clock reading reaches, the detector
  answers \<open>NoCycle\<close> if the wait-for graph has no cycle. Otherwise there is a cycle of the graph
  such that the answer is \<open>Deferred\<close> if the policy orders by start order and a participant has no
  metadata, and else \<open>CycleFound\<close> with exactly the sorted participants of that cycle and a
  victim among them that is extremal for the policy.
\<close>

theorem detector_verdict:
  assumes "wfg_inv g" and "usable (detector_policy d) deadline"
    and "\<And>r. \<not> is_expired deadline clock r"
  shows "let answer = detect_with_transaction_metadata_and_deadline d g t deadline clock k in
    if acyclic (edge_rel g) then answer = Some (Inr StatusNoCycle)
    else \<exists>c. is_cycle g c \<and>
      (if victim_policy (detector_policy d) = YoungestTransactionStartOrder \<and>
          (\<exists>tx \<in> set c. map_of (metadata_entries t) tx = None)
       then answer = Some (Inr (StatusDeferred MISSING_TRANSACTION_ORDERING_METADATA_REASON))
       else \<exists>v. answer = Some (Inr (StatusCycleFound v (sorted_unique c))) \<and>
         victim_optimal (victim_policy (detector_policy d)) t c (victim_tx_id v))"
  using assms(1,2)
proof (cases rule: detect_cases [where t = t and clock = clock and k = k])
  case no_cycle
  then show ?thesis by (simp add: Let_def)
next
  case (timed_out r k')
  with assms(3) show ?thesis by blast
next
  case (cycle c)
  from assms(1) cycle(1) show ?thesis
    by (cases rule: status_of_cycle_ok [where policy = "detector_policy d" and t = t])
      (use cycle is_cycle_not_acyclic in \<open>auto simp: Let_def\<close>)
qed

theorem detector_verdict_witness:
  "\<not> acyclic (edge_rel demo_cycle_graph) \<and>
   (\<exists>c v. is_cycle demo_cycle_graph c \<and>
     detect_with_transaction_metadata_and_deadline demo_detector demo_cycle_graph metadata_table_new
       demo_deadline (manual_readings manual_clock_new) 0 = Some (Inr (StatusCycleFound v (sorted_unique c))) \<and>
     victim_optimal YoungestTransactionId metadata_table_new c (victim_tx_id v))"
proof -
  have "is_cycle demo_cycle_graph [1, 2]"
    by (simp add: is_cycle_def demo_cycle_graph_def blockers_of_def)
  then have "\<not> acyclic (edge_rel demo_cycle_graph)" by (rule is_cycle_not_acyclic)
  moreover have "\<not> is_expired demo_deadline (manual_readings manual_clock_new) r" for r
    by (simp add: is_expired_def is_expired_at_def elapsed_at_def elapsed_since_def demo_deadline_def
        manual_readings_def manual_clock_new_def instant_def)
  ultimately show ?thesis
    using detector_verdict [OF demo_cycle_graph_inv demo_usable, of "manual_readings manual_clock_new"
        metadata_table_new 0]
    by (auto simp: demo_detector_def)
qed

text \<open>
  C22. Detection always answers. Whatever the clock reads, detection on a well-formed graph returns:
  the recursion of the search never exhausts its bound. With usable inputs it returns no error.
\<close>

theorem detection_always_answers:
  assumes "wfg_inv g"
  shows "\<exists>res. detect_with_transaction_metadata_and_deadline d g t deadline clock k = Some res \<and>
    (usable (detector_policy d) deadline \<longrightarrow> (\<exists>status. res = Inr status))"
proof (cases "usable (detector_policy d) deadline")
  case True
  with assms show ?thesis
  proof (cases rule: detect_cases [where t = t and clock = clock and k = k])
    case (cycle c)
    from assms cycle(1) show ?thesis
      by (cases rule: status_of_cycle_ok [where policy = "detector_policy d" and t = t])
        (use cycle in auto)
  qed auto
next
  case False
  then show ?thesis
    by (auto simp: usable_def detect_with_transaction_metadata_and_deadline_def policy_validate_def
        validate_deadlock_timeout_def split: sum.splits)
qed

theorem detection_always_answers_witness:
  "\<exists>status. detect_with_transaction_metadata_and_deadline demo_detector demo_cycle_graph
     metadata_table_new demo_deadline (\<lambda>k. instant (300 * k)) 0 = Some (Inr status)"
  using detection_always_answers [OF demo_cycle_graph_inv, of demo_detector metadata_table_new
      demo_deadline "\<lambda>k. instant (300 * k)" 0] demo_usable
  by auto

text \<open>
  An honest timeout. If the clock is monotonic and the detector reports a timeout, then the
  reported timeout is the one of the deadline and at least that much time had elapsed.
\<close>

theorem reported_timeout_elapsed:
  assumes "wfg_inv g" and "usable (detector_policy d) deadline" and "deadlock_clock clock"
    and "detect_with_transaction_metadata_and_deadline d g t deadline clock k =
      Some (Inr (StatusTimedOut reason elapsed timeout))"
  shows "timeout = deadline_timeout deadline \<and> timeout \<le> elapsed"
  using assms(1,2)
proof (cases rule: detect_cases [where t = t and clock = clock and k = k])
  case (timed_out r k')
  then have "is_expired deadline clock k'"
    using deadlock_clock.expired_stays [OF assms(3)] by blast
  with timed_out assms(4) show ?thesis
    by (simp add: timeout_status_def is_expired_def is_expired_at_def)
next
  case (cycle c)
  from assms(1) cycle(1) show ?thesis
    by (cases rule: status_of_cycle_ok [where policy = "detector_policy d" and t = t])
      (use cycle assms(4) in auto)
qed (use assms(4) in simp)

theorem reported_timeout_elapsed_witness:
  "detect_with_transaction_metadata_and_deadline demo_detector demo_cycle_graph metadata_table_new
     demo_deadline (\<lambda>k. instant (1000 + k)) 3 =
       Some (Inr (StatusTimedOut DEADLOCK_DETECTION_TIMEOUT_REASON 1003 1000)) \<and>
   (1000 = deadline_timeout demo_deadline \<and> (1000 :: nat) \<le> 1003)"
proof (rule context_conjI)
  show "detect_with_transaction_metadata_and_deadline demo_detector demo_cycle_graph
     metadata_table_new demo_deadline (\<lambda>k. instant (1000 + k)) 3 =
       Some (Inr (StatusTimedOut DEADLOCK_DETECTION_TIMEOUT_REASON 1003 1000))"
    using demo_usable
    by (simp add: detect_with_transaction_metadata_and_deadline_def usable_def timeout_status_def
        timeout_status_if_expired_def is_expired_at_def elapsed_at_def elapsed_since_def instant_def
        demo_deadline_def)
  then show "1000 = deadline_timeout demo_deadline \<and> (1000 :: nat) \<le> 1003"
    by (rule reported_timeout_elapsed [OF demo_cycle_graph_inv demo_usable, rotated])
      (unfold_locales, simp add: instant_def)
qed

section \<open>Decisions about a lock manager\<close>


fun decision_evidence :: "deadlock_decision \<Rightarrow> deadlock_decision_evidence" where
  "decision_evidence (DecisionNoCycle ev) = ev"
| "decision_evidence (DecisionVictimSuggested v ps ev) = ev"
| "decision_evidence (DecisionDeferred reason ev) = ev"
| "decision_evidence (DecisionTimedOut reason elapsed timeout ev) = ev"

lemma decision_evidence_of_status [simp]:
  "decision_evidence (decision_from_detection_status status ev) = ev"
  by (cases status) simp_all

lemma decision_no_cycle_iff [simp]:
  "decision_from_detection_status status ev = DecisionNoCycle ev' \<longleftrightarrow> status = StatusNoCycle \<and> ev' = ev"
  by (cases status) auto


lemma detect_manual_status:
  assumes "wfg_inv g" and "policy_validate policy = Inr ()"
    and "deadline = \<lparr>started_at = instant 0, deadline_timeout = detection_timeout policy\<rparr>"
    and "d = \<lparr>detector_policy = policy\<rparr>"
  obtains status where
    "detect_with_transaction_metadata_and_deadline d g t deadline (manual_readings manual_clock_new) k =
       Some (Inr status)"
    "status = StatusNoCycle \<longleftrightarrow> acyclic (edge_rel g)"
    "\<And>reason elapsed timeout. status \<noteq> StatusTimedOut reason elapsed timeout"
proof -
  have u: "usable (detector_policy d) deadline"
    using assms(2-4) by (auto simp: usable_def policy_validate_def)
  have "\<not> is_expired deadline (manual_readings manual_clock_new) r" for r
    using assms(2,3)
    by (auto simp: is_expired_def is_expired_at_def elapsed_at_def elapsed_since_def
        manual_readings_def manual_clock_new_def instant_def policy_validate_def
        validate_deadlock_timeout_def split: if_splits)
  moreover from assms(1) u show thesis
  proof (cases rule: detect_cases [where t = t and clock = "manual_readings manual_clock_new" and k = k])
    case no_cycle
    then show thesis by (intro that [of StatusNoCycle]) auto
  next
    case (timed_out r k')
    with calculation show thesis by blast
  next
    case (cycle c)
    note not_acyclic = is_cycle_not_acyclic [OF cycle(1)]
    from assms(1) cycle(1) show thesis
      by (cases rule: status_of_cycle_ok [where policy = "detector_policy d" and t = t])
        (use cycle not_acyclic that in auto)
  qed
qed

lemma deadlock_policy_default_ok [simp]: "policy_validate deadlock_policy_default = Inr ()"
  by (simp add: policy_validate_def deadlock_policy_default_def validate_deadlock_timeout_def
      DEFAULT_DEADLOCK_TIMEOUT_def MAX_DEADLOCK_TIMEOUT_def)

lemma decide_from_manager_ok:
  assumes "snapshot m = Inr snap" and "from_lock_table_snapshot snap = Inr g" and "wfg_inv g"
    and "policy_validate policy = Inr ()"
  obtains status where "decide_deadlock_from_lock_manager m policy md =
      Some (Inr (decision_from_detection_status status (decision_evidence_new (length snap) g)))"
    "status = StatusNoCycle \<longleftrightarrow> acyclic (edge_rel g)"
proof -
  let ?deadline = "\<lparr>started_at = instant 0, deadline_timeout = detection_timeout policy\<rparr>"
  obtain status where status: "detect_with_transaction_metadata_and_deadline \<lparr>detector_policy = policy\<rparr> g
      (case md of Some t \<Rightarrow> t | None \<Rightarrow> metadata_table_new) ?deadline (manual_readings manual_clock_new) 1 =
        Some (Inr status)" "status = StatusNoCycle \<longleftrightarrow> acyclic (edge_rel g)"
    using detect_manual_status [OF assms(3,4) refl refl] by metis
  have "deadline_from_policy policy (manual_readings manual_clock_new) 0 = Inr ?deadline"
    using assms(4) by (simp add: deadline_from_policy_def deadline_new_def policy_validate_def
        manual_readings_def manual_clock_new_def)
  with assms status show thesis
    by (intro that [of status])
      (auto simp: decide_deadlock_from_lock_manager_def decide_deadlock_from_lock_table_snapshot_def
        decide_deadlock_from_lock_table_snapshot_with_deadline_def deadlock_detector_new_def Let_def)
qed





text \<open>
  The wait-for graph has an edge only from a waiter to a holder. A grant is in queue order, so a
  waiter also waits for the waiters in front of it, and a cycle through such a wait is not seen.
\<close>

definition demo_missed_deadlock :: lock_manager where
  "demo_missed_deadlock =
     fst (acquire (fst (acquire (fst (acquire lock_manager_new
       1 demo_table Shared)) 2 demo_table Exclusive)) 1 demo_table Exclusive)"

text \<open>
  C37. Transaction 1 holds \<open>Shared\<close>, transaction 2 queues for \<open>Exclusive\<close>, and the upgrade of
  transaction 1 to \<open>Exclusive\<close> queues behind it. Transaction 2 waits for transaction 1 and
  transaction 1 is behind transaction 2, so neither can be granted, but the decision is
  \<open>NoCycle\<close>, whose only edge is from 2 to 1.
\<close>

theorem deadlock_behind_queue_missed:
  "lock_reachable demo_missed_deadlock \<and>
   lock_entry_of demo_missed_deadlock demo_table =
     Inr (Some \<lparr>holders = [\<lparr>holder_tx_id = 1, holder_mode = Shared\<rparr>],
                waiters = [\<lparr>waiter_tx_id = 2, waiter_mode = Exclusive, waiter_sequence = 1\<rparr>,
                           \<lparr>waiter_tx_id = 1, waiter_mode = Exclusive, waiter_sequence = 2\<rparr>]\<rparr>) \<and>
   decide_deadlock_from_lock_manager demo_missed_deadlock deadlock_policy_default None =
     Some (Inr (DecisionNoCycle \<lparr>lock_snapshot_resource_count = 1, wait_for_edges = [(2, 1)]\<rparr>))"
proof -
  have state: "demo_missed_deadlock =
     \<lparr>entries = [(demo_table, \<lparr>holders = [\<lparr>holder_tx_id = 1, holder_mode = Shared\<rparr>],
        waiters = [\<lparr>waiter_tx_id = 2, waiter_mode = Exclusive, waiter_sequence = 1\<rparr>,
                   \<lparr>waiter_tx_id = 1, waiter_mode = Exclusive, waiter_sequence = 2\<rparr>]\<rparr>)],
      next_sequence = 2, poisoned = False\<rparr>"
    by (simp add: demo_missed_deadlock_def demo_table_def lock_manager_eval)
  let ?g = "\<lparr>wfg_edges = [(2, [1])]\<rparr>"
  have snap: "snapshot demo_missed_deadlock = Inr (entries demo_missed_deadlock)"
    by (simp add: state snapshot_def lock_inner_def)
  have g: "from_lock_table_snapshot (entries demo_missed_deadlock) = Inr ?g"
    by (simp add: state from_lock_table_snapshot_def insert_edge_def validate_not_self_edge_def
        wait_for_graph_new_def blockers_of_def btree_set_insert_def)
  have inv: "wfg_inv ?g" by (auto simp: wfg_inv_def btree_inv_def split: if_splits)
  have "edge_rel ?g \<subseteq> {(x, y). y < x}"
    by (auto simp: edge_rel_def blockers_of_def split: option.splits if_splits)
  then have "acyclic (edge_rel ?g)"
    by (rule acyclic_subset [rotated]) (auto intro!: acyclicI_order [of _ id])
  then have "decide_deadlock_from_lock_manager demo_missed_deadlock deadlock_policy_default None =
      Some (Inr (DecisionNoCycle (decision_evidence_new 1 ?g)))"
    using decide_from_manager_ok [OF snap g inv deadlock_policy_default_ok, of None]
    by (auto simp: state)
  moreover have "lock_reachable demo_missed_deadlock"
    by (simp add: demo_missed_deadlock_def lock_reachable_acquire)
  ultimately show ?thesis
    by (simp add: state lock_entry_of_def lock_inner_def decision_evidence_new_def graph_edges_def
        demo_table_def validate_non_zero_def)
qed

section \<open>Removing a victim\<close>

lemma map_of_filter_values:
  "distinct (map fst xs) \<Longrightarrow>
   map_of (filter (\<lambda>kv. snd kv \<noteq> []) (map (\<lambda>kv. (fst kv, f (snd kv))) xs)) k =
     (case map_of xs k of None \<Rightarrow> None | Some v \<Rightarrow> if f v = [] then None else Some (f v))"
  by (induction xs) (auto simp: map_of_eq_None_iff split: option.splits, force)

lemma btree_inv_filter_values:
  assumes "btree_inv xs"
  shows "btree_inv (filter (\<lambda>kv. snd kv \<noteq> []) (map (\<lambda>kv. (fst kv, f (snd kv))) xs))"
proof -
  have "map fst (filter (\<lambda>kv. snd kv \<noteq> []) (map (\<lambda>kv. (fst kv, f (snd kv))) xs)) =
      map fst (filter (\<lambda>kv. f (snd kv) \<noteq> []) xs)"
    by (induction xs) auto
  with assms show ?thesis by (simp add: btree_inv_def sorted_wrt_map sorted_wrt_filter)
qed

lemma edge_lookup:
  "(w, b) \<in> edge_rel g \<longleftrightarrow> (\<exists>bs. map_of (wfg_edges g) w = Some bs \<and> b \<in> set bs)"
  by (cases "map_of (wfg_edges g) w") (auto simp: edge_rel_def blockers_of_def)

lemma removed_any_edge:
  assumes "wfg_inv g"
  shows "map_of (wfg_edges g) tx \<noteq> None \<or> list_ex (\<lambda>kv. tx \<in> set (snd kv)) (btree_remove tx (wfg_edges g)) \<longleftrightarrow>
    (\<exists>x. (tx, x) \<in> edge_rel g \<or> (x, tx) \<in> edge_rel g)"
proof -
  have out: "map_of (wfg_edges g) tx \<noteq> None \<longleftrightarrow> (\<exists>x. (tx, x) \<in> edge_rel g)"
    using assms by (cases "map_of (wfg_edges g) tx") (auto simp: wfg_inv_def edge_lookup ex_in_conv)
  have "list_ex (\<lambda>kv. tx \<in> set (snd kv)) (btree_remove tx (wfg_edges g)) \<longleftrightarrow>
      (\<exists>w bs. map_of (btree_remove tx (wfg_edges g)) w = Some bs \<and> tx \<in> set bs)"
    using assms by (force simp: list_ex_iff wfg_inv_def btree_map.invar_del btree_inv_distinct dest: map_of_SomeD)
  moreover have "map_of (btree_remove tx (wfg_edges g)) w = Some bs \<and> tx \<in> set bs \<longleftrightarrow>
      map_of (wfg_edges g) w = Some bs \<and> tx \<in> set bs" for w bs
    using assms by (auto simp: wfg_inv_def btree_map.get_del)
  ultimately have "list_ex (\<lambda>kv. tx \<in> set (snd kv)) (btree_remove tx (wfg_edges g)) \<longleftrightarrow>
      (\<exists>x. (x, tx) \<in> edge_rel g)" by (simp add: edge_lookup)
  with out show ?thesis by blast
qed

text \<open>
  Removing a transaction from the wait-for graph removes exactly the edges from it and to it,
  reports whether there was one, keeps the graph well-formed, and breaks every cycle through it.
\<close>

theorem remove_transaction_removes_its_edges:
  assumes "wfg_inv g" and "tx \<noteq> 0"
  shows "\<exists>g'. remove_transaction g tx = (g', Inr (\<exists>x. (tx, x) \<in> edge_rel g \<or> (x, tx) \<in> edge_rel g)) \<and>
    wfg_inv g' \<and> edge_rel g' = {(w, b) \<in> edge_rel g. w \<noteq> tx \<and> b \<noteq> tx} \<and>
    (tx, tx) \<notin> (edge_rel g')\<^sup>+"
proof -
  define rest where "rest = btree_remove tx (wfg_edges g)"
  define g' where "g' = g\<lparr>wfg_edges := filter (\<lambda>kv. snd kv \<noteq> [])
    (map (\<lambda>kv. (fst kv, filter (\<lambda>b. b \<noteq> tx) (snd kv))) rest)\<rparr>"
  have inv: "btree_inv (wfg_edges g)" using assms(1) by (simp add: wfg_inv_def)
  have rest: "btree_inv rest" "map_of rest = (map_of (wfg_edges g))(tx := None)"
    using inv by (simp_all add: rest_def btree_map.invar_del btree_map.get_del)
  have lookup: "map_of (wfg_edges g') w =
      (if w = tx then None
       else case map_of (wfg_edges g) w of None \<Rightarrow> None
         | Some bs \<Rightarrow> if filter (\<lambda>b. b \<noteq> tx) bs = [] then None else Some (filter (\<lambda>b. b \<noteq> tx) bs))" for w
    using rest by (simp add: g'_def map_of_filter_values btree_inv_distinct)
  have blockers: "blockers_of g' w = (if w = tx then [] else filter (\<lambda>b. b \<noteq> tx) (blockers_of g w))" for w
    unfolding blockers_of_def lookup by (simp split: option.splits)
  then have edges: "edge_rel g' = {(w, b) \<in> edge_rel g. w \<noteq> tx \<and> b \<noteq> tx}"
    by (auto simp: edge_rel_def split: if_splits)
  have "wfg_inv g'"
    using assms(1) rest(1) unfolding wfg_inv_def lookup
    by (auto simp: g'_def btree_inv_filter_values sorted_wrt_filter split: if_splits option.splits)
  moreover have "(tx, tx) \<notin> (edge_rel g')\<^sup>+"
    using edges by (auto dest: tranclD)
  moreover have "map_of (wfg_edges g) tx \<noteq> None \<or> list_ex (\<lambda>kv. tx \<in> set (snd kv)) rest \<longleftrightarrow>
      (\<exists>x. (tx, x) \<in> edge_rel g \<or> (x, tx) \<in> edge_rel g)"
    unfolding rest_def by (rule removed_any_edge [OF assms(1)])
  moreover have "remove_transaction g tx =
      (g', Inr (map_of (wfg_edges g) tx \<noteq> None \<or> list_ex (\<lambda>kv. tx \<in> set (snd kv)) rest))"
    using assms(2) by (simp add: remove_transaction_def g'_def rest_def Let_def)
  ultimately show ?thesis using edges by (auto simp del: not_None_eq)
qed

theorem remove_transaction_removes_its_edges_witness:
  "\<exists>g'. remove_transaction demo_cycle_graph 1 =
      (g', Inr (\<exists>x. (1, x) \<in> edge_rel demo_cycle_graph \<or> (x, 1) \<in> edge_rel demo_cycle_graph)) \<and>
    wfg_inv g' \<and> edge_rel g' = {(w, b) \<in> edge_rel demo_cycle_graph. w \<noteq> 1 \<and> b \<noteq> 1} \<and>
    (1, 1) \<notin> (edge_rel g')\<^sup>+"
  by (rule remove_transaction_removes_its_edges [OF demo_cycle_graph_inv]) simp

end
