(* ===== verification/Mvcc_Status.thy ===== *)
theory Mvcc_Status
  imports Andromeda_Prelude
begin

text \<open>
  The transaction status table of the MVCC crate (\<open>andromeda-mvcc/src/status.rs\<close>): the only source of
  durable-commit truth for visibility. The table's mutex recovers from poisoning, so every call
  reaches the map; each operation is one function on the table. The section at the end gives the
  steps of a table and what no step can change.
\<close>

section \<open>Operations\<close>

datatype transaction_status = InFlight | Committed | RolledBack

definition is_terminal :: "transaction_status \<Rightarrow> bool" where
  "is_terminal status \<longleftrightarrow> status = Committed \<or> status = RolledBack"

type_synonym status_table = "(u64 \<times> transaction_status) list"

definition status_table_new :: status_table where
  "status_table_new = []"

definition transaction_error :: "string \<Rightarrow> andromeda_error" where
  "transaction_error message = AndromedaError Transaction message"

definition validate_status_transaction_id :: "u64 \<Rightarrow> string \<Rightarrow> unit andromeda_result" where
  "validate_status_transaction_id tx message =
     (if tx = 0 then Inl (transaction_error message) else Inr ())"

definition validate_terminal_status :: "transaction_status \<Rightarrow> unit andromeda_result" where
  "validate_terminal_status status =
     (if is_terminal status then Inr ()
      else Inl (transaction_error ''terminal transaction status expected''))"

definition validate_terminal_lsn_evidence :: "u64 \<Rightarrow> u64 \<Rightarrow> unit andromeda_result" where
  "validate_terminal_lsn_evidence terminal_record_lsn durable_lsn =
     (if terminal_record_lsn = 0
      then Inl (transaction_error ''terminal transaction status record LSN must not be zero'')
      else if durable_lsn < terminal_record_lsn
      then Inl (AndromedaError Storage
        (''terminal transaction status durable LSN must cover record LSN: durable='' @
         u64_string durable_lsn @ '', record='' @ u64_string terminal_record_lsn))
      else Inr ())"

definition terminal_status_requires_durable_wal :: andromeda_error where
  "terminal_status_requires_durable_wal =
     transaction_error ''terminal transaction status requires durable WAL evidence''"

definition terminal_status_conflict :: andromeda_error where
  "terminal_status_conflict = transaction_error ''conflicting transaction terminal status''"

definition status :: "status_table \<Rightarrow> u64 \<Rightarrow> transaction_status option" where
  "status t tx = map_of t tx"

definition record_status ::
    "status_table \<Rightarrow> u64 \<Rightarrow> transaction_status \<Rightarrow> status_table \<times> unit andromeda_result" where
  "record_status t tx st =
     (case validate_status_transaction_id tx ''transaction status id must not be zero'' of
        Inl e \<Rightarrow> (t, Inl e)
      | Inr _ \<Rightarrow>
          if is_terminal st then (t, Inl terminal_status_requires_durable_wal)
          else
            (case status t tx of
               Some existing \<Rightarrow>
                 if is_terminal existing then (t, Inl terminal_status_conflict)
                 else (btree_insert tx st t, Inr ())
             | None \<Rightarrow> (btree_insert tx st t, Inr ())))"

definition record_in_flight :: "status_table \<Rightarrow> u64 \<Rightarrow> status_table \<times> unit andromeda_result" where
  "record_in_flight t tx = record_status t tx InFlight"

definition set_committed :: "status_table \<Rightarrow> u64 \<Rightarrow> unit andromeda_result" where
  "set_committed t tx =
     and_then (validate_status_transaction_id tx ''transaction status id must not be zero'')
       (\<lambda>_. Inl terminal_status_requires_durable_wal)"

definition record_validated_terminal_status ::
    "status_table \<Rightarrow> u64 \<Rightarrow> transaction_status \<Rightarrow> status_table \<times> unit andromeda_result" where
  "record_validated_terminal_status t tx st =
     (case validate_terminal_status st of
        Inl e \<Rightarrow> (t, Inl e)
      | Inr _ \<Rightarrow>
          (case status t tx of
             None \<Rightarrow> (btree_insert tx st t, Inr ())
           | Some existing \<Rightarrow>
               if existing = st then (t, Inr ())
               else if existing = InFlight then (btree_insert tx st t, Inr ())
               else (t, Inl terminal_status_conflict)))"

definition record_terminal_from_durable_evidence ::
    "status_table \<Rightarrow> u64 \<Rightarrow> transaction_status \<Rightarrow> u64 \<Rightarrow> u64 \<Rightarrow> status_table \<times> unit andromeda_result" where
  "record_terminal_from_durable_evidence t tx st terminal_record_lsn durable_lsn =
     (case and_then (validate_terminal_status st)
             (\<lambda>_. validate_terminal_lsn_evidence terminal_record_lsn durable_lsn) of
        Inl e \<Rightarrow> (t, Inl e)
      | Inr _ \<Rightarrow> record_validated_terminal_status t tx st)"

definition record_committed_after_durable_wal ::
    "status_table \<Rightarrow> u64 \<Rightarrow> u64 \<Rightarrow> u64 \<Rightarrow> status_table \<times> unit andromeda_result" where
  "record_committed_after_durable_wal t tx commit_lsn durable_lsn =
     record_terminal_from_durable_evidence t tx Committed commit_lsn durable_lsn"

definition record_rolled_back_after_durable_wal ::
    "status_table \<Rightarrow> u64 \<Rightarrow> u64 \<Rightarrow> u64 \<Rightarrow> status_table \<times> unit andromeda_result" where
  "record_rolled_back_after_durable_wal t tx rollback_lsn durable_lsn =
     record_terminal_from_durable_evidence t tx RolledBack rollback_lsn durable_lsn"

definition restore_terminal_from_validated_replay ::
    "status_table \<Rightarrow> u64 \<Rightarrow> transaction_status \<Rightarrow> status_table \<times> unit andromeda_result" where
  "restore_terminal_from_validated_replay t tx st =
     (case validate_status_transaction_id tx ''transaction status id must not be zero'' of
        Inl e \<Rightarrow> (t, Inl e)
      | Inr _ \<Rightarrow>
          if \<not> is_terminal st then (t, Inl (transaction_error ''validated replay status must be terminal''))
          else record_validated_terminal_status t tx st)"

text \<open>An unknown writer counts as in flight. The version timestamp and the snapshot are unused.\<close>

definition status_for_snapshot :: "status_table \<Rightarrow> u64 \<Rightarrow> transaction_status" where
  "status_for_snapshot t tx = (case status t tx of Some st \<Rightarrow> st | None \<Rightarrow> InFlight)"

section \<open>Steps of a table\<close>

lemma status_new [simp]: "status status_table_new tx = None"
  by (simp add: status_table_new_def status_def)

lemma status_insert [simp]:
  "btree_inv t \<Longrightarrow> status (btree_insert k st t) tx = (if tx = k then Some st else status t tx)"
  by (simp add: status_def btree_map.get_put)

inductive status_step :: "status_table \<Rightarrow> status_table \<Rightarrow> bool" where
  step_record: "status_step t (fst (record_status t tx st))"
| step_committed: "status_step t (fst (record_committed_after_durable_wal t tx lsn durable))"
| step_rolled_back: "status_step t (fst (record_rolled_back_after_durable_wal t tx lsn durable))"
| step_restore: "status_step t (fst (restore_terminal_from_validated_replay t tx st))"

lemmas status_operations =
  record_status_def record_committed_after_durable_wal_def record_rolled_back_after_durable_wal_def
  record_terminal_from_durable_evidence_def record_validated_terminal_status_def
  restore_terminal_from_validated_replay_def

lemma status_step_inv: "status_step t t' \<Longrightarrow> btree_inv t \<Longrightarrow> btree_inv t'"
  by (induction rule: status_step.induct)
    (auto simp: status_operations btree_map.invar_put split: sum.splits option.splits if_splits)

interpretation statuses: invariant_system status_table_new status_step btree_inv
  by unfold_locales (simp add: status_table_new_def btree_inv_def, rule status_step_inv)

lemma status_step_terminal:
  "status_step t t' \<Longrightarrow> btree_inv t \<Longrightarrow> status t tx = Some st \<Longrightarrow> is_terminal st \<Longrightarrow> status t' tx = Some st"
  by (induction rule: status_step.induct)
    (auto simp: status_operations is_terminal_def split: sum.splits option.splits if_splits)

lemma terminal_forever:
  assumes "status_step\<^sup>*\<^sup>* t t'" and "btree_inv t" and "status t tx = Some st" and "is_terminal st"
  shows "status t' tx = Some st"
  using assms
proof (induction rule: rtranclp_induct)
  case (step u v)
  then show ?case using status_step_terminal statuses.inv_run by blast
qed simp

end
