(* ===== verification/Mvcc_Version.thy ===== *)
theory Mvcc_Version
  imports Mvcc_Status
begin

text \<open>
  Snapshots and row versions (\<open>andromeda-mvcc/src/snapshot.rs\<close> and \<open>version.rs\<close>): construction and
  validation of both, and the visibility decision. At the end, the decision as one formula, and
  what it keeps while the status table moves on.
\<close>

section \<open>Snapshots\<close>

datatype mvcc_isolation_policy = ReadCommitted | RepeatableRead

record mvcc_snapshot =
  timestamp :: u64
  catalog_version :: "u64 option"
  isolation_policy :: mvcc_isolation_policy
  transaction_id :: "u64 option"
  active_tx_ids :: "u64 list"

definition snapshot_new :: "u64 \<Rightarrow> mvcc_snapshot" where
  "snapshot_new ts = \<lparr>timestamp = ts, catalog_version = None, isolation_policy = ReadCommitted,
     transaction_id = None, active_tx_ids = []\<rparr>"

fun validate_active_ids :: "u64 option \<Rightarrow> u64 list \<Rightarrow> unit andromeda_result" where
  "validate_active_ids previous [] = Inr ()"
| "validate_active_ids previous (tx # txs) =
     (if tx = 0 then Inl (transaction_error ''snapshot active transaction id must not be zero'')
      else if (case previous of Some p \<Rightarrow> p \<ge> tx | None \<Rightarrow> False)
      then Inl (transaction_error ''snapshot active transaction ids must be sorted and unique'')
      else validate_active_ids (Some tx) txs)"

definition snapshot_validate :: "mvcc_snapshot \<Rightarrow> unit andromeda_result" where
  "snapshot_validate s =
     (if timestamp s = 0 then Inl (transaction_error ''snapshot timestamp must not be zero'')
      else if catalog_version s = Some 0
      then Inl (transaction_error ''snapshot catalog version must not be zero'')
      else if transaction_id s = Some 0
      then Inl (transaction_error ''snapshot transaction id must not be zero'')
      else validate_active_ids None (active_tx_ids s))"

definition with_context ::
    "u64 \<Rightarrow> u64 \<Rightarrow> mvcc_isolation_policy \<Rightarrow> u64 option \<Rightarrow> u64 list \<Rightarrow> mvcc_snapshot andromeda_result" where
  "with_context ts version policy tx active =
     (let s = \<lparr>timestamp = ts, catalog_version = Some version, isolation_policy = policy,
               transaction_id = tx, active_tx_ids = remdups_adj (sort active)\<rparr> in
      and_then (snapshot_validate s) (\<lambda>_. Inr s))"

fun validate_active_statuses :: "status_table \<Rightarrow> u64 list \<Rightarrow> unit andromeda_result" where
  "validate_active_statuses t [] = Inr ()"
| "validate_active_statuses t (tx # txs) =
     (case status t tx of
        Some Committed \<Rightarrow>
          Inl (transaction_error ''snapshot active transaction list contains a terminal transaction'')
      | Some RolledBack \<Rightarrow>
          Inl (transaction_error ''snapshot active transaction list contains a terminal transaction'')
      | _ \<Rightarrow> validate_active_statuses t txs)"

definition validate_against_statuses :: "mvcc_snapshot \<Rightarrow> status_table \<Rightarrow> unit andromeda_result" where
  "validate_against_statuses s t =
     and_then
       (case transaction_id s of
          None \<Rightarrow> Inr ()
        | Some tx \<Rightarrow>
            (case status t tx of
               Some InFlight \<Rightarrow> Inr ()
             | Some _ \<Rightarrow> Inl (transaction_error ''snapshot owner transaction is not in flight'')
             | None \<Rightarrow> Inl (transaction_error
                 ''snapshot owner transaction is not registered with the manager'')))
       (\<lambda>_. validate_active_statuses t (active_tx_ids s))"

definition with_context_validated ::
    "u64 \<Rightarrow> u64 \<Rightarrow> mvcc_isolation_policy \<Rightarrow> u64 option \<Rightarrow> u64 list \<Rightarrow> status_table \<Rightarrow>
     mvcc_snapshot andromeda_result" where
  "with_context_validated ts version policy tx active t =
     and_then (with_context ts version policy tx active) (\<lambda>s.
       and_then (validate_against_statuses s t) (\<lambda>_. Inr s))"

definition is_current_transaction :: "mvcc_snapshot \<Rightarrow> u64 \<Rightarrow> bool" where
  "is_current_transaction s tx \<longleftrightarrow> transaction_id s = Some tx"

definition is_transaction_active :: "mvcc_snapshot \<Rightarrow> u64 \<Rightarrow> bool" where
  "is_transaction_active s tx \<longleftrightarrow> binary_search (active_tx_ids s) tx"

section \<open>Row versions\<close>

record mvcc_row_header =
  begin_ts :: u64
  end_ts :: "u64 option"
  creator_tx_id :: u64
  deleter_tx_id :: "u64 option"
  previous_version_ptr :: "u64 option"
  flags :: u32

definition header_validate :: "mvcc_row_header \<Rightarrow> unit andromeda_result" where
  "header_validate h =
     (if begin_ts h = 0 then Inl (transaction_error ''MVCC begin timestamp must not be zero'')
      else if creator_tx_id h = 0
      then Inl (transaction_error ''MVCC creator transaction id must not be zero'')
      else if (case end_ts h of Some e \<Rightarrow> e \<le> begin_ts h | None \<Rightarrow> False)
      then Inl (transaction_error ''MVCC end timestamp must be greater than begin timestamp'')
      else if end_ts h \<noteq> None \<and> deleter_tx_id h = None
      then Inl (transaction_error ''closed MVCC version requires deleter transaction id'')
      else if end_ts h = None \<and> deleter_tx_id h \<noteq> None
      then Inl (transaction_error ''open MVCC version must not contain deleter transaction id'')
      else if deleter_tx_id h = Some 0
      then Inl (transaction_error ''MVCC deleter transaction id must not be zero'')
      else Inr ())"

definition open_version :: "u64 \<Rightarrow> u64 \<Rightarrow> u64 option \<Rightarrow> mvcc_row_header andromeda_result" where
  "open_version ts creator previous =
     (let h = \<lparr>begin_ts = ts, end_ts = None, creator_tx_id = creator, deleter_tx_id = None,
               previous_version_ptr = previous, flags = 0\<rparr> in
      and_then (header_validate h) (\<lambda>_. Inr h))"

definition close_version :: "mvcc_row_header \<Rightarrow> u64 \<Rightarrow> u64 \<Rightarrow> mvcc_row_header andromeda_result" where
  "close_version h ts deleter =
     (let closed = h\<lparr>end_ts := Some ts, deleter_tx_id := Some deleter\<rparr> in
      and_then (header_validate closed) (\<lambda>_. Inr closed))"

fun creator_is_visible :: "u64 \<Rightarrow> transaction_status \<Rightarrow> mvcc_snapshot \<Rightarrow> bool" where
  "creator_is_visible tx Committed s =
     (case isolation_policy s of
        ReadCommitted \<Rightarrow> True
      | RepeatableRead \<Rightarrow> is_current_transaction s tx \<or> \<not> is_transaction_active s tx)"
| "creator_is_visible tx InFlight s = is_current_transaction s tx"
| "creator_is_visible tx RolledBack s = False"

fun delete_is_visible :: "u64 \<Rightarrow> u64 \<Rightarrow> transaction_status \<Rightarrow> mvcc_snapshot \<Rightarrow> bool" where
  "delete_is_visible tx ts Committed s =
     (if ts > timestamp s then False
      else
        (case isolation_policy s of
           ReadCommitted \<Rightarrow> True
         | RepeatableRead \<Rightarrow> is_current_transaction s tx \<or> \<not> is_transaction_active s tx))"
| "delete_is_visible tx ts InFlight s = is_current_transaction s tx"
| "delete_is_visible tx ts RolledBack s = False"

definition visible_in_snapshot ::
    "mvcc_row_header \<Rightarrow> mvcc_snapshot \<Rightarrow> status_table \<Rightarrow> bool andromeda_result" where
  "visible_in_snapshot h s t =
     and_then (snapshot_validate s) (\<lambda>_.
     and_then (header_validate h) (\<lambda>_.
       if \<not> creator_is_visible (creator_tx_id h) (status_for_snapshot t (creator_tx_id h)) s
       then Inr False
       else if begin_ts h > timestamp s \<and> \<not> is_current_transaction s (creator_tx_id h)
       then Inr False
       else
         (case end_ts h of
            None \<Rightarrow> Inr True
          | Some e \<Rightarrow>
              (case deleter_tx_id h of
                 None \<Rightarrow> Inl (transaction_error ''closed MVCC version requires deleter transaction id'')
               | Some d \<Rightarrow> Inr (\<not> delete_is_visible d e (status_for_snapshot t d) s)))))"

section \<open>What validation gives\<close>

lemma validate_active_ids_iff:
  "validate_active_ids previous txs = Inr () \<longleftrightarrow>
     0 \<notin> set txs \<and> sorted_wrt (<) (case previous of None \<Rightarrow> txs | Some p \<Rightarrow> p # txs)"
  by (induction previous txs rule: validate_active_ids.induct)
    (auto split: option.splits)

lemma snapshot_validate_iff:
  "snapshot_validate s = Inr () \<longleftrightarrow>
     timestamp s \<noteq> 0 \<and> catalog_version s \<noteq> Some 0 \<and> transaction_id s \<noteq> Some 0 \<and>
     0 \<notin> set (active_tx_ids s) \<and> sorted_wrt (<) (active_tx_ids s)"
  by (auto simp: snapshot_validate_def validate_active_ids_iff)

lemma is_transaction_active_iff:
  "snapshot_validate s = Inr () \<Longrightarrow> is_transaction_active s tx \<longleftrightarrow> tx \<in> set (active_tx_ids s)"
  by (simp add: is_transaction_active_def snapshot_validate_iff binary_search_iff strict_sorted_iff)

lemma header_validate_iff:
  "header_validate h = Inr () \<longleftrightarrow>
     begin_ts h \<noteq> 0 \<and> creator_tx_id h \<noteq> 0 \<and> deleter_tx_id h \<noteq> Some 0 \<and>
     (end_ts h = None \<longleftrightarrow> deleter_tx_id h = None) \<and> (\<forall>e. end_ts h = Some e \<longrightarrow> begin_ts h < e)"
  by (auto simp: header_validate_def split: option.splits)

lemma validate_active_statuses_iff:
  "validate_active_statuses t txs = Inr () \<longleftrightarrow>
     (\<forall>tx \<in> set txs. status_for_snapshot t tx = InFlight)"
  by (induction t txs rule: validate_active_statuses.induct)
    (auto simp: status_for_snapshot_def split: option.splits transaction_status.splits)

section \<open>Visibility as one formula\<close>

text \<open>
  A write of transaction \<open>tx\<close> at \<open>ts\<close> counts for a snapshot if the snapshot's own transaction made
  it, or it is durably committed, ordered before the snapshot, and for repeatable reads was not
  active when the snapshot was taken.
\<close>

definition committed_before :: "mvcc_snapshot \<Rightarrow> status_table \<Rightarrow> u64 \<Rightarrow> u64 \<Rightarrow> bool" where
  "committed_before s t tx ts \<longleftrightarrow>
     status t tx = Some Committed \<and> ts \<le> timestamp s \<and>
     (isolation_policy s = RepeatableRead \<longrightarrow> tx \<notin> set (active_tx_ids s))"

definition own_write :: "mvcc_snapshot \<Rightarrow> status_table \<Rightarrow> u64 \<Rightarrow> bool" where
  "own_write s t tx \<longleftrightarrow> transaction_id s = Some tx \<and> status t tx \<noteq> Some RolledBack"

definition own_delete :: "mvcc_snapshot \<Rightarrow> status_table \<Rightarrow> u64 \<Rightarrow> u64 \<Rightarrow> bool" where
  "own_delete s t tx ts \<longleftrightarrow>
     own_write s t tx \<and> (status t tx = Some Committed \<longrightarrow> ts \<le> timestamp s)"

definition row_visible :: "mvcc_row_header \<Rightarrow> mvcc_snapshot \<Rightarrow> status_table \<Rightarrow> bool" where
  "row_visible h s t \<longleftrightarrow>
     (own_write s t (creator_tx_id h) \<or> committed_before s t (creator_tx_id h) (begin_ts h)) \<and>
     \<not> (\<exists>e d. end_ts h = Some e \<and> deleter_tx_id h = Some d \<and>
          (own_delete s t d e \<or> committed_before s t d e))"

lemma creator_is_visible_iff:
  assumes "snapshot_validate s = Inr ()"
  shows "creator_is_visible tx (status_for_snapshot t tx) s \<and>
      \<not> (ts > timestamp s \<and> \<not> is_current_transaction s tx) \<longleftrightarrow>
    own_write s t tx \<or> committed_before s t tx ts"
  using is_transaction_active_iff [OF assms, of tx]
  by (cases "status_for_snapshot t tx"; cases "isolation_policy s")
    (auto simp: status_for_snapshot_def own_write_def committed_before_def is_current_transaction_def
      split: option.splits)

lemma delete_is_visible_iff:
  assumes "snapshot_validate s = Inr ()"
  shows "delete_is_visible tx ts (status_for_snapshot t tx) s \<longleftrightarrow>
    own_delete s t tx ts \<or> committed_before s t tx ts"
  using is_transaction_active_iff [OF assms, of tx]
  by (cases "status_for_snapshot t tx"; cases "isolation_policy s")
    (auto simp: status_for_snapshot_def own_delete_def own_write_def committed_before_def
      is_current_transaction_def split: option.splits)

lemma visible_in_snapshot_eq:
  assumes "snapshot_validate s = Inr ()" and "header_validate h = Inr ()"
  shows "visible_in_snapshot h s t = Inr (row_visible h s t)"
proof -
  have "end_ts h = None \<longleftrightarrow> deleter_tx_id h = None" using assms(2) by (simp add: header_validate_iff)
  then show ?thesis
    using creator_is_visible_iff [OF assms(1), of "creator_tx_id h" t "begin_ts h"]
    by (cases "end_ts h"; cases "deleter_tx_id h")
      (auto simp: visible_in_snapshot_def assms row_visible_def delete_is_visible_iff [OF assms(1)])
qed

section \<open>Visibility while the status table moves on\<close>

text \<open>
  A repeatable-read snapshot pins a writer if the writer is another transaction that is terminal
  already, was active when the snapshot was taken, or writes after the snapshot.
\<close>

definition pinned :: "mvcc_snapshot \<Rightarrow> status_table \<Rightarrow> u64 \<Rightarrow> u64 \<Rightarrow> bool" where
  "pinned s t tx ts \<longleftrightarrow> transaction_id s \<noteq> Some tx \<and>
     ((\<exists>st. status t tx = Some st \<and> is_terminal st) \<or> tx \<in> set (active_tx_ids s) \<or> ts > timestamp s)"

lemma committed_before_stable:
  assumes "status_step\<^sup>*\<^sup>* t t'" and "btree_inv t" and "isolation_policy s = RepeatableRead"
    and "pinned s t tx ts"
  shows "committed_before s t' tx ts \<longleftrightarrow> committed_before s t tx ts"
  using assms terminal_forever [OF assms(1,2), of tx]
  by (auto simp: committed_before_def pinned_def is_terminal_def)

lemma own_pinned: "pinned s t tx ts \<Longrightarrow> \<not> own_write s t' tx"
  by (simp add: pinned_def own_write_def)

end
