(* ===== verification/Mvcc_Gc.thy ===== *)
theory Mvcc_Gc
  imports Mvcc_Version
begin

text \<open>
  Garbage collection of row versions: the registry of active snapshots
  (\<open>andromeda-mvcc/src/active_snapshot_registry.rs\<close>), the collector's decision and statistics
  (\<open>gc/collector.rs\<close>, \<open>gc/stats.rs\<close>, \<open>gc/eligibility.rs\<close>), the eligibility checker
  (\<open>gc/mvcc_eligibility/\<close>), reclamation marks (\<open>gc/reclamation/\<close>) and one tick of the scheduler
  (\<open>gc/scheduler/task.rs\<close>). The registry and the status table are shared between these objects, so
  they are arguments of the functions. Counters are atomic 64-bit integers that wrap; so does the
  epoch addition of the eligibility checks, as it does in a release build.
\<close>

section \<open>The registry of active snapshots\<close>

record snapshot_handle =
  handle_begin_ts :: u64
  handle_tx_id :: u64

definition snapshot_handle_new :: "u64 \<Rightarrow> u64 \<Rightarrow> snapshot_handle andromeda_result" where
  "snapshot_handle_new ts tx =
     (if ts = 0 then Inl (transaction_error ''snapshot begin timestamp must not be zero'')
      else if tx = 0 then Inl (transaction_error ''snapshot transaction id must not be zero'')
      else Inr \<lparr>handle_begin_ts = ts, handle_tx_id = tx\<rparr>)"

datatype gc_error = SnapshotAlreadyRegistered | SnapshotNotFound

definition MIN_TS_INF :: u64 where
  "MIN_TS_INF = 18446744073709551615"

text \<open>
  The hash set is a list without duplicates. A writer that panicked poisons the lock: then
  registration and release fail and the diagnostic reads fall back to an empty set.
\<close>

record snapshot_registry =
  registry_active :: "snapshot_handle list"
  cached_min_visible_ts :: u64
  registry_poisoned :: bool

definition registry_new :: snapshot_registry where
  "registry_new = \<lparr>registry_active = [], cached_min_visible_ts = MIN_TS_INF, registry_poisoned = False\<rparr>"

definition min_begin_ts :: "snapshot_handle list \<Rightarrow> u64" where
  "min_begin_ts hs =
     (case map handle_begin_ts hs of [] \<Rightarrow> MIN_TS_INF | ts # tss \<Rightarrow> fold min tss ts)"

definition register_snapshot ::
    "snapshot_registry \<Rightarrow> snapshot_handle \<Rightarrow> snapshot_registry \<times> (gc_error + unit)" where
  "register_snapshot r h =
     (if registry_poisoned r then (r, Inl SnapshotAlreadyRegistered)
      else if h \<in> set (registry_active r) then (r, Inl SnapshotAlreadyRegistered)
      else
        (let active = h # registry_active r in
         (r\<lparr>registry_active := active, cached_min_visible_ts := min_begin_ts active\<rparr>, Inr ())))"

definition release_snapshot ::
    "snapshot_registry \<Rightarrow> snapshot_handle \<Rightarrow> snapshot_registry \<times> (gc_error + unit)" where
  "release_snapshot r h =
     (if registry_poisoned r then (r, Inl SnapshotNotFound)
      else if h \<notin> set (registry_active r) then (r, Inl SnapshotNotFound)
      else
        (let active = remove1 h (registry_active r) in
         (r\<lparr>registry_active := active, cached_min_visible_ts := min_begin_ts active\<rparr>, Inr ())))"

definition minimum_visible_timestamp :: "snapshot_registry \<Rightarrow> u64" where
  "minimum_visible_timestamp r = cached_min_visible_ts r"

definition is_version_garbageable :: "snapshot_registry \<Rightarrow> u64 \<Rightarrow> bool" where
  "is_version_garbageable r e \<longleftrightarrow> e \<noteq> MIN_TS_INF \<and> e < minimum_visible_timestamp r"

section \<open>The collector\<close>

record gc_stats =
  stats_versions_scanned :: u64
  stats_versions_reclaimed :: u64
  stats_runs :: u64
  stats_last_run_ms :: u64

definition record_scan :: "gc_stats \<Rightarrow> u64 \<Rightarrow> gc_stats" where
  "record_scan st count = st\<lparr>stats_versions_scanned := stats_versions_scanned st + count\<rparr>"

definition record_reclaim :: "gc_stats \<Rightarrow> u64 \<Rightarrow> gc_stats" where
  "record_reclaim st count = st\<lparr>stats_versions_reclaimed := stats_versions_reclaimed st + count\<rparr>"

definition record_run :: "gc_stats \<Rightarrow> u64 \<Rightarrow> gc_stats" where
  "record_run st now_ms = st\<lparr>stats_runs := stats_runs st + 1, stats_last_run_ms := now_ms\<rparr>"

record gc_summary =
  summary_versions_scanned :: u64
  summary_versions_reclaimed :: u64
  summary_min_visible_ts :: u64

definition is_version_reclaimable :: "snapshot_registry \<Rightarrow> status_table \<Rightarrow> u64 \<Rightarrow> u64 \<Rightarrow> bool" where
  "is_version_reclaimable r t creator e =
     (if e = 18446744073709551615 then False
      else
        (let creator_status = (case status t creator of Some st \<Rightarrow> st | None \<Rightarrow> InFlight) in
         if creator_status = RolledBack then True
         else if creator_status \<noteq> Committed then False
         else e < minimum_visible_timestamp r))"

text \<open>The wall clock is an argument. The pass itself scans nothing: it only records that it ran.\<close>

definition run_gc ::
    "snapshot_registry \<Rightarrow> gc_stats \<Rightarrow> u64 \<Rightarrow> gc_stats \<times> gc_summary andromeda_result" where
  "run_gc r st now_ms =
     (record_run st now_ms,
      Inr \<lparr>summary_versions_scanned = 0, summary_versions_reclaimed = 0,
           summary_min_visible_ts = minimum_visible_timestamp r\<rparr>)"

section \<open>The eligibility checker\<close>

record version_eligibility =
  is_creator_committed :: bool
  is_end_ts_invisible :: bool
  is_grace_period_met :: bool

definition is_fully_eligible :: "version_eligibility \<Rightarrow> bool" where
  "is_fully_eligible v \<longleftrightarrow> is_creator_committed v \<and> is_end_ts_invisible v \<and> is_grace_period_met v"

record version_record =
  record_version_id :: u64
  record_creator_tx_id :: u64
  record_end_ts :: u64
  marked_at_gc_epoch :: u64

definition version_record_new :: "u64 \<Rightarrow> u64 \<Rightarrow> u64 \<Rightarrow> u64 \<Rightarrow> version_record andromeda_result" where
  "version_record_new version creator e epoch =
     (if version = 0 then Inl (transaction_error ''version_id must not be zero'')
      else if creator = 0 then Inl (transaction_error ''creator_tx_id must not be zero'')
      else Inr \<lparr>record_version_id = version, record_creator_tx_id = creator, record_end_ts = e,
                marked_at_gc_epoch = epoch\<rparr>)"

record version_eligibility_stats =
  versions_checked :: u64
  versions_eligible :: u64
  ineligible_creator_not_committed :: u64
  ineligible_end_ts_visible :: u64
  ineligible_grace_period :: u64

definition eligibility_stats_new :: version_eligibility_stats where
  "eligibility_stats_new = \<lparr>versions_checked = 0, versions_eligible = 0,
     ineligible_creator_not_committed = 0, ineligible_end_ts_visible = 0, ineligible_grace_period = 0\<rparr>"

definition total_ineligible :: "version_eligibility_stats \<Rightarrow> u64" where
  "total_ineligible st =
     ineligible_creator_not_committed st + ineligible_end_ts_visible st + ineligible_grace_period st"

record version_eligibility_checker =
  grace_period_epochs :: u64
  checker_stats :: version_eligibility_stats

definition version_eligibility_checker_new :: "u64 \<Rightarrow> version_eligibility_checker andromeda_result" where
  "version_eligibility_checker_new grace =
     (if grace = 0 then Inl (transaction_error ''grace_period_epochs must be greater than zero'')
      else Inr \<lparr>grace_period_epochs = grace, checker_stats = eligibility_stats_new\<rparr>)"

definition count_if :: "bool \<Rightarrow> u64 \<Rightarrow> u64" where
  "count_if b n = (if b then n + 1 else n)"

definition update_stats ::
    "version_eligibility \<Rightarrow> version_eligibility_stats \<Rightarrow> version_eligibility_stats" where
  "update_stats v st =
     (if is_fully_eligible v then st\<lparr>versions_eligible := versions_eligible st + 1\<rparr>
      else st\<lparr>
        ineligible_creator_not_committed :=
          count_if (\<not> is_creator_committed v) (ineligible_creator_not_committed st),
        ineligible_end_ts_visible := count_if (\<not> is_end_ts_invisible v) (ineligible_end_ts_visible st),
        ineligible_grace_period := count_if (\<not> is_grace_period_met v) (ineligible_grace_period st)\<rparr>)"

definition check_all_criteria ::
    "status_table \<Rightarrow> snapshot_registry \<Rightarrow> version_eligibility_checker \<Rightarrow> version_record \<Rightarrow> u64 \<Rightarrow>
     version_eligibility_checker \<times> version_eligibility andromeda_result" where
  "check_all_criteria t r c v gc_epoch =
     (let checked = (checker_stats c)\<lparr>versions_checked := versions_checked (checker_stats c) + 1\<rparr>;
          creator_status = (case status t (record_creator_tx_id v) of Some st \<Rightarrow> st | None \<Rightarrow> InFlight);
          eligibility =
            \<lparr>is_creator_committed = (creator_status = Committed),
             is_end_ts_invisible = (record_end_ts v < minimum_visible_timestamp r),
             is_grace_period_met = (gc_epoch \<ge> marked_at_gc_epoch v + grace_period_epochs c)\<rparr>
      in (c\<lparr>checker_stats := update_stats eligibility checked\<rparr>, Inr eligibility))"

definition is_eligible ::
    "status_table \<Rightarrow> snapshot_registry \<Rightarrow> version_eligibility_checker \<Rightarrow> version_record \<Rightarrow> u64 \<Rightarrow>
     version_eligibility_checker \<times> bool andromeda_result" where
  "is_eligible t r c v gc_epoch =
     (case check_all_criteria t r c v gc_epoch of
        (c', res) \<Rightarrow> (c', and_then res (\<lambda>eligibility. Inr (is_fully_eligible eligibility))))"

definition is_aborted_version_eligible :: "status_table \<Rightarrow> version_record \<Rightarrow> bool" where
  "is_aborted_version_eligible t v \<longleftrightarrow>
     (case status t (record_creator_tx_id v) of Some st \<Rightarrow> st | None \<Rightarrow> InFlight) = RolledBack"

definition is_in_flight_version_safe :: "status_table \<Rightarrow> version_record \<Rightarrow> bool" where
  "is_in_flight_version_safe t v \<longleftrightarrow>
     (case status t (record_creator_tx_id v) of Some st \<Rightarrow> st | None \<Rightarrow> InFlight) \<noteq> InFlight"

definition is_eligible_extended ::
    "status_table \<Rightarrow> snapshot_registry \<Rightarrow> version_eligibility_checker \<Rightarrow> version_record \<Rightarrow> u64 \<Rightarrow>
     version_eligibility_checker \<times> bool andromeda_result" where
  "is_eligible_extended t r c v gc_epoch =
     (if is_aborted_version_eligible t v then (c, Inr True)
      else if \<not> is_in_flight_version_safe t v then (c, Inr False)
      else is_eligible t r c v gc_epoch)"

definition reset_stats :: "version_eligibility_checker \<Rightarrow> version_eligibility_checker" where
  "reset_stats c = c\<lparr>checker_stats := eligibility_stats_new\<rparr>"

section \<open>Reclamation marks\<close>

record reclamation_mark =
  mark_version_id :: u64
  mark_creator_tx_id :: u64
  mark_end_ts :: u64
  marked_at :: u64
  mark_gc_epoch :: u64

text \<open>\<open>ReclamationMarkCandidate\<close> has the fields of a mark; it is not checked.\<close>

type_synonym reclamation_mark_candidate = reclamation_mark

definition reclamation_mark_new ::
    "u64 \<Rightarrow> u64 \<Rightarrow> u64 \<Rightarrow> u64 \<Rightarrow> u64 \<Rightarrow> reclamation_mark andromeda_result" where
  "reclamation_mark_new version creator e marked epoch =
     (if version = 0 then Inl (transaction_error ''reclamation mark version_id must not be zero'')
      else if creator = 0
      then Inl (transaction_error ''reclamation mark creator_tx_id must not be zero'')
      else if e = 18446744073709551615
      then Inl (transaction_error
        ''reclamation mark end_ts must be less than u64::MAX (live versions cannot be marked)'')
      else Inr \<lparr>mark_version_id = version, mark_creator_tx_id = creator, mark_end_ts = e,
                marked_at = marked, mark_gc_epoch = epoch\<rparr>)"

definition from_version_if_eligible ::
    "reclamation_mark_candidate \<Rightarrow> status_table \<Rightarrow> u64 \<Rightarrow> u64 \<Rightarrow> u64 \<Rightarrow>
     reclamation_mark option andromeda_result" where
  "from_version_if_eligible cand t min_visible_ts grace current_gc_epoch =
     (let creator_status = (case status t (mark_creator_tx_id cand) of Some st \<Rightarrow> st | None \<Rightarrow> InFlight) in
      if creator_status \<noteq> Committed then Inr None
      else if mark_end_ts cand \<ge> min_visible_ts then Inr None
      else if \<not> current_gc_epoch \<ge> mark_gc_epoch cand + grace then Inr None
      else
        and_then (reclamation_mark_new (mark_version_id cand) (mark_creator_tx_id cand)
                    (mark_end_ts cand) (marked_at cand) (mark_gc_epoch cand))
          (\<lambda>mark. Inr (Some mark)))"

record reclamation_eligibility =
  reclaim_creator_committed :: bool
  reclaim_end_ts_invisible :: bool
  gc_epoch_qualified :: bool

definition reclamation_fully_eligible :: "reclamation_eligibility \<Rightarrow> bool" where
  "reclamation_fully_eligible v \<longleftrightarrow>
     reclaim_creator_committed v \<and> reclaim_end_ts_invisible v \<and> gc_epoch_qualified v"

definition check_eligibility ::
    "reclamation_mark \<Rightarrow> status_table \<Rightarrow> u64 \<Rightarrow> u64 \<Rightarrow> u64 \<Rightarrow> reclamation_eligibility" where
  "check_eligibility m t min_visible_ts grace current_gc_epoch =
     \<lparr>reclaim_creator_committed =
        ((case status t (mark_creator_tx_id m) of Some st \<Rightarrow> st | None \<Rightarrow> InFlight) = Committed),
      reclaim_end_ts_invisible = (mark_end_ts m < min_visible_ts),
      gc_epoch_qualified = (current_gc_epoch \<ge> mark_gc_epoch m + grace)\<rparr>"

definition mark_is_eligible ::
    "reclamation_mark \<Rightarrow> status_table \<Rightarrow> u64 \<Rightarrow> u64 \<Rightarrow> u64 \<Rightarrow> bool" where
  "mark_is_eligible m t min_visible_ts grace current_gc_epoch \<longleftrightarrow>
     (case status t (mark_creator_tx_id m) of Some st \<Rightarrow> st | None \<Rightarrow> InFlight) = Committed \<and>
     mark_end_ts m < min_visible_ts \<and> current_gc_epoch \<ge> mark_gc_epoch m + grace"

record reclamation_command =
  command_version_id :: u64
  command_creator_tx_id :: u64
  command_end_ts :: u64

definition reclamation_command_new :: "u64 \<Rightarrow> u64 \<Rightarrow> u64 \<Rightarrow> reclamation_command andromeda_result" where
  "reclamation_command_new version creator e =
     (if version = 0 then Inl (transaction_error ''reclamation command version_id must not be zero'')
      else if creator = 0
      then Inl (transaction_error ''reclamation command creator_tx_id must not be zero'')
      else Inr \<lparr>command_version_id = version, command_creator_tx_id = creator, command_end_ts = e\<rparr>)"

definition mark_for_reclamation :: "reclamation_mark \<Rightarrow> reclamation_command" where
  "mark_for_reclamation m = \<lparr>command_version_id = mark_version_id m,
     command_creator_tx_id = mark_creator_tx_id m, command_end_ts = mark_end_ts m\<rparr>"

definition mark_validate :: "reclamation_mark \<Rightarrow> unit andromeda_result" where
  "mark_validate m =
     (if mark_version_id m = 0
      then Inl (transaction_error ''reclamation mark version_id must not be zero'')
      else if mark_creator_tx_id m = 0
      then Inl (transaction_error ''reclamation mark creator_tx_id must not be zero'')
      else if mark_end_ts m = 18446744073709551615
      then Inl (transaction_error ''reclamation mark end_ts must be less than u64::MAX'')
      else Inr ())"

record reclamation_stats =
  marks_created :: u64
  commands_executed :: u64
  versions_reclaimed :: u64

definition record_mark :: "reclamation_stats \<Rightarrow> reclamation_stats" where
  "record_mark st = st\<lparr>marks_created := marks_created st + 1\<rparr>"

definition record_execution :: "reclamation_stats \<Rightarrow> reclamation_stats" where
  "record_execution st = st\<lparr>commands_executed := commands_executed st + 1\<rparr>"

definition record_reclamation :: "reclamation_stats \<Rightarrow> reclamation_stats" where
  "record_reclamation st = st\<lparr>versions_reclaimed := versions_reclaimed st + 1\<rparr>"

section \<open>One tick of the scheduler\<close>

record gc_scheduler =
  run_interval :: nat
  last_min_visible_ts :: u64
  sched_ticks :: u64
  gc_runs_started :: u64
  gc_runs_completed :: u64
  skipped_no_min_visible_change :: u64
  sched_errors :: u64

definition MIN_GC_SCHEDULER_INTERVAL :: nat where
  "MIN_GC_SCHEDULER_INTERVAL = 1000000"

definition gc_scheduler_new :: "nat \<Rightarrow> gc_scheduler" where
  "gc_scheduler_new interval =
     \<lparr>run_interval = (if interval = 0 then MIN_GC_SCHEDULER_INTERVAL else interval),
      last_min_visible_ts = 0, sched_ticks = 0, gc_runs_started = 0, gc_runs_completed = 0,
      skipped_no_min_visible_change = 0, sched_errors = 0\<rparr>"

definition gc_scheduler_try_new :: "nat \<Rightarrow> gc_scheduler andromeda_result" where
  "gc_scheduler_try_new interval =
     (if interval = 0
      then Inl (transaction_error ''gc scheduler interval must be greater than zero'')
      else Inr (gc_scheduler_new interval))"

definition tick_once ::
    "snapshot_registry \<Rightarrow> gc_stats \<Rightarrow> u64 \<Rightarrow> gc_scheduler \<Rightarrow>
     gc_stats \<times> gc_scheduler \<times> gc_summary option andromeda_result" where
  "tick_once r st now_ms task =
     (let task = task\<lparr>sched_ticks := sched_ticks task + 1\<rparr>;
          current_min_visible = minimum_visible_timestamp r in
      if current_min_visible \<noteq> last_min_visible_ts task
      then
        (let task = task\<lparr>gc_runs_started := gc_runs_started task + 1\<rparr> in
         case run_gc r st now_ms of
           (st', Inr summary) \<Rightarrow>
             (st', task\<lparr>last_min_visible_ts := current_min_visible,
                        gc_runs_completed := gc_runs_completed task + 1\<rparr>, Inr (Some summary))
         | (st', Inl e) \<Rightarrow> (st', task\<lparr>sched_errors := sched_errors task + 1\<rparr>, Inl e))
      else
        (st, task\<lparr>skipped_no_min_visible_change := skipped_no_min_visible_change task + 1\<rparr>, Inr None))"

section \<open>The invariant of the registry\<close>

lemma u64_less_max: "(x :: u64) < 18446744073709551615 \<longleftrightarrow> x \<noteq> 18446744073709551615"
proof -
  have "unat x < 2 ^ LENGTH(64)" by (rule unsigned_less)
  then show ?thesis by (auto simp: word_less_nat_alt word_unat_eq_iff)
qed

lemma fold_min_le: "fold min tss (ts :: u64) \<le> ts \<and> (\<forall>x \<in> set tss. fold min tss ts \<le> x)"
proof (induction tss arbitrary: ts)
  case (Cons x tss)
  then show ?case using Cons.IH [of "min x ts"] by auto
qed simp

lemma fold_min_mem: "fold min tss (ts :: u64) \<in> insert ts (set tss)"
proof (induction tss arbitrary: ts)
  case (Cons x tss)
  then show ?case using Cons.IH [of "min x ts"] by (auto simp: min_def split: if_splits)
qed simp

lemma min_begin_ts_le: "h \<in> set hs \<Longrightarrow> min_begin_ts hs \<le> handle_begin_ts h"
  using fold_min_le by (cases hs) (auto simp: min_begin_ts_def)

lemma min_begin_ts_mem: "hs \<noteq> [] \<Longrightarrow> \<exists>h \<in> set hs. min_begin_ts hs = handle_begin_ts h"
  using fold_min_mem by (cases hs) (fastforce simp: min_begin_ts_def)+

definition registry_inv :: "snapshot_registry \<Rightarrow> bool" where
  "registry_inv r \<longleftrightarrow> distinct (registry_active r) \<and> \<not> registry_poisoned r \<and>
     cached_min_visible_ts r = min_begin_ts (registry_active r)"

inductive registry_step :: "snapshot_registry \<Rightarrow> snapshot_registry \<Rightarrow> bool" where
  step_register: "registry_step r (fst (register_snapshot r h))"
| step_release: "registry_step r (fst (release_snapshot r h))"

interpretation registry: invariant_system registry_new registry_step registry_inv
proof
  show "registry_inv registry_new"
    by (simp add: registry_inv_def registry_new_def min_begin_ts_def)
next
  fix r r' assume "registry_step r r'" "registry_inv r"
  then show "registry_inv r'"
    by (induction rule: registry_step.induct)
      (auto simp: registry_inv_def register_snapshot_def release_snapshot_def Let_def)
qed

lemma below_minimum:
  "registry_inv r \<Longrightarrow> h \<in> set (registry_active r) \<Longrightarrow> e < minimum_visible_timestamp r \<Longrightarrow> e < handle_begin_ts h"
  using min_begin_ts_le [of h "registry_active r"]
  by (auto simp: registry_inv_def minimum_visible_timestamp_def)

end
