(* ===== verification/Mvcc_Props.thy ===== *)
theory Mvcc_Props
  imports Mvcc_Gc
begin

text \<open>
  The properties of the MVCC crate: terminal outcomes are final and need evidence, visibility is the
  intended formula, repeatable reads repeat, and what garbage collection may remove.
\<close>

section \<open>Statuses\<close>

text \<open>
  C20. Outcomes are final. Whatever operations a status table goes through, a committed or rolled
  back transaction keeps that outcome.
\<close>

theorem terminal_status_is_final:
  assumes "status_step\<^sup>*\<^sup>* status_table_new t" and "status_step\<^sup>*\<^sup>* t t'"
    and "status t tx = Some st" and "is_terminal st"
  shows "status t' tx = Some st"
  using terminal_forever [OF assms(2) statuses.reachable_inv [OF assms(1)] assms(3,4)] .

definition demo_statuses :: status_table where
  "demo_statuses = fst (record_committed_after_durable_wal status_table_new 1 7 9)"

theorem terminal_status_is_final_witness:
  "status (fst (record_rolled_back_after_durable_wal demo_statuses 1 8 9)) 1 = Some Committed"
proof (rule terminal_status_is_final)
  show "status_step\<^sup>*\<^sup>* status_table_new demo_statuses"
    unfolding demo_statuses_def by (rule r_into_rtranclp) (rule step_committed)
  show "status_step\<^sup>*\<^sup>* demo_statuses (fst (record_rolled_back_after_durable_wal demo_statuses 1 8 9))"
    by (rule r_into_rtranclp) (rule step_rolled_back)
  show "status demo_statuses 1 = Some Committed"
    by (simp add: demo_statuses_def status_operations status_table_new_def validate_terminal_status_def
        validate_terminal_lsn_evidence_def is_terminal_def status_def)
qed (simp add: is_terminal_def)

text \<open>
  No commit without durable evidence. If recording an outcome from the log turns a
  transaction committed, the commit record has a non-zero LSN that the durable LSN covers;
  the plain \<open>record\<close> and \<open>set_committed\<close> never do it.
\<close>

theorem commit_needs_durable_evidence:
  assumes "btree_inv t" and "status t tx \<noteq> Some Committed"
  shows "(status (fst (record_committed_after_durable_wal t tx lsn durable)) tx = Some Committed \<longleftrightarrow>
       lsn \<noteq> 0 \<and> lsn \<le> durable \<and> status t tx \<noteq> Some RolledBack) \<and>
     status (fst (record_status t tx' st)) tx \<noteq> Some Committed \<and>
     (\<exists>e. set_committed t tx' = Inl e)"
proof (intro conjI)
  show "status (fst (record_committed_after_durable_wal t tx lsn durable)) tx = Some Committed \<longleftrightarrow>
       lsn \<noteq> 0 \<and> lsn \<le> durable \<and> status t tx \<noteq> Some RolledBack"
    using assms by (cases "status t tx"; cases "the (status t tx)")
      (auto simp: status_operations is_terminal_def validate_terminal_status_def
        validate_terminal_lsn_evidence_def)
  show "status (fst (record_status t tx' st)) tx \<noteq> Some Committed"
    using assms by (auto simp: status_operations is_terminal_def split: sum.splits option.splits if_splits)
  show "\<exists>e. set_committed t tx' = Inl e"
    by (auto simp: set_committed_def and_then_def split: sum.splits)
qed

theorem commit_needs_durable_evidence_witness:
  "(status (fst (record_committed_after_durable_wal status_table_new 1 7 6)) 1 = Some Committed \<longleftrightarrow>
       (7 :: u64) \<noteq> 0 \<and> (7 :: u64) \<le> 6 \<and> status status_table_new 1 \<noteq> Some RolledBack) \<and>
     status (fst (record_status status_table_new 1 Committed)) 1 \<noteq> Some Committed \<and>
     (\<exists>e. set_committed status_table_new 1 = Inl e)"
  by (rule commit_needs_durable_evidence) (simp_all add: statuses.inv_init)

text \<open>
  The outcome operations check the transaction id nowhere, although every other operation of the
  table refuses the zero id: zero can be recorded as committed.
\<close>

lemma zero_transaction_can_commit:
  "status (fst (record_committed_after_durable_wal status_table_new 0 1 1)) 0 = Some Committed \<and>
   snd (restore_terminal_from_validated_replay status_table_new 0 Committed) =
     Inl (transaction_error ''transaction status id must not be zero'')"
  by (simp add: status_operations validate_terminal_status_def validate_terminal_lsn_evidence_def
      is_terminal_def statuses.inv_init validate_status_transaction_id_def)

section \<open>Visibility\<close>

text \<open>
  C6. Visibility. For a valid snapshot and a valid row version the decision is exactly this: the
  creating write is the snapshot's own and not rolled back, or durably committed, not later than
  the snapshot and, for repeatable reads, not by a transaction active at the snapshot; and the same
  does not hold of the deleting write. (An own delete that has committed counts only if it is not
  later than the snapshot.)
\<close>

theorem visibility_formula:
  assumes "snapshot_validate s = Inr ()" and "header_validate h = Inr ()"
  shows "visible_in_snapshot h s t = Inr (row_visible h s t)"
  by (rule visible_in_snapshot_eq [OF assms])

definition demo_snapshot :: mvcc_snapshot where
  "demo_snapshot = \<lparr>timestamp = 50, catalog_version = Some 7, isolation_policy = RepeatableRead,
     transaction_id = Some 9, active_tx_ids = [3, 9]\<rparr>"

definition demo_row :: mvcc_row_header where
  "demo_row = \<lparr>begin_ts = 10, end_ts = Some 20, creator_tx_id = 1, deleter_tx_id = Some 3,
     previous_version_ptr = None, flags = 0\<rparr>"

lemma demo_valid: "snapshot_validate demo_snapshot = Inr ()" "header_validate demo_row = Inr ()"
  by (simp_all add: snapshot_validate_iff header_validate_iff demo_snapshot_def demo_row_def)

lemma demo_statuses_eval: "demo_statuses = [(1, Committed)]"
  by (simp add: demo_statuses_def status_operations status_table_new_def validate_terminal_status_def
      validate_terminal_lsn_evidence_def is_terminal_def status_def)

theorem visibility_formula_witness:
  "visible_in_snapshot demo_row demo_snapshot demo_statuses = Inr True"
  using visibility_formula [OF demo_valid, of demo_statuses]
  by (simp add: row_visible_def own_write_def own_delete_def committed_before_def demo_statuses_eval
      demo_snapshot_def demo_row_def status_def)

text \<open>An update closes the version it replaces and opens the new one at the same time and by the same transaction.\<close>

lemma close_version_Inr:
  "close_version h ts d = Inr old \<Longrightarrow> header_validate old = Inr () \<and> old = h\<lparr>end_ts := Some ts, deleter_tx_id := Some d\<rparr>"
  by (auto simp: close_version_def Let_def and_then_eq_Inr_iff)

lemma open_version_Inr:
  "open_version ts d p = Inr new \<Longrightarrow>
     header_validate new = Inr () \<and> begin_ts new = ts \<and> creator_tx_id new = d \<and> end_ts new = None"
  by (auto simp: open_version_def Let_def and_then_eq_Inr_iff)

text \<open>
  C12. An update swaps versions atomically. Let transaction \<open>d\<close> update a row: it closes an open version with
  \<open>close_version\<close> and opens the new one with \<open>open_version\<close> at the same timestamp. Every valid snapshot that
  saw the row before sees exactly one of the two versions, whatever the outcome of \<open>d\<close>, and no snapshot
  sees both; the new one is seen exactly if the write of \<open>d\<close> counts for the snapshot. The one exception is
  a snapshot that belongs to \<open>d\<close> itself, was taken before the update and is still used after \<open>d\<close> committed.
\<close>

theorem update_shows_one_version:
  assumes "snapshot_validate s = Inr ()" and "end_ts h = None"
    and "close_version h ts d = Inr old" and "open_version ts d p = Inr new"
    and "\<not> (transaction_id s = Some d \<and> status t d = Some Committed \<and> timestamp s < ts)"
  shows "\<exists>before after. visible_in_snapshot old s t = Inr before \<and> visible_in_snapshot new s t = Inr after \<and>
    \<not> (before \<and> after) \<and> (visible_in_snapshot h s t = Inr True \<longrightarrow> before \<or> after) \<and>
    (after \<longleftrightarrow> own_write s t d \<or> committed_before s t d ts)"
proof -
  note old = close_version_Inr [OF assms(3)] and new = open_version_Inr [OF assms(4)]
  have counts: "own_delete s t d ts \<or> committed_before s t d ts \<longleftrightarrow> own_write s t d \<or> committed_before s t d ts"
    using assms(5) by (auto simp: own_delete_def own_write_def not_less)
  have "row_visible new s t \<longleftrightarrow> own_write s t d \<or> committed_before s t d ts"
    using new by (simp add: row_visible_def)
  moreover have "row_visible old s t \<longleftrightarrow>
      (own_write s t (creator_tx_id h) \<or> committed_before s t (creator_tx_id h) (begin_ts h)) \<and>
      \<not> (own_write s t d \<or> committed_before s t d ts)"
    using old counts by (simp add: row_visible_def)
  moreover have "visible_in_snapshot h s t = Inr True \<Longrightarrow> row_visible h s t"
    using visible_in_snapshot_eq [OF assms(1)] by (auto simp: visible_in_snapshot_def and_then_eq_Inr_iff)
  then have "visible_in_snapshot h s t = Inr True \<Longrightarrow>
      own_write s t (creator_tx_id h) \<or> committed_before s t (creator_tx_id h) (begin_ts h)"
    by (simp add: row_visible_def)
  ultimately show ?thesis
    using visible_in_snapshot_eq [OF assms(1)] old new by auto
qed

definition demo_open :: mvcc_row_header where
  "demo_open = demo_row\<lparr>end_ts := None, deleter_tx_id := None\<rparr>"

lemma demo_update:
  "close_version demo_open ts d = Inr (demo_open\<lparr>end_ts := Some ts, deleter_tx_id := Some d\<rparr>)"
  "open_version ts d p = Inr \<lparr>begin_ts = ts, end_ts = None, creator_tx_id = d, deleter_tx_id = None,
     previous_version_ptr = p, flags = 0\<rparr>" if "10 < ts" "d \<noteq> 0"
  using that by (auto simp: close_version_def open_version_def Let_def header_validate_iff demo_open_def demo_row_def
      and_then_eq_Inr_iff)

theorem update_shows_one_version_witness:
  "\<exists>old new before after. close_version demo_open 20 3 = Inr old \<and> open_version 20 3 None = Inr new \<and>
     visible_in_snapshot old demo_snapshot demo_statuses = Inr before \<and>
     visible_in_snapshot new demo_snapshot demo_statuses = Inr after \<and> before \<noteq> after"
proof -
  have opened: "end_ts demo_open = None" by (simp add: demo_open_def)
  have "visible_in_snapshot demo_open demo_snapshot demo_statuses = Inr True"
    using visible_in_snapshot_eq [OF demo_valid(1), of demo_open demo_statuses] demo_valid(2)
    by (simp add: header_validate_iff row_visible_def own_write_def committed_before_def demo_statuses_eval
        demo_snapshot_def demo_open_def demo_row_def status_def)
  then show ?thesis
    using update_shows_one_version [OF demo_valid(1) opened demo_update(1) demo_update(2), of 20 3 demo_statuses None]
    by (auto simp: demo_update demo_snapshot_def)
qed

text \<open>In the exceptional case the snapshot shows both versions: its own committed delete is compared with its timestamp,
  its own committed write is not.\<close>

lemma own_committed_update_shows_both:
  "\<exists>old new. close_version demo_open 60 9 = Inr old \<and> open_version 60 9 None = Inr new \<and>
     visible_in_snapshot old demo_snapshot [(1, Committed), (9, Committed)] = Inr True \<and>
     visible_in_snapshot new demo_snapshot [(1, Committed), (9, Committed)] = Inr True"
proof -
  obtain old new where update: "close_version demo_open 60 9 = Inr old" "open_version 60 9 None = Inr new"
    by (simp add: demo_update)
  note rows = close_version_Inr [OF update(1)] open_version_Inr [OF update(2)]
  have "row_visible old demo_snapshot [(1, Committed), (9, Committed)]"
    using rows by (simp add: row_visible_def own_write_def own_delete_def committed_before_def demo_snapshot_def
        demo_open_def demo_row_def status_def)
  moreover have "row_visible new demo_snapshot [(1, Committed), (9, Committed)]"
    using rows by (simp add: row_visible_def own_write_def demo_snapshot_def status_def)
  ultimately show ?thesis using update rows visible_in_snapshot_eq [OF demo_valid(1)] by auto
qed

text \<open>
  C29. Repeatable reads repeat. Take a valid repeatable-read snapshot and a valid row version whose
  creator and deleter are other transactions that, when the snapshot is taken, are terminal, are
  listed as active, or write later than the snapshot. Then however the status table evolves, the
  visibility of the version in the snapshot does not change.
\<close>

theorem repeatable_read_repeats:
  assumes "snapshot_validate s = Inr ()" and "header_validate h = Inr ()"
    and "isolation_policy s = RepeatableRead" and "btree_inv t" and "status_step\<^sup>*\<^sup>* t t'"
    and "pinned s t (creator_tx_id h) (begin_ts h)"
    and "\<And>e d. end_ts h = Some e \<Longrightarrow> deleter_tx_id h = Some d \<Longrightarrow> pinned s t d e"
  shows "visible_in_snapshot h s t' = visible_in_snapshot h s t"
proof -
  have "row_visible h s t' = row_visible h s t"
    unfolding row_visible_def own_delete_def
    using committed_before_stable [OF assms(5,4,3)] own_pinned assms(6,7) by meson
  then show ?thesis by (simp add: visible_in_snapshot_eq [OF assms(1,2)])
qed

theorem repeatable_read_repeats_witness:
  "visible_in_snapshot demo_row demo_snapshot
      (fst (record_committed_after_durable_wal demo_statuses 3 8 9)) =
    visible_in_snapshot demo_row demo_snapshot demo_statuses"
  by (rule repeatable_read_repeats [OF demo_valid])
    (auto simp: demo_snapshot_def demo_row_def demo_statuses_eval pinned_def status_def is_terminal_def
      btree_inv_def intro!: r_into_rtranclp step_committed)

section \<open>Garbage collection\<close>

text \<open>
  C21. The registry's minimum. After any sequence of registrations and releases the cached minimum
  visible timestamp is the least begin timestamp of the active snapshots, or the largest integer if
  there is none, and a version is garbageable iff it is closed and ended before every active
  snapshot began.
\<close>

theorem registry_minimum_exact:
  assumes "registry_step\<^sup>*\<^sup>* registry_new r"
  shows "minimum_visible_timestamp r =
      (if registry_active r = [] then 18446744073709551615
       else Min (handle_begin_ts ` set (registry_active r))) \<and>
    (is_version_garbageable r e \<longleftrightarrow>
      e \<noteq> 18446744073709551615 \<and> (\<forall>h \<in> set (registry_active r). e < handle_begin_ts h))"
proof -
  have inv: "registry_inv r" using assms by (rule registry.reachable_inv)
  show ?thesis
  proof (cases "registry_active r = []")
    case True
    with inv show ?thesis
      by (auto simp: registry_inv_def minimum_visible_timestamp_def is_version_garbageable_def
          min_begin_ts_def MIN_TS_INF_def u64_less_max)
  next
    case False
    have "Min (handle_begin_ts ` set (registry_active r)) = min_begin_ts (registry_active r)"
      using min_begin_ts_mem [OF False] min_begin_ts_le by (intro Min_eqI) auto
    moreover have "e < min_begin_ts (registry_active r) \<longleftrightarrow>
        (\<forall>h \<in> set (registry_active r). e < handle_begin_ts h)"
      using min_begin_ts_mem [OF False] min_begin_ts_le [of _ "registry_active r"] by (metis less_le_trans)
    ultimately show ?thesis
      using False inv
      by (simp add: registry_inv_def minimum_visible_timestamp_def is_version_garbageable_def MIN_TS_INF_def)
  qed
qed

definition demo_registry :: snapshot_registry where
  "demo_registry =
     fst (register_snapshot registry_new \<lparr>handle_begin_ts = 50, handle_tx_id = 9\<rparr>)"

lemma demo_registry_reachable: "registry_step\<^sup>*\<^sup>* registry_new demo_registry"
  unfolding demo_registry_def by (rule r_into_rtranclp) (rule step_register)

lemma demo_registry_eval:
  "demo_registry = \<lparr>registry_active = [\<lparr>handle_begin_ts = 50, handle_tx_id = 9\<rparr>],
     cached_min_visible_ts = 50, registry_poisoned = False\<rparr>"
  by (simp add: demo_registry_def register_snapshot_def registry_new_def min_begin_ts_def Let_def)

theorem registry_minimum_exact_witness:
  "minimum_visible_timestamp demo_registry = 50 \<and> is_version_garbageable demo_registry 49 \<and>
   \<not> is_version_garbageable demo_registry 50"
  using registry_minimum_exact [OF demo_registry_reachable, of 49]
    registry_minimum_exact [OF demo_registry_reachable, of 50]
  by (simp add: demo_registry_eval)

text \<open>
  C11. What is reclaimed is invisible. If the collector calls a closed version reclaimable, the
  snapshot is registered with its timestamp, and the deletion counts for that snapshot (the deleter
  is durably committed and, for repeatable reads, was not active when the snapshot was taken), then
  the snapshot does not see the version.
\<close>

theorem reclaimed_version_invisible:
  assumes "registry_step\<^sup>*\<^sup>* registry_new r"
    and "snapshot_validate s = Inr ()" and "header_validate h = Inr ()"
    and "\<lparr>handle_begin_ts = timestamp s, handle_tx_id = tx\<rparr> \<in> set (registry_active r)"
    and "end_ts h = Some e" and "deleter_tx_id h = Some d"
    and "is_version_reclaimable r t (creator_tx_id h) e"
    and "status t d = Some Committed"
    and "isolation_policy s = RepeatableRead \<Longrightarrow> d \<notin> set (active_tx_ids s)"
  shows "visible_in_snapshot h s t = Inr False"
proof -
  consider (rolled_back) "status t (creator_tx_id h) = Some RolledBack"
    | (below) "e < minimum_visible_timestamp r"
    using assms(7) by (auto simp: is_version_reclaimable_def Let_def split: if_splits option.splits)
  then have "\<not> row_visible h s t"
  proof cases
    case rolled_back
    then show ?thesis by (simp add: row_visible_def own_write_def committed_before_def)
  next
    case below
    then have "e < timestamp s"
      using below_minimum [OF registry.reachable_inv [OF assms(1)] assms(4)] by simp
    with assms(8,9) have "committed_before s t d e" by (auto simp: committed_before_def)
    with assms(5,6) show ?thesis by (auto simp: row_visible_def)
  qed
  then show ?thesis by (simp add: visible_in_snapshot_eq [OF assms(2,3)])
qed

definition demo_old_row :: mvcc_row_header where
  "demo_old_row = \<lparr>begin_ts = 10, end_ts = Some 20, creator_tx_id = 1, deleter_tx_id = Some 2,
     previous_version_ptr = None, flags = 0\<rparr>"

theorem reclaimed_version_invisible_witness:
  "is_version_reclaimable demo_registry [(1, Committed), (2, Committed)] 1 20 \<and>
   visible_in_snapshot demo_old_row demo_snapshot [(1, Committed), (2, Committed)] = Inr False"
proof
  show "is_version_reclaimable demo_registry [(1, Committed), (2, Committed)] 1 20"
    by (simp add: is_version_reclaimable_def minimum_visible_timestamp_def demo_registry_eval status_def)
  then show "visible_in_snapshot demo_old_row demo_snapshot [(1, Committed), (2, Committed)] = Inr False"
    by (intro reclaimed_version_invisible [OF demo_registry_reachable demo_valid(1), where tx = 9 and e = 20 and d = 2])
      (simp_all add: demo_registry_eval demo_snapshot_def demo_old_row_def header_validate_iff status_def)
qed

text \<open>
  C40. The collector asks for the outcome of the creator only. A version whose deleter rolled back
  still is the live version of its row and is visible to a registered snapshot, and yet the
  collector calls it reclaimable.
\<close>

theorem visible_version_reclaimable:
  "\<lparr>handle_begin_ts = timestamp demo_snapshot, handle_tx_id = 9\<rparr> \<in> set (registry_active demo_registry) \<and>
   is_version_reclaimable demo_registry [(1, Committed), (2, RolledBack)] (creator_tx_id demo_old_row) 20 \<and>
   end_ts demo_old_row = Some 20 \<and>
   visible_in_snapshot demo_old_row demo_snapshot [(1, Committed), (2, RolledBack)] = Inr True"
proof -
  have valid: "header_validate demo_old_row = Inr ()"
    by (simp add: header_validate_iff demo_old_row_def)
  show ?thesis
    unfolding visible_in_snapshot_eq [OF demo_valid(1) valid]
    by (simp add: row_visible_def own_write_def own_delete_def committed_before_def status_def
        is_version_reclaimable_def minimum_visible_timestamp_def demo_registry_eval demo_snapshot_def
        demo_old_row_def)
qed

text \<open>
  The eligibility paths agree. For a candidate with non-zero ids and the registry's minimum, a
  mark is created iff the checker finds the corresponding version record eligible, iff the
  candidate passes the mark's own run-time check and its itemised check; the mark is the candidate
  itself and valid, and every eligible version is reclaimable for the collector.
\<close>

theorem eligibility_paths_agree:
  assumes "mark_version_id cand \<noteq> 0" and "mark_creator_tx_id cand \<noteq> 0"
  shows "let min_ts = minimum_visible_timestamp r; grace = grace_period_epochs c;
      eligible = mark_is_eligible cand t min_ts grace epoch;
      v = \<lparr>record_version_id = mark_version_id cand, record_creator_tx_id = mark_creator_tx_id cand,
           record_end_ts = mark_end_ts cand, marked_at_gc_epoch = mark_gc_epoch cand\<rparr> in
    from_version_if_eligible cand t min_ts grace epoch = Inr (if eligible then Some cand else None) \<and>
    snd (is_eligible t r c v epoch) = Inr eligible \<and>
    reclamation_fully_eligible (check_eligibility cand t min_ts grace epoch) = eligible \<and>
    (eligible \<longrightarrow> mark_validate cand = Inr () \<and>
       is_version_reclaimable r t (mark_creator_tx_id cand) (mark_end_ts cand))"
proof -
  have "x \<noteq> 18446744073709551615" if "x < y" for x y :: u64
    using that u64_less_max [of y] by auto
  then show ?thesis
    using assms
    by (auto simp: Let_def mark_is_eligible_def from_version_if_eligible_def reclamation_mark_new_def
        is_eligible_def check_all_criteria_def is_fully_eligible_def check_eligibility_def
        reclamation_fully_eligible_def mark_validate_def is_version_reclaimable_def not_le)
qed

definition demo_mark :: reclamation_mark where
  "demo_mark = \<lparr>mark_version_id = 5, mark_creator_tx_id = 1, mark_end_ts = 20, marked_at = 30, mark_gc_epoch = 2\<rparr>"

definition demo_checker :: version_eligibility_checker where
  "demo_checker = \<lparr>grace_period_epochs = 3, checker_stats = eligibility_stats_new\<rparr>"

theorem eligibility_paths_agree_witness:
  "from_version_if_eligible demo_mark [(1, Committed)] 50 3 5 = Inr (Some demo_mark) \<and>
   is_version_reclaimable demo_registry [(1, Committed)] 1 20"
  using eligibility_paths_agree [of demo_mark demo_registry demo_checker "[(1, Committed)]" 5]
  by (simp add: Let_def demo_mark_def demo_checker_def mark_is_eligible_def demo_registry_eval
      minimum_visible_timestamp_def status_def)

text \<open>
  The checker's total counts reasons, not versions: after one check of a version that fails
  two criteria, it reports two ineligible versions among one checked.
\<close>

theorem total_ineligible_counts_twice:
  "\<exists>c'. is_eligible [(1, InFlight)] demo_registry demo_checker
      \<lparr>record_version_id = 5, record_creator_tx_id = 1, record_end_ts = 60, marked_at_gc_epoch = 2\<rparr> 9 = (c', Inr False) \<and>
    versions_checked (checker_stats c') = 1 \<and> total_ineligible (checker_stats c') = 2"
  by (simp add: is_eligible_def check_all_criteria_def Let_def demo_checker_def demo_registry_eval
      minimum_visible_timestamp_def status_def is_fully_eligible_def update_stats_def count_if_def
      eligibility_stats_new_def total_ineligible_def)

text \<open>
  The scheduler runs a collection exactly when the visibility frontier moved since the last
  completed run, and a further tick at the same frontier changes nothing but the two counters
  of ticks and skipped ticks.
\<close>

theorem scheduler_tick:
  "\<exists>st' task' res. tick_once r st now task = (st', task', Inr res) \<and>
    (res \<noteq> None \<longleftrightarrow> minimum_visible_timestamp r \<noteq> last_min_visible_ts task) \<and>
    stats_runs st' = stats_runs st + (if res = None then 0 else 1) \<and>
    last_min_visible_ts task' = minimum_visible_timestamp r \<and>
    gc_runs_completed task' - gc_runs_completed task = gc_runs_started task' - gc_runs_started task \<and>
    sched_errors task' = sched_errors task \<and>
    tick_once r st' now' task' =
      (st', task'\<lparr>sched_ticks := sched_ticks task' + 1,
                  skipped_no_min_visible_change := skipped_no_min_visible_change task' + 1\<rparr>, Inr None)"
  by (simp add: tick_once_def run_gc_def record_run_def Let_def)

end
