(* ===== verification/Transaction_State.thy ===== *)
theory Transaction_State
  imports Mvcc_Status
begin

text \<open>
  The parts of one transaction's life that need no table: the state machine
  (\<open>andromeda-transaction/src/state.rs\<close>), the rules of two-phase locking (\<open>locking_protocol.rs\<close>), the id
  allocator (\<open>allocator.rs\<close>), and the traces of transitions with their validation (\<open>trace.rs\<close>,
  \<open>transition_sink.rs\<close> and \<open>andromeda-observability/src/transition_trace.rs\<close>). Log positions are words.
\<close>

section \<open>The state machine\<close>

datatype transaction_state =
    TxCreated | TxActive | TxCommitting | TxCommitted | TxFailed | TxRollingBack | TxRolledBack
  | TxPoisoned | TxDisposed

datatype transaction_event =
    Begin | CommitRequested | DurableWalFlushed | Fail | Poison | RollbackRequested
  | RollbackComplete | Dispose

definition state_apply :: "transaction_state \<Rightarrow> transaction_event \<Rightarrow> transaction_state andromeda_result" where
  "state_apply s event =
     (case (s, event) of
        (TxCreated, Begin) \<Rightarrow> Inr TxActive
      | (TxActive, CommitRequested) \<Rightarrow> Inr TxCommitting
      | (TxCommitting, DurableWalFlushed) \<Rightarrow> Inr TxCommitted
      | (TxCommitted, Dispose) \<Rightarrow> Inr TxDisposed
      | (TxActive, RollbackRequested) \<Rightarrow> Inr TxRollingBack
      | (TxActive, Fail) \<Rightarrow> Inr TxFailed
      | (TxFailed, RollbackRequested) \<Rightarrow> Inr TxRollingBack
      | (TxActive, Poison) \<Rightarrow> Inr TxPoisoned
      | (TxPoisoned, RollbackRequested) \<Rightarrow> Inr TxRollingBack
      | (TxRollingBack, RollbackComplete) \<Rightarrow> Inr TxRolledBack
      | (TxRolledBack, Dispose) \<Rightarrow> Inr TxDisposed
      | _ \<Rightarrow> Inl (transaction_error ''illegal transaction state transition''))"

record transaction_state_machine =
  machine_transaction_id :: u64
  machine_state :: transaction_state
  durable_commit_lsn :: "u64 option"
  durable_rollback_lsn :: "u64 option"

definition machine_new :: "u64 \<Rightarrow> transaction_state_machine" where
  "machine_new tx = \<lparr>machine_transaction_id = tx, machine_state = TxCreated,
                     durable_commit_lsn = None, durable_rollback_lsn = None\<rparr>"

definition machine_apply ::
    "transaction_state_machine \<Rightarrow> transaction_event \<Rightarrow> transaction_state_machine \<times> unit andromeda_result" where
  "machine_apply m event =
     or_return m (state_apply (machine_state m) event) (\<lambda>to.
       if to = TxCommitted \<and> durable_commit_lsn m = None
       then (m, Inl (transaction_error ''commit requires durable WAL LSN before visibility''))
       else if to = TxRolledBack \<and> durable_rollback_lsn m = None
       then (m, Inl (transaction_error ''rollback requires durable WAL LSN before completion''))
       else (m\<lparr>machine_state := to\<rparr>, Inr ()))"

definition machine_begin :: "transaction_state_machine \<Rightarrow> transaction_state_machine \<times> unit andromeda_result" where
  "machine_begin m = machine_apply m Begin"

definition machine_request_commit ::
    "transaction_state_machine \<Rightarrow> transaction_state_machine \<times> unit andromeda_result" where
  "machine_request_commit m = machine_apply m CommitRequested"

definition machine_request_rollback ::
    "transaction_state_machine \<Rightarrow> transaction_state_machine \<times> unit andromeda_result" where
  "machine_request_rollback m = machine_apply m RollbackRequested"

definition validate_terminal_durable_evidence :: "u64 \<Rightarrow> u64 \<Rightarrow> string \<Rightarrow> string \<Rightarrow> unit andromeda_result" where
  "validate_terminal_durable_evidence record_lsn durable_lsn record_name durable_name =
     (if record_lsn = 0 then Inl (transaction_error (record_name @ '' must not be zero''))
      else if durable_lsn = 0 then Inl (transaction_error (durable_name @ '' must not be zero''))
      else if durable_lsn < record_lsn
      then Inl (AndromedaError Storage
        (durable_name @ '' must cover '' @ record_name @ '': durable='' @ u64_string durable_lsn @
         '', record='' @ u64_string record_lsn))
      else Inr ())"

definition mark_durable_commit_lsn ::
    "transaction_state_machine \<Rightarrow> u64 \<Rightarrow> transaction_state_machine \<times> unit andromeda_result" where
  "mark_durable_commit_lsn m lsn =
     (if machine_state m \<noteq> TxCommitting
      then (m, Inl (transaction_error ''durable commit LSN can only be recorded while committing''))
      else if lsn = 0 then (m, Inl (transaction_error ''durable commit LSN must not be zero''))
      else (m\<lparr>durable_commit_lsn := Some lsn\<rparr>, Inr ()))"

definition mark_durable_rollback_lsn ::
    "transaction_state_machine \<Rightarrow> u64 \<Rightarrow> transaction_state_machine \<times> unit andromeda_result" where
  "mark_durable_rollback_lsn m lsn =
     (if machine_state m \<noteq> TxRollingBack
      then (m, Inl (transaction_error ''durable rollback LSN can only be recorded while rolling back''))
      else if lsn = 0 then (m, Inl (transaction_error ''durable rollback LSN must not be zero''))
      else (m\<lparr>durable_rollback_lsn := Some lsn\<rparr>, Inr ()))"

definition publish_visible_commit_with_durable_evidence ::
    "transaction_state_machine \<Rightarrow> u64 \<Rightarrow> u64 \<Rightarrow> transaction_state_machine \<times> unit andromeda_result" where
  "publish_visible_commit_with_durable_evidence m commit_record_lsn durable_lsn =
     or_return m
       (validate_terminal_durable_evidence commit_record_lsn durable_lsn
          ''commit record LSN'' ''durable commit LSN'')
       (\<lambda>_. case mark_durable_commit_lsn m durable_lsn of
               (m, marked) \<Rightarrow> or_return m marked (\<lambda>_. machine_apply m DurableWalFlushed))"

definition publish_visible_commit_after_durable_flush ::
    "transaction_state_machine \<Rightarrow> u64 \<Rightarrow> transaction_state_machine \<times> unit andromeda_result" where
  "publish_visible_commit_after_durable_flush m lsn = publish_visible_commit_with_durable_evidence m lsn lsn"

definition complete_rollback_with_durable_evidence ::
    "transaction_state_machine \<Rightarrow> u64 \<Rightarrow> u64 \<Rightarrow> transaction_state_machine \<times> unit andromeda_result" where
  "complete_rollback_with_durable_evidence m rollback_record_lsn durable_lsn =
     or_return m
       (validate_terminal_durable_evidence rollback_record_lsn durable_lsn
          ''rollback record LSN'' ''durable rollback LSN'')
       (\<lambda>_. case mark_durable_rollback_lsn m durable_lsn of
               (m, marked) \<Rightarrow> or_return m marked (\<lambda>_. machine_apply m RollbackComplete))"

definition complete_rollback_after_durable_flush ::
    "transaction_state_machine \<Rightarrow> u64 \<Rightarrow> transaction_state_machine \<times> unit andromeda_result" where
  "complete_rollback_after_durable_flush m lsn = complete_rollback_with_durable_evidence m lsn lsn"

section \<open>The id allocator\<close>

text \<open>
  The allocator is one atomic counter. Each of its updates is a single successful compare-and-swap,
  the step modelled here; the retry loop only repeats the check on a newer value.
\<close>

record transaction_id_allocator =
  last_issued :: u64

definition allocator_new :: transaction_id_allocator where
  "allocator_new = \<lparr>last_issued = 0\<rparr>"

definition allocator_with_floor :: "u64 \<Rightarrow> transaction_id_allocator" where
  "allocator_with_floor floor = \<lparr>last_issued = floor\<rparr>"

definition allocate :: "transaction_id_allocator \<Rightarrow> transaction_id_allocator \<times> u64 andromeda_result" where
  "allocate a =
     (case checked_add (last_issued a) 1 of
        None \<Rightarrow> (a, Inl (transaction_error ''transaction id allocator exhausted durable id space''))
      | Some issued \<Rightarrow>
          (let previous = last_issued a; a = a\<lparr>last_issued := issued\<rparr> in
           case checked_add previous 1 of
             None \<Rightarrow> (a, Inl (transaction_error ''transaction id allocator exhausted durable id space''))
           | Some next_id \<Rightarrow> (a, Inr next_id)))"

definition seed :: "transaction_id_allocator \<Rightarrow> u64 \<Rightarrow> transaction_id_allocator \<times> unit andromeda_result" where
  "seed a floor =
     (if floor < last_issued a
      then (a, Inl (transaction_error ''transaction id allocator floor cannot move backwards''))
      else (a\<lparr>last_issued := floor\<rparr>, Inr ()))"

section \<open>Two-phase locking\<close>

datatype two_phase_operation = OpAcquire | OpRelease | OpReleaseAll | OpNone

definition state_allows_acquire :: "transaction_state \<Rightarrow> bool" where
  "state_allows_acquire s \<longleftrightarrow> s = TxActive"

definition state_allows_release :: "transaction_state \<Rightarrow> bool" where
  "state_allows_release s \<longleftrightarrow> s = TxCommitting \<or> s = TxRollingBack"

definition state_allows_release_all :: "transaction_state \<Rightarrow> bool" where
  "state_allows_release_all s \<longleftrightarrow> s = TxCommitted \<or> s = TxRolledBack"

definition validate_no_acquire_after_release ::
    "transaction_state \<Rightarrow> transaction_state \<Rightarrow> unit andromeda_result" where
  "validate_no_acquire_after_release at_release to =
     (if (at_release = TxCommitting \<or> at_release = TxRollingBack) \<and> (to = TxActive \<or> to = TxCommitting)
      then Inl (transaction_error
        ''2PL violated: cannot acquire locks after entering shrinking phase (post-release)'')
      else Inr ())"

text \<open>The derived \<open>Debug\<close> text of a state.\<close>

fun state_debug :: "transaction_state \<Rightarrow> string" where
  "state_debug TxCreated = ''Created''"
| "state_debug TxActive = ''Active''"
| "state_debug TxCommitting = ''Committing''"
| "state_debug TxCommitted = ''Committed''"
| "state_debug TxFailed = ''Failed''"
| "state_debug TxRollingBack = ''RollingBack''"
| "state_debug TxRolledBack = ''RolledBack''"
| "state_debug TxPoisoned = ''Poisoned''"
| "state_debug TxDisposed = ''Disposed''"

fun validate_operation :: "transaction_state \<Rightarrow> two_phase_operation \<Rightarrow> unit andromeda_result" where
  "validate_operation s OpAcquire =
     (if \<not> state_allows_acquire s
      then Inl (transaction_error
        (''cannot acquire lock in '' @ state_debug s @ '' state; 2PL requires Active or Committing''))
      else Inr ())"
| "validate_operation s OpRelease =
     (if \<not> state_allows_release s
      then Inl (transaction_error
        (''cannot release lock in '' @ state_debug s @ '' state; 2PL requires Committing or RollingBack''))
      else Inr ())"
| "validate_operation s OpReleaseAll =
     (if \<not> state_allows_release_all s
      then Inl (transaction_error
        (''cannot release_all in '' @ state_debug s @ '' state; 2PL requires Committed or RolledBack''))
      else Inr ())"
| "validate_operation s OpNone = Inr ()"

section \<open>Transition traces\<close>

text \<open>Trace ids have 128 bits; phase and reason codes have 16.\<close>

abbreviation (input) "PHASE_CREATED \<equiv> 1 :: u16"
abbreviation (input) "PHASE_ACTIVE \<equiv> 2 :: u16"
abbreviation (input) "PHASE_COMMITTING \<equiv> 3 :: u16"
abbreviation (input) "PHASE_COMMITTED \<equiv> 4 :: u16"
abbreviation (input) "PHASE_FAILED \<equiv> 5 :: u16"
abbreviation (input) "PHASE_ROLLING_BACK \<equiv> 6 :: u16"
abbreviation (input) "PHASE_ROLLED_BACK \<equiv> 7 :: u16"
abbreviation (input) "PHASE_POISONED \<equiv> 8 :: u16"
abbreviation (input) "PHASE_DISPOSED \<equiv> 9 :: u16"

abbreviation (input) "NORMAL_PROGRESS \<equiv> 1 :: u16"
abbreviation (input) "DURABLE_WAL_FLUSH \<equiv> 2 :: u16"
abbreviation (input) "CALLER_ROLLBACK \<equiv> 3 :: u16"
abbreviation (input) "EXECUTOR_FAILURE \<equiv> 4 :: u16"
abbreviation (input) "POISON_REASON \<equiv> 5 :: u16"

fun transaction_phase_code :: "transaction_state \<Rightarrow> u16" where
  "transaction_phase_code TxCreated = PHASE_CREATED"
| "transaction_phase_code TxActive = PHASE_ACTIVE"
| "transaction_phase_code TxCommitting = PHASE_COMMITTING"
| "transaction_phase_code TxCommitted = PHASE_COMMITTED"
| "transaction_phase_code TxFailed = PHASE_FAILED"
| "transaction_phase_code TxRollingBack = PHASE_ROLLING_BACK"
| "transaction_phase_code TxRolledBack = PHASE_ROLLED_BACK"
| "transaction_phase_code TxPoisoned = PHASE_POISONED"
| "transaction_phase_code TxDisposed = PHASE_DISPOSED"

definition requires_durable_evidence :: "u16 \<Rightarrow> bool" where
  "requires_durable_evidence phase \<longleftrightarrow> phase = PHASE_COMMITTED \<or> phase = PHASE_ROLLED_BACK"

definition phase_is_known :: "u16 \<Rightarrow> bool" where
  "phase_is_known phase \<longleftrightarrow> 1 \<le> phase \<and> phase \<le> 15"

record transition_correlation =
  correlation_invocation_id :: "u64 option"
  correlation_request_id :: "u64 option"
  correlation_session_id :: "u64 option"

definition correlation_empty :: transition_correlation where
  "correlation_empty = \<lparr>correlation_invocation_id = None, correlation_request_id = None,
                        correlation_session_id = None\<rparr>"

record transaction_transition_trace =
  trace_id :: "128 word"
  trace_transaction_id :: u64
  trace_invocation_id :: "u64 option"
  trace_request_id :: "u64 option"
  trace_session_id :: "u64 option"
  prev_phase :: u16
  next_phase :: u16
  trace_durable_lsn :: "u64 option"
  reason_code :: u16
  trace_reason :: string

definition project_transition ::
    "transaction_state_machine \<Rightarrow> 128 word \<Rightarrow> transaction_state \<Rightarrow> transition_correlation \<Rightarrow> u16 \<Rightarrow> string \<Rightarrow>
     transaction_transition_trace" where
  "project_transition m tid previous_state correlation code reason =
     \<lparr>trace_id = tid,
      trace_transaction_id = machine_transaction_id m,
      trace_invocation_id = correlation_invocation_id correlation,
      trace_request_id = correlation_request_id correlation,
      trace_session_id = correlation_session_id correlation,
      prev_phase = transaction_phase_code previous_state,
      next_phase = transaction_phase_code (machine_state m),
      trace_durable_lsn =
        (if machine_state m = TxCommitted then durable_commit_lsn m
         else if machine_state m = TxRolledBack then durable_rollback_lsn m
         else None),
      reason_code = code,
      trace_reason = reason\<rparr>"

definition has_reason :: "transaction_transition_trace \<Rightarrow> bool" where
  "has_reason t \<longleftrightarrow> \<not> trim_is_empty (trace_reason t)"

definition proves_terminal_evidence :: "transaction_transition_trace \<Rightarrow> bool" where
  "proves_terminal_evidence t \<longleftrightarrow>
     (if \<not> requires_durable_evidence (next_phase t) then True
      else case trace_durable_lsn t of Some lsn \<Rightarrow> lsn \<noteq> 0 | None \<Rightarrow> False)"

definition contains_sensitive_marker :: "string \<Rightarrow> bool" where
  "contains_sensitive_marker s =
     (let lowered = to_ascii_lowercase s in
      list_ex (\<lambda>marker. str_contains lowered marker)
        [''-----begin'', ''private key'', ''private_key'', ''bearer '', ''credential='', ''password='',
         ''passwd='', ''secret='', ''token='', ''authorization:'', ''x-api-key'', ''payload:'',
         ''payload body''])"

definition observability_error :: "string \<Rightarrow> andromeda_error" where
  "observability_error message = AndromedaError Internal message"

definition trace_validate :: "transaction_transition_trace \<Rightarrow> unit andromeda_result" where
  "trace_validate t =
     (if trace_id t = 0
      then Inl (observability_error ''transaction transition trace_id must be non-zero'')
      else if trace_transaction_id t = 0
      then Inl (observability_error ''transaction transition transaction_id must be non-zero'')
      else if trace_invocation_id t = Some 0
      then Inl (observability_error ''transaction transition invocation_id must be non-zero when present'')
      else if trace_request_id t = Some 0
      then Inl (observability_error ''transaction transition request_id must be non-zero when present'')
      else if trace_session_id t = Some 0
      then Inl (observability_error ''transaction transition session_id must be non-zero when present'')
      else if \<not> phase_is_known (prev_phase t) \<or> \<not> phase_is_known (next_phase t)
      then Inl (observability_error ''transaction transition phase codes must reference a known phase'')
      else if \<not> has_reason t
      then Inl (observability_error ''transaction transition trace requires a non-empty reason'')
      else if \<not> proves_terminal_evidence t
      then Inl (observability_error (''transaction transition into a terminal commit/rollback phase '' @
                                     ''requires non-zero durable_lsn evidence''))
      else if trace_durable_lsn t = Some 0
      then Inl (observability_error ''transaction transition durable_lsn must be non-zero when present'')
      else if contains_sensitive_marker (trace_reason t)
      then Inl (observability_error (''transaction transition reason must not include secrets, key '' @
                                     ''material, tokens, passwords, or payload bodies''))
      else Inr ())"

text \<open>A sink ignores the traces or keeps them in order.\<close>

datatype transition_sink = NullTransitionSink | InMemoryTransitionSink "transaction_transition_trace list"

fun sink_record :: "transition_sink \<Rightarrow> transaction_transition_trace \<Rightarrow> transition_sink" where
  "sink_record NullTransitionSink trace = NullTransitionSink"
| "sink_record (InMemoryTransitionSink records) trace = InMemoryTransitionSink (records @ [trace])"

fun sink_snapshot :: "transition_sink \<Rightarrow> transaction_transition_trace list" where
  "sink_snapshot NullTransitionSink = []"
| "sink_snapshot (InMemoryTransitionSink records) = records"

fun sink_drain :: "transition_sink \<Rightarrow> transition_sink \<times> transaction_transition_trace list" where
  "sink_drain NullTransitionSink = (NullTransitionSink, [])"
| "sink_drain (InMemoryTransitionSink records) = (InMemoryTransitionSink [], records)"

end
