(* ===== verification/Savepoint.thy ===== *)
theory Savepoint
  imports Mvcc_Status
begin

text \<open>
  Savepoints of one transaction (\<open>andromeda-savepoint/src/stack.rs\<close>) and the write set that savepoint
  rollback undoes (\<open>andromeda-savepoint/src/write_set.rs\<close>). Text is over the code points below 256.
\<close>

section \<open>The savepoint stack\<close>

record savepoint_rollback_marker =
  marker_savepoint_id :: u64
  rollback_ordinal :: u64

definition savepoint_id_validate :: "u64 \<Rightarrow> unit andromeda_result" where
  "savepoint_id_validate i =
     (if \<not> (i \<noteq> 0 \<and> i \<ge> 1) then Inl (transaction_error ''savepoint id must be non-zero'') else Inr ())"

definition savepoint_id_try_new :: "u64 \<Rightarrow> u64 andromeda_result" where
  "savepoint_id_try_new i = and_then (savepoint_id_validate i) (\<lambda>_. Inr i)"

definition rollback_marker_new :: "u64 \<Rightarrow> u64 \<Rightarrow> savepoint_rollback_marker andromeda_result" where
  "rollback_marker_new i ordinal =
     and_then (savepoint_id_validate i)
       (\<lambda>_. Inr \<lparr>marker_savepoint_id = i, rollback_ordinal = ordinal\<rparr>)"

definition rollback_marker_validate :: "savepoint_rollback_marker \<Rightarrow> unit andromeda_result" where
  "rollback_marker_validate m = savepoint_id_validate (marker_savepoint_id m)"

record savepoint =
  savepoint_id :: u64
  savepoint_name :: string
  rollback_marker :: savepoint_rollback_marker

record savepoint_rollback_evidence =
  rollback_target :: savepoint
  discarded_descendants :: "savepoint list"

record savepoint_release_evidence =
  released_savepoints :: "savepoint list"

record savepoint_stack =
  next_savepoint_id :: u64
  savepoints_active :: "savepoint list"

definition savepoint_stack_new :: savepoint_stack where
  "savepoint_stack_new = \<lparr>next_savepoint_id = 1, savepoints_active = []\<rparr>"

definition validate_name :: "string \<Rightarrow> unit andromeda_result" where
  "validate_name name =
     (if trim_is_empty name then Inl (transaction_error ''savepoint name must not be empty'') else Inr ())"

text \<open>The id allocation precedes the marker construction, so the failing branches differ in the state.\<close>

definition create_with_rollback_ordinal ::
    "savepoint_stack \<Rightarrow> string \<Rightarrow> u64 \<Rightarrow> savepoint_stack \<times> savepoint andromeda_result" where
  "create_with_rollback_ordinal s name ordinal =
     (case validate_name name of
        Inl e \<Rightarrow> (s, Inl e)
      | Inr _ \<Rightarrow>
          if list_ex (\<lambda>sp. savepoint_name sp = name) (savepoints_active s)
          then (s, Inl (transaction_error ''savepoint name must be unique within a transaction''))
          else
            (case savepoint_id_try_new (next_savepoint_id s) of
               Inl e \<Rightarrow> (s, Inl e)
             | Inr i \<Rightarrow>
                 (case checked_add (next_savepoint_id s) 1 of
                    None \<Rightarrow> (s, Inl (transaction_error ''savepoint id allocator overflowed''))
                  | Some next \<Rightarrow>
                      (let s = s\<lparr>next_savepoint_id := next\<rparr> in
                       case rollback_marker_new i ordinal of
                         Inl e \<Rightarrow> (s, Inl e)
                       | Inr marker \<Rightarrow>
                           (let sp = \<lparr>savepoint_id = i, savepoint_name = name, rollback_marker = marker\<rparr> in
                            (s\<lparr>savepoints_active := savepoints_active s @ [sp]\<rparr>, Inr sp))))))"

definition savepoint_create :: "savepoint_stack \<Rightarrow> string \<Rightarrow> savepoint_stack \<times> savepoint andromeda_result" where
  "savepoint_create s name = create_with_rollback_ordinal s name (next_savepoint_id s)"

definition find_index :: "savepoint_stack \<Rightarrow> string \<Rightarrow> nat andromeda_result" where
  "find_index s name =
     (case position (\<lambda>sp. savepoint_name sp = name) (savepoints_active s) of
        Some i \<Rightarrow> Inr i
      | None \<Rightarrow> Inl (transaction_error ''savepoint is not active in this transaction''))"

definition savepoint_release ::
    "savepoint_stack \<Rightarrow> string \<Rightarrow> savepoint_stack \<times> savepoint_release_evidence andromeda_result" where
  "savepoint_release s name =
     (case and_then (validate_name name) (\<lambda>_. find_index s name) of
        Inl e \<Rightarrow> (s, Inl e)
      | Inr i \<Rightarrow>
          (s\<lparr>savepoints_active := take i (savepoints_active s)\<rparr>,
           Inr \<lparr>released_savepoints = drop i (savepoints_active s)\<rparr>))"

definition savepoint_rollback_to ::
    "savepoint_stack \<Rightarrow> string \<Rightarrow> savepoint_stack \<times> savepoint_rollback_evidence andromeda_result" where
  "savepoint_rollback_to s name =
     (case and_then (validate_name name) (\<lambda>_. find_index s name) of
        Inl e \<Rightarrow> (s, Inl e)
      | Inr i \<Rightarrow>
          (s\<lparr>savepoints_active := take (i + 1) (savepoints_active s)\<rparr>,
           Inr \<lparr>rollback_target = savepoints_active s ! i,
                discarded_descendants = drop (i + 1) (savepoints_active s)\<rparr>))"

definition savepoint_clear :: "savepoint_stack \<Rightarrow> savepoint_stack" where
  "savepoint_clear s = s\<lparr>savepoints_active := []\<rparr>"

definition savepoint_depth_of :: "savepoint_stack \<Rightarrow> usize" where
  "savepoint_depth_of s = length (savepoints_active s)"

section \<open>The write set\<close>

definition MAX_WRITE_SET_RESOURCE_ID_BYTES :: nat where
  "MAX_WRITE_SET_RESOURCE_ID_BYTES = 1024"

definition MAX_WRITE_SET_OPERATION_KIND_BYTES :: nat where
  "MAX_WRITE_SET_OPERATION_KIND_BYTES = 128"

datatype write_set_operation_kind = WsInsert | WsUpdate | WsDelete | LockEvidence | WsCustom string

datatype write_set_resource_id = ResourceText string | ResourceBytes "u8 list"

text \<open>Length of the UTF-8 encoding of a text over code points below 256.\<close>

definition utf8_length :: "string \<Rightarrow> nat" where
  "utf8_length s = sum_list (map (\<lambda>c. if (of_char c :: nat) < 128 then 1 else 2) s)"

definition validate_non_empty_bounded :: "nat \<Rightarrow> nat \<Rightarrow> string \<Rightarrow> string \<Rightarrow> unit andromeda_result" where
  "validate_non_empty_bounded len max_len empty_message oversize_message =
     (if len = 0 then Inl (transaction_error empty_message)
      else if len > max_len then Inl (transaction_error oversize_message)
      else Inr ())"

fun resource_encoded_len :: "write_set_resource_id \<Rightarrow> nat" where
  "resource_encoded_len (ResourceText s) = utf8_length s"
| "resource_encoded_len (ResourceBytes bs) = length bs"

definition validate_resource_id :: "write_set_resource_id \<Rightarrow> unit andromeda_result" where
  "validate_resource_id r =
     validate_non_empty_bounded (resource_encoded_len r) MAX_WRITE_SET_RESOURCE_ID_BYTES
       ''write-set resource id must not be empty'' ''write-set resource id exceeds maximum size''"

type_synonym write_set_image = "u8 list"

fun validate_operation_kind :: "write_set_operation_kind \<Rightarrow> unit andromeda_result" where
  "validate_operation_kind (WsCustom value) =
     validate_non_empty_bounded (utf8_length value) MAX_WRITE_SET_OPERATION_KIND_BYTES
       ''custom write-set operation kind must not be empty''
       ''custom write-set operation kind exceeds maximum size''"
| "validate_operation_kind _ = Inr ()"

record write_set_entry =
  entry_ordinal :: u64
  operation_kind :: write_set_operation_kind
  resource_id :: write_set_resource_id
  before_image :: "write_set_image option"
  after_image :: "write_set_image option"

record tx_write_set =
  next_ordinal :: u64
  write_entries :: "write_set_entry list"

definition tx_write_set_new :: tx_write_set where
  "tx_write_set_new = \<lparr>next_ordinal = 1, write_entries = []\<rparr>"

definition record_operation ::
    "tx_write_set \<Rightarrow> write_set_operation_kind \<Rightarrow> write_set_resource_id \<Rightarrow> write_set_image option \<Rightarrow>
     write_set_image option \<Rightarrow> tx_write_set \<times> write_set_entry andromeda_result" where
  "record_operation ws kind resource before after =
     (case and_then (validate_operation_kind kind) (\<lambda>_. validate_resource_id resource) of
        Inl e \<Rightarrow> (ws, Inl e)
      | Inr _ \<Rightarrow>
          (case checked_add (next_ordinal ws) 1 of
             None \<Rightarrow> (ws, Inl (transaction_error ''write-set ordinal allocator overflowed''))
           | Some next \<Rightarrow>
               (let entry = \<lparr>entry_ordinal = next_ordinal ws, operation_kind = kind,
                             resource_id = resource, before_image = before, after_image = after\<rparr> in
                (ws\<lparr>next_ordinal := next, write_entries := write_entries ws @ [entry]\<rparr>, Inr entry))))"

definition write_set_rollback_ordinal :: "tx_write_set \<Rightarrow> u64" where
  "write_set_rollback_ordinal ws =
     (if write_entries ws = [] then 0 else entry_ordinal (last (write_entries ws)))"

definition savepoint_marker :: "tx_write_set \<Rightarrow> u64 \<Rightarrow> savepoint_rollback_marker andromeda_result" where
  "savepoint_marker ws i = rollback_marker_new i (write_set_rollback_ordinal ws)"

definition write_set_rollback_to ::
    "tx_write_set \<Rightarrow> savepoint_rollback_marker \<Rightarrow> tx_write_set \<times> write_set_entry list andromeda_result" where
  "write_set_rollback_to ws marker =
     (case rollback_marker_validate marker of
        Inl e \<Rightarrow> (ws, Inl e)
      | Inr _ \<Rightarrow>
          if rollback_ordinal marker > write_set_rollback_ordinal ws
          then (ws, Inl (transaction_error ''savepoint rollback marker is ahead of the write-set''))
          else
            (let i = (case position (\<lambda>e. entry_ordinal e > rollback_ordinal marker) (write_entries ws) of
                        Some i \<Rightarrow> i | None \<Rightarrow> length (write_entries ws));
                 drained = drop i (write_entries ws);
                 kept = filter (\<lambda>e. operation_kind e = LockEvidence) drained;
                 undo = filter (\<lambda>e. operation_kind e \<noteq> LockEvidence) drained
             in (ws\<lparr>write_entries := take i (write_entries ws) @ kept\<rparr>, Inr (rev undo))))"

definition write_set_release :: "tx_write_set \<Rightarrow> savepoint_rollback_marker \<Rightarrow> unit andromeda_result" where
  "write_set_release ws marker = rollback_marker_validate marker"

definition full_rollback :: "tx_write_set \<Rightarrow> tx_write_set \<times> write_set_entry list" where
  "full_rollback ws = (ws\<lparr>write_entries := []\<rparr>, rev (write_entries ws))"

end
