(* ===== verification/Transaction_Manager.thy ===== *)
theory Transaction_Manager
  imports Transaction_State Savepoint Lock_Manager
begin

text \<open>
  The transaction manager (\<open>andromeda-transaction/src/manager/manager_core.rs\<close>), its records
  (\<open>record.rs\<close>) and the lock coordinator (\<open>lock_coordinator.rs\<close>) that guards the lock manager with it.
  A call takes the mutex once; the id allocator lies outside the mutex and the trace is handed
  to the sink after the mutex is released.
\<close>

section \<open>State\<close>

record transaction_manager =
  allocator :: transaction_id_allocator
  live :: "(u64 \<times> transaction_state_machine) list"
  tx_savepoints :: "(u64 \<times> savepoint_stack) list"
  tx_status :: status_table
  correlations :: "(u64 \<times> transition_correlation \<times> 128 word) list"
  sink :: transition_sink
  manager_poisoned :: bool

definition transaction_manager_new :: transaction_manager where
  "transaction_manager_new =
     \<lparr>allocator = allocator_new, live = [], tx_savepoints = [], tx_status = status_table_new,
      correlations = [], sink = NullTransitionSink, manager_poisoned = False\<rparr>"

definition with_recovered_floor :: "u64 \<Rightarrow> transaction_manager" where
  "with_recovered_floor floor =
     \<lparr>allocator = allocator_with_floor floor, live = [], tx_savepoints = [], tx_status = status_table_new,
      correlations = [], sink = NullTransitionSink, manager_poisoned = False\<rparr>"

definition with_transition_sink :: "transaction_manager \<Rightarrow> transition_sink \<Rightarrow> transaction_manager" where
  "with_transition_sink m s = m\<lparr>sink := s\<rparr>"

definition seed_allocator :: "transaction_manager \<Rightarrow> u64 \<Rightarrow> transaction_manager \<times> unit andromeda_result" where
  "seed_allocator m floor =
     (case seed (allocator m) floor of (a, result) \<Rightarrow> (m\<lparr>allocator := a\<rparr>, result))"

section \<open>Guards\<close>

definition manager_lock :: "transaction_manager \<Rightarrow> unit andromeda_result" where
  "manager_lock m =
     (if manager_poisoned m then Inl (transaction_error ''transaction manager mutex was poisoned'') else Inr ())"

definition unknown_transaction :: andromeda_error where
  "unknown_transaction = transaction_error ''transaction id is not registered with the manager''"

definition validate_non_zero_transaction_id :: "u64 \<Rightarrow> unit andromeda_result" where
  "validate_non_zero_transaction_id tx =
     (if tx = 0 then Inl (transaction_error ''transaction id must not be zero'') else Inr ())"

definition machine_mut :: "transaction_manager \<Rightarrow> u64 \<Rightarrow> transaction_state_machine andromeda_result" where
  "machine_mut m tx = (case map_of (live m) tx of Some machine \<Rightarrow> Inr machine | None \<Rightarrow> Inl unknown_transaction)"

definition known_status :: "transaction_manager \<Rightarrow> u64 \<Rightarrow> transaction_status andromeda_result" where
  "known_status m tx = (case status (tx_status m) tx of Some st \<Rightarrow> Inr st | None \<Rightarrow> Inl unknown_transaction)"

definition get_correlation :: "transaction_manager \<Rightarrow> u64 \<Rightarrow> transition_correlation \<times> 128 word" where
  "get_correlation m tx =
     (case map_of (correlations m) tx of Some c \<Rightarrow> c | None \<Rightarrow> (correlation_empty, ucast tx))"

definition savepoints_mut :: "transaction_manager \<Rightarrow> u64 \<Rightarrow> savepoint_stack andromeda_result" where
  "savepoints_mut m tx =
     (case map_of (tx_savepoints m) tx of Some stack \<Rightarrow> Inr stack | None \<Rightarrow> Inl unknown_transaction)"

definition require_active_in_flight :: "transaction_manager \<Rightarrow> u64 \<Rightarrow> string \<Rightarrow> unit andromeda_result" where
  "require_active_in_flight m tx operation =
     and_then (validate_non_zero_transaction_id tx) (\<lambda>_.
     and_then (machine_mut m tx) (\<lambda>machine.
     and_then (known_status m tx) (\<lambda>st.
       if machine_state machine \<noteq> TxActive \<or> st \<noteq> InFlight
       then Inl (transaction_error (operation @ '' requires an active in-flight transaction''))
       else Inr ())))"

definition require_known_transaction_in_inner :: "transaction_manager \<Rightarrow> u64 \<Rightarrow> unit andromeda_result" where
  "require_known_transaction_in_inner m tx =
     and_then (validate_non_zero_transaction_id tx) (\<lambda>_.
       if status (tx_status m) tx = None then Inl unknown_transaction else Inr ())"

definition require_lock_acquire_transaction :: "transaction_manager \<Rightarrow> u64 \<Rightarrow> unit andromeda_result" where
  "require_lock_acquire_transaction m tx =
     and_then (validate_non_zero_transaction_id tx) (\<lambda>_.
     and_then (manager_lock m) (\<lambda>_.
     and_then (machine_mut m tx) (\<lambda>machine.
     and_then (known_status m tx) (\<lambda>st.
       if machine_state machine \<noteq> TxActive \<or> st \<noteq> InFlight
       then Inl (transaction_error ''lock acquisition requires an active in-flight transaction'')
       else validate_operation (machine_state machine) OpAcquire))))"

definition require_known_transaction :: "transaction_manager \<Rightarrow> u64 \<Rightarrow> unit andromeda_result" where
  "require_known_transaction m tx =
     and_then (validate_non_zero_transaction_id tx) (\<lambda>_.
     and_then (manager_lock m) (\<lambda>_.
     and_then (machine_mut m tx) (\<lambda>machine.
     and_then (known_status m tx) (\<lambda>st.
       if st \<noteq> InFlight
       then Inl (transaction_error
         ''single-resource lock release requires an in-flight shrinking transaction'')
       else validate_operation (machine_state machine) OpRelease))))"

definition require_terminal_cleanup_transaction :: "transaction_manager \<Rightarrow> u64 \<Rightarrow> unit andromeda_result" where
  "require_terminal_cleanup_transaction m tx =
     and_then (validate_non_zero_transaction_id tx) (\<lambda>_.
     and_then (manager_lock m) (\<lambda>_.
       case status (tx_status m) tx of
         Some InFlight \<Rightarrow> Inl (transaction_error
           ''release_all locks requires committed or rolled-back transaction evidence'')
       | Some _ \<Rightarrow> Inr ()
       | None \<Rightarrow> Inl unknown_transaction))"

section \<open>Lifecycle\<close>

text \<open>The trace of a transition that succeeded, handed to the sink.\<close>

definition emit ::
    "transaction_manager \<Rightarrow> transaction_state_machine \<Rightarrow> transaction_state \<Rightarrow>
     transition_correlation \<times> 128 word \<Rightarrow> u16 \<Rightarrow> string \<Rightarrow> transaction_manager" where
  "emit m machine previous_state correlation code reason =
     m\<lparr>sink := sink_record (sink m)
         (project_transition machine (snd correlation) previous_state (fst correlation) code reason)\<rparr>"

definition set_machine :: "transaction_manager \<Rightarrow> u64 \<Rightarrow> transaction_state_machine \<Rightarrow> transaction_manager" where
  "set_machine m tx machine = m\<lparr>live := AList.update tx machine (live m)\<rparr>"

definition clear_savepoints :: "transaction_manager \<Rightarrow> u64 \<Rightarrow> transaction_manager" where
  "clear_savepoints m tx =
     (case map_of (tx_savepoints m) tx of
        Some stack \<Rightarrow> m\<lparr>tx_savepoints := AList.update tx (savepoint_clear stack) (tx_savepoints m)\<rparr>
      | None \<Rightarrow> m)"

definition begin_inner ::
    "transaction_manager \<Rightarrow> u64 \<Rightarrow> transition_correlation \<Rightarrow> 128 word \<Rightarrow>
     transaction_manager \<times> u64 andromeda_result" where
  "begin_inner m tx correlation tid =
     or_return m (manager_lock m) (\<lambda>_.
       if map_of (live m) tx \<noteq> None
       then (m, Inl (transaction_error ''transaction id allocator returned a live id; allocator corrupted''))
       else
         (case machine_begin (machine_new tx) of (machine, began) \<Rightarrow>
            or_return m began (\<lambda>_.
              let m = set_machine m tx machine;
                  m = m\<lparr>tx_savepoints := AList.update tx savepoint_stack_new (tx_savepoints m)\<rparr> in
              case record_status (tx_status m) tx InFlight of (t, recorded) \<Rightarrow>
                let m = m\<lparr>tx_status := t\<rparr> in
                or_return m recorded (\<lambda>_.
                  let m = m\<lparr>correlations := AList.update tx (correlation, tid) (correlations m)\<rparr> in
                  (emit m machine TxCreated (correlation, tid) NORMAL_PROGRESS ''transaction began'', Inr tx)))))"

definition begin_with_correlation ::
    "transaction_manager \<Rightarrow> transition_correlation \<Rightarrow> 128 word \<Rightarrow>
     transaction_manager \<times> u64 andromeda_result" where
  "begin_with_correlation m correlation tid =
     (case allocate (allocator m) of (a, allocated) \<Rightarrow>
        let m = m\<lparr>allocator := a\<rparr> in or_return m allocated (\<lambda>tx. begin_inner m tx correlation tid))"

definition begin_transaction :: "transaction_manager \<Rightarrow> transaction_manager \<times> u64 andromeda_result" where
  "begin_transaction m =
     (case allocate (allocator m) of (a, allocated) \<Rightarrow>
        let m = m\<lparr>allocator := a\<rparr> in
        or_return m allocated (\<lambda>tx. begin_inner m tx correlation_empty (ucast tx)))"

definition request_commit :: "transaction_manager \<Rightarrow> u64 \<Rightarrow> transaction_manager \<times> unit andromeda_result" where
  "request_commit m tx =
     or_return m (and_then (manager_lock m) (\<lambda>_. machine_mut m tx)) (\<lambda>machine.
       case machine_request_commit machine of (machine', moved) \<Rightarrow>
         let m = set_machine m tx machine' in
         or_return m moved (\<lambda>_.
           let correlation = get_correlation m tx; m = clear_savepoints m tx in
           (emit m machine' (machine_state machine) correlation NORMAL_PROGRESS ''commit requested'', Inr ())))"

definition commit_durable_after_wal_record ::
    "transaction_manager \<Rightarrow> u64 \<Rightarrow> u64 \<Rightarrow> u64 \<Rightarrow> transaction_manager \<times> unit andromeda_result" where
  "commit_durable_after_wal_record m tx commit_record_lsn durable_lsn =
     or_return m (and_then (manager_lock m) (\<lambda>_. machine_mut m tx)) (\<lambda>machine.
       case publish_visible_commit_with_durable_evidence machine commit_record_lsn durable_lsn of
         (machine', published) \<Rightarrow>
           let m = set_machine m tx machine' in
           or_return m published (\<lambda>_.
             case record_committed_after_durable_wal (tx_status m) tx commit_record_lsn durable_lsn of
               (t, recorded) \<Rightarrow>
                 let m = m\<lparr>tx_status := t\<rparr> in
                 or_return m recorded (\<lambda>_.
                   (emit m machine' (machine_state machine) (get_correlation m tx) DURABLE_WAL_FLUSH
                      ''commit durable after WAL flush'', Inr ()))))"

definition commit_durable :: "transaction_manager \<Rightarrow> u64 \<Rightarrow> u64 \<Rightarrow> transaction_manager \<times> unit andromeda_result" where
  "commit_durable m tx durable_lsn = commit_durable_after_wal_record m tx durable_lsn durable_lsn"

definition request_rollback :: "transaction_manager \<Rightarrow> u64 \<Rightarrow> transaction_manager \<times> unit andromeda_result" where
  "request_rollback m tx =
     or_return m (and_then (manager_lock m) (\<lambda>_. machine_mut m tx)) (\<lambda>machine.
       case machine_request_rollback machine of (machine', moved) \<Rightarrow>
         let m = set_machine m tx machine' in
         or_return m moved (\<lambda>_.
           let correlation = get_correlation m tx; m = clear_savepoints m tx;
               code = (if machine_state machine = TxFailed then EXECUTOR_FAILURE else CALLER_ROLLBACK) in
           (emit m machine' (machine_state machine) correlation code ''rollback requested'', Inr ())))"

definition rollback_durable_after_wal_record ::
    "transaction_manager \<Rightarrow> u64 \<Rightarrow> u64 \<Rightarrow> u64 \<Rightarrow> transaction_manager \<times> unit andromeda_result" where
  "rollback_durable_after_wal_record m tx rollback_record_lsn durable_lsn =
     or_return m (and_then (manager_lock m) (\<lambda>_. machine_mut m tx)) (\<lambda>machine.
       case complete_rollback_with_durable_evidence machine rollback_record_lsn durable_lsn of
         (machine', completed) \<Rightarrow>
           let m = set_machine m tx machine' in
           or_return m completed (\<lambda>_.
             case record_rolled_back_after_durable_wal (tx_status m) tx rollback_record_lsn durable_lsn of
               (t, recorded) \<Rightarrow>
                 let m = m\<lparr>tx_status := t\<rparr> in
                 or_return m recorded (\<lambda>_.
                   (emit m machine' (machine_state machine) (get_correlation m tx) DURABLE_WAL_FLUSH
                      ''rollback durable after WAL flush'', Inr ()))))"

definition rollback_durable :: "transaction_manager \<Rightarrow> u64 \<Rightarrow> u64 \<Rightarrow> transaction_manager \<times> unit andromeda_result" where
  "rollback_durable m tx durable_lsn = rollback_durable_after_wal_record m tx durable_lsn durable_lsn"

definition poison_transaction :: "transaction_manager \<Rightarrow> u64 \<Rightarrow> transaction_manager \<times> unit andromeda_result" where
  "poison_transaction m tx =
     or_return m (and_then (manager_lock m) (\<lambda>_. machine_mut m tx)) (\<lambda>machine.
       case machine_apply machine Poison of (machine', moved) \<Rightarrow>
         let m = set_machine m tx machine' in
         or_return m moved (\<lambda>_.
           (emit m machine' (machine_state machine) (get_correlation m tx) POISON_REASON
              ''transaction poisoned'', Inr ())))"

definition fail_transaction :: "transaction_manager \<Rightarrow> u64 \<Rightarrow> transaction_manager \<times> unit andromeda_result" where
  "fail_transaction m tx =
     or_return m (and_then (manager_lock m) (\<lambda>_. machine_mut m tx)) (\<lambda>machine.
       case machine_apply machine Fail of (machine', moved) \<Rightarrow>
         let m = set_machine m tx machine' in
         or_return m moved (\<lambda>_.
           (emit m machine' (machine_state machine) (get_correlation m tx) EXECUTOR_FAILURE
              ''transaction failed'', Inr ())))"

definition dispose :: "transaction_manager \<Rightarrow> u64 \<Rightarrow> transaction_manager \<times> unit andromeda_result" where
  "dispose m tx =
     or_return m (and_then (manager_lock m) (\<lambda>_. machine_mut m tx)) (\<lambda>machine.
       case machine_apply machine Dispose of (machine', moved) \<Rightarrow>
         let m = set_machine m tx machine' in
         or_return m moved (\<lambda>_.
           if machine_state machine' \<noteq> TxDisposed
           then (m, Inl (transaction_error ''transaction dispose did not reach Disposed state''))
           else
             let correlation = get_correlation m tx;
                 m = m\<lparr>correlations := AList.delete tx (correlations m),
                       live := AList.delete tx (live m),
                       tx_savepoints := AList.delete tx (tx_savepoints m)\<rparr> in
             (emit m machine' (machine_state machine) correlation NORMAL_PROGRESS ''transaction disposed'', Inr ())))"

section \<open>Savepoints of a transaction\<close>

definition on_stack ::
    "transaction_manager \<Rightarrow> u64 \<Rightarrow> string \<Rightarrow> (savepoint_stack \<Rightarrow> savepoint_stack \<times> 'a andromeda_result) \<Rightarrow>
     transaction_manager \<times> 'a andromeda_result" where
  "on_stack m tx operation f =
     or_return m (and_then (manager_lock m) (\<lambda>_. and_then (require_active_in_flight m tx operation)
                    (\<lambda>_. savepoints_mut m tx)))
       (\<lambda>stack. case f stack of (stack', result) \<Rightarrow>
          (m\<lparr>tx_savepoints := AList.update tx stack' (tx_savepoints m)\<rparr>, result))"

definition create_savepoint ::
    "transaction_manager \<Rightarrow> u64 \<Rightarrow> string \<Rightarrow> transaction_manager \<times> savepoint andromeda_result" where
  "create_savepoint m tx name = on_stack m tx ''savepoint creation'' (\<lambda>stack. savepoint_create stack name)"

definition release_savepoint ::
    "transaction_manager \<Rightarrow> u64 \<Rightarrow> string \<Rightarrow> transaction_manager \<times> savepoint_release_evidence andromeda_result" where
  "release_savepoint m tx name = on_stack m tx ''savepoint release'' (\<lambda>stack. savepoint_release stack name)"

definition rollback_to_savepoint ::
    "transaction_manager \<Rightarrow> u64 \<Rightarrow> string \<Rightarrow> transaction_manager \<times> savepoint_rollback_evidence andromeda_result" where
  "rollback_to_savepoint m tx name = on_stack m tx ''savepoint rollback'' (\<lambda>stack. savepoint_rollback_to stack name)"

definition depth_of :: "transaction_manager \<Rightarrow> u64 \<Rightarrow> usize" where
  "depth_of m tx = (case map_of (tx_savepoints m) tx of Some stack \<Rightarrow> savepoint_depth_of stack | None \<Rightarrow> 0)"

section \<open>Inspection\<close>

record transaction_record =
  record_state_machine :: transaction_state_machine
  record_status_value :: transaction_status
  record_savepoint_depth :: usize

definition transaction_snapshot :: "transaction_manager \<Rightarrow> u64 \<Rightarrow> transaction_record option andromeda_result" where
  "transaction_snapshot m tx =
     and_then (manager_lock m) (\<lambda>_.
       case (map_of (live m) tx, status (tx_status m) tx) of
         (Some machine, Some st) \<Rightarrow>
           Inr (Some \<lparr>record_state_machine = machine, record_status_value = st,
                      record_savepoint_depth = depth_of m tx\<rparr>)
       | _ \<Rightarrow> Inr None)"

section \<open>The lock coordinator\<close>

text \<open>Each operation checks the transaction manager first and then calls the lock manager.\<close>

definition coordinator_acquire ::
    "transaction_manager \<Rightarrow> lock_manager \<Rightarrow> u64 \<Rightarrow> lock_resource \<Rightarrow> lock_mode \<Rightarrow>
     lock_manager \<times> lock_acquire_status andromeda_result" where
  "coordinator_acquire m locks tx r mode =
     or_return locks (require_lock_acquire_transaction m tx) (\<lambda>_. acquire locks tx r mode)"

definition coordinator_acquire_with_evidence ::
    "transaction_manager \<Rightarrow> lock_manager \<Rightarrow> u64 \<Rightarrow> lock_resource \<Rightarrow> lock_mode \<Rightarrow>
     lock_manager \<times> lock_acquire_evidence andromeda_result" where
  "coordinator_acquire_with_evidence m locks tx r mode =
     or_return locks (require_lock_acquire_transaction m tx) (\<lambda>_. acquire_with_evidence locks tx r mode)"

definition coordinator_release ::
    "transaction_manager \<Rightarrow> lock_manager \<Rightarrow> u64 \<Rightarrow> lock_resource \<Rightarrow> lock_manager \<times> bool andromeda_result" where
  "coordinator_release m locks tx r =
     or_return locks (require_known_transaction m tx) (\<lambda>_. release locks tx r)"

definition coordinator_release_with_evidence ::
    "transaction_manager \<Rightarrow> lock_manager \<Rightarrow> u64 \<Rightarrow> lock_resource \<Rightarrow>
     lock_manager \<times> lock_release_evidence andromeda_result" where
  "coordinator_release_with_evidence m locks tx r =
     or_return locks (require_known_transaction m tx) (\<lambda>_. release_with_evidence locks tx r)"

definition coordinator_release_all ::
    "transaction_manager \<Rightarrow> lock_manager \<Rightarrow> u64 \<Rightarrow> lock_manager \<times> lock_release_all_summary andromeda_result" where
  "coordinator_release_all m locks tx =
     or_return locks (require_terminal_cleanup_transaction m tx) (\<lambda>_. release_all locks tx)"

definition coordinator_release_all_with_evidence ::
    "transaction_manager \<Rightarrow> lock_manager \<Rightarrow> u64 \<Rightarrow> lock_manager \<times> lock_release_all_evidence andromeda_result" where
  "coordinator_release_all_with_evidence m locks tx =
     or_return locks (require_terminal_cleanup_transaction m tx) (\<lambda>_. release_all_with_evidence locks tx)"

end
