(* ===== verification/Transaction_Inv.thy ===== *)
theory Transaction_Inv
  imports Transaction_Manager
begin

text \<open>
  The steps of a transaction manager, its invariant, and the abstract life cycle it refines: every
  transaction moves through the phases of two-phase locking, one transaction at a time, and
  the status table is a function of the phase.
\<close>

section \<open>Lookups after updates\<close>

lemma alist_update_same: "map_of xs k = Some v \<Longrightarrow> AList.update k v xs = xs"
  by (induction xs) (auto split: if_splits)

lemmas manager_lookup [simp] = update_conv' delete_conv'

lemma emit_select [simp]:
  "live (emit m mach s c code reason) = live m"
  "tx_status (emit m mach s c code reason) = tx_status m"
  "tx_savepoints (emit m mach s c code reason) = tx_savepoints m"
  "correlations (emit m mach s c code reason) = correlations m"
  "allocator (emit m mach s c code reason) = allocator m"
  "manager_poisoned (emit m mach s c code reason) = manager_poisoned m"
  by (simp_all add: emit_def)

lemma set_machine_select [simp]:
  "live (set_machine m tx mach) = AList.update tx mach (live m)"
  "tx_status (set_machine m tx mach) = tx_status m"
  "tx_savepoints (set_machine m tx mach) = tx_savepoints m"
  "correlations (set_machine m tx mach) = correlations m"
  "allocator (set_machine m tx mach) = allocator m"
  "sink (set_machine m tx mach) = sink m"
  "manager_poisoned (set_machine m tx mach) = manager_poisoned m"
  by (simp_all add: set_machine_def)

lemma clear_savepoints_select [simp]:
  "live (clear_savepoints m tx) = live m"
  "tx_status (clear_savepoints m tx) = tx_status m"
  "correlations (clear_savepoints m tx) = correlations m"
  "allocator (clear_savepoints m tx) = allocator m"
  "sink (clear_savepoints m tx) = sink m"
  "manager_poisoned (clear_savepoints m tx) = manager_poisoned m"
  by (simp_all add: clear_savepoints_def split: option.splits)

lemma dom_clear_savepoints [simp]:
  "dom (map_of (tx_savepoints (clear_savepoints m tx))) = dom (map_of (tx_savepoints m))"
  by (auto simp: clear_savepoints_def dom_def split: option.splits if_splits)

lemma set_machine_same: "map_of (live m) tx = Some mach \<Longrightarrow> set_machine m tx mach = m"
  by (simp add: set_machine_def alist_update_same)

lemma machine_mut_Inr [simp]: "machine_mut m tx = Inr mach \<longleftrightarrow> map_of (live m) tx = Some mach"
  by (simp add: machine_mut_def split: option.splits)

lemma machine_select_same [simp]:
  "machine_transaction_id (mach\<lparr>machine_state := s\<rparr>) = machine_transaction_id mach"
  by simp

section \<open>Transitions of one machine\<close>

lemma state_apply_Inr:
  "state_apply s e = Inr t \<longleftrightarrow>
     (s, e, t) \<in> {(TxCreated, Begin, TxActive), (TxActive, CommitRequested, TxCommitting),
       (TxCommitting, DurableWalFlushed, TxCommitted), (TxCommitted, Dispose, TxDisposed),
       (TxActive, RollbackRequested, TxRollingBack), (TxActive, Fail, TxFailed),
       (TxFailed, RollbackRequested, TxRollingBack), (TxActive, Poison, TxPoisoned),
       (TxPoisoned, RollbackRequested, TxRollingBack), (TxRollingBack, RollbackComplete, TxRolledBack),
       (TxRolledBack, Dispose, TxDisposed)}"
  by (cases s; cases e) (auto simp: state_apply_def)

lemma machine_apply_outcome:
  "(\<exists>e. machine_apply mach event = (mach, Inl e)) \<or>
   (\<exists>to. state_apply (machine_state mach) event = Inr to \<and>
      (to = TxCommitted \<longrightarrow> durable_commit_lsn mach \<noteq> None) \<and>
      (to = TxRolledBack \<longrightarrow> durable_rollback_lsn mach \<noteq> None) \<and>
      machine_apply mach event = (mach\<lparr>machine_state := to\<rparr>, Inr ()))"
  unfolding machine_apply_def by (cases "state_apply (machine_state mach) event") auto

lemma publish_outcome:
  "(\<exists>e. publish_visible_commit_with_durable_evidence mach lsn durable = (mach, Inl e)) \<or>
   machine_state mach = TxCommitting \<and> lsn \<noteq> 0 \<and> lsn \<le> durable \<and>
   publish_visible_commit_with_durable_evidence mach lsn durable =
     (mach\<lparr>durable_commit_lsn := Some durable, machine_state := TxCommitted\<rparr>, Inr ())"
  by (auto simp: publish_visible_commit_with_durable_evidence_def validate_terminal_durable_evidence_def
      mark_durable_commit_lsn_def machine_apply_def state_apply_def)

lemma complete_outcome:
  "(\<exists>e. complete_rollback_with_durable_evidence mach lsn durable = (mach, Inl e)) \<or>
   machine_state mach = TxRollingBack \<and> lsn \<noteq> 0 \<and> lsn \<le> durable \<and>
   complete_rollback_with_durable_evidence mach lsn durable =
     (mach\<lparr>durable_rollback_lsn := Some durable, machine_state := TxRolledBack\<rparr>, Inr ())"
  by (auto simp: complete_rollback_with_durable_evidence_def validate_terminal_durable_evidence_def
      mark_durable_rollback_lsn_def machine_apply_def state_apply_def)

lemma allocate_outcome:
  "(\<exists>e. allocate a = (a, Inl e)) \<or>
   (\<exists>tx. checked_add (last_issued a) 1 = Some tx \<and> allocate a = (\<lparr>last_issued = tx\<rparr>, Inr tx))"
  by (cases "checked_add (last_issued a) 1") (simp_all add: allocate_def Let_def)

section \<open>Steps\<close>

inductive manager_step :: "transaction_manager \<Rightarrow> transaction_manager \<Rightarrow> bool" where
  step_sink: "manager_step m (with_transition_sink m (InMemoryTransitionSink []))"
| step_seed: "manager_step m (fst (seed_allocator m floor))"
| step_begin: "manager_step m (fst (begin_transaction m))"
| step_begin_correlation: "manager_step m (fst (begin_with_correlation m correlation tid))"
| step_request_commit: "manager_step m (fst (request_commit m tx))"
| step_commit: "manager_step m (fst (commit_durable_after_wal_record m tx lsn durable))"
| step_request_rollback: "manager_step m (fst (request_rollback m tx))"
| step_rollback: "manager_step m (fst (rollback_durable_after_wal_record m tx lsn durable))"
| step_poison: "manager_step m (fst (poison_transaction m tx))"
| step_fail: "manager_step m (fst (fail_transaction m tx))"
| step_dispose: "manager_step m (fst (dispose m tx))"
| step_create_savepoint: "manager_step m (fst (create_savepoint m tx name))"
| step_release_savepoint: "manager_step m (fst (release_savepoint m tx name))"
| step_rollback_savepoint: "manager_step m (fst (rollback_to_savepoint m tx name))"

inductive_cases manager_stepE: "manager_step m m'"

lemma recovered_floor_reachable: "with_recovered_floor floor = fst (seed_allocator transaction_manager_new floor)"
  by (simp add: with_recovered_floor_def seed_allocator_def transaction_manager_new_def seed_def
      allocator_new_def allocator_with_floor_def)

lemma commit_durable_step: "manager_step m (fst (commit_durable m tx lsn))"
  by (simp add: commit_durable_def step_commit)

lemma rollback_durable_step: "manager_step m (fst (rollback_durable m tx lsn))"
  by (simp add: rollback_durable_def step_rollback)

section \<open>The invariant\<close>

text \<open>What the status table and the durable positions say about a live machine.\<close>

definition mirrors :: "transaction_state_machine \<Rightarrow> transaction_status option \<Rightarrow> bool" where
  "mirrors mach st \<longleftrightarrow>
     machine_state mach \<notin> {TxCreated, TxDisposed} \<and>
     st = Some (if machine_state mach = TxCommitted then Committed
                else if machine_state mach = TxRolledBack then RolledBack else InFlight) \<and>
     (durable_commit_lsn mach \<noteq> None \<longleftrightarrow> machine_state mach = TxCommitted) \<and>
     (durable_rollback_lsn mach \<noteq> None \<longleftrightarrow> machine_state mach = TxRolledBack) \<and>
     durable_commit_lsn mach \<noteq> Some 0 \<and> durable_rollback_lsn mach \<noteq> Some 0"

definition tm_inv :: "transaction_manager \<Rightarrow> bool" where
  "tm_inv m \<longleftrightarrow>
     btree_inv (tx_status m) \<and>
     (\<forall>tx mach. map_of (live m) tx = Some mach \<longrightarrow>
        machine_transaction_id mach = tx \<and> mirrors mach (status (tx_status m) tx)) \<and>
     (\<forall>tx st. status (tx_status m) tx = Some st \<longrightarrow> tx \<noteq> 0 \<and> tx \<le> last_issued (allocator m)) \<and>
     (\<forall>tx. map_of (live m) tx = None \<longrightarrow> status (tx_status m) tx \<noteq> Some InFlight) \<and>
     dom (map_of (tx_savepoints m)) = dom (map_of (live m)) \<and>
     dom (map_of (correlations m)) = dom (map_of (live m))"

lemma tm_invD:
  assumes "tm_inv m"
  shows tm_inv_table: "btree_inv (tx_status m)"
    and tm_inv_live: "map_of (live m) tx = Some mach \<Longrightarrow>
      machine_transaction_id mach = tx \<and> mirrors mach (status (tx_status m) tx)"
    and tm_inv_known: "status (tx_status m) tx = Some st \<Longrightarrow> tx \<noteq> 0 \<and> tx \<le> last_issued (allocator m)"
    and tm_inv_gone: "map_of (live m) tx = None \<Longrightarrow> status (tx_status m) tx \<noteq> Some InFlight"
  using assms by (auto simp: tm_inv_def)

lemma tm_inv_new: "tm_inv transaction_manager_new"
  by (simp add: tm_inv_def transaction_manager_new_def btree_inv_def status_table_new_def status_def)

lemma fresh_id:
  assumes "tm_inv m" and "checked_add (last_issued (allocator m)) 1 = Some tx"
  shows "status (tx_status m) tx = None" and "map_of (live m) tx = None" and "tx \<noteq> 0"
    and "last_issued (allocator m) \<le> tx"
proof -
  have less: "last_issued (allocator m) < tx" using assms(2) by (rule checked_add_one_less)
  show none: "status (tx_status m) tx = None"
    using tm_inv_known [OF assms(1), of tx] less by (cases "status (tx_status m) tx") auto
  show "map_of (live m) tx = None"
    using tm_inv_live [OF assms(1), of tx] none by (cases "map_of (live m) tx") (auto simp: mirrors_def)
  show "tx \<noteq> 0" using less by auto
  show "last_issued (allocator m) \<le> tx" using less by simp
qed

section \<open>Effects\<close>

text \<open>
  What a step can do to the tables: nothing that a lookup shows, a new transaction, a move of one
  machine, a terminal outcome with its evidence, or the disposal of a finished transaction. Every
  change but the first hands one trace to the sink.
\<close>

definition good_reason :: "string \<Rightarrow> bool" where
  "good_reason reason \<longleftrightarrow> \<not> trim_is_empty reason \<and> \<not> contains_sensitive_marker reason"

definition traced :: "transaction_manager \<Rightarrow> transaction_manager \<Rightarrow> transaction_state_machine \<Rightarrow> transaction_state \<Rightarrow> bool" where
  "traced m m' mach previous \<longleftrightarrow>
     (\<exists>c tid code reason. good_reason reason \<and>
        sink m' = sink_record (sink m) (project_transition mach tid previous c code reason))"

definition same_books :: "transaction_manager \<Rightarrow> transaction_manager \<Rightarrow> bool" where
  "same_books m m' \<longleftrightarrow>
     dom (map_of (tx_savepoints m')) = dom (map_of (tx_savepoints m)) \<and>
     correlations m' = correlations m \<and> allocator m' = allocator m"

inductive tm_effect :: "transaction_manager \<Rightarrow> transaction_manager \<Rightarrow> bool" where
  quiet: "map_of (live m') = map_of (live m) \<Longrightarrow> tx_status m' = tx_status m \<Longrightarrow>
    last_issued (allocator m) \<le> last_issued (allocator m') \<Longrightarrow>
    dom (map_of (tx_savepoints m')) = dom (map_of (tx_savepoints m)) \<Longrightarrow>
    correlations m' = correlations m \<Longrightarrow> sink m' = sink m \<or> sink_snapshot (sink m') = [] \<Longrightarrow> tm_effect m m'"
| begun: "checked_add (last_issued (allocator m)) 1 = Some tx \<Longrightarrow>
    mach = (machine_new tx)\<lparr>machine_state := TxActive\<rparr> \<Longrightarrow>
    map_of (live m') = (map_of (live m))(tx \<mapsto> mach) \<Longrightarrow>
    tx_status m' = btree_insert tx InFlight (tx_status m) \<Longrightarrow>
    last_issued (allocator m') = tx \<Longrightarrow>
    dom (map_of (tx_savepoints m')) = insert tx (dom (map_of (tx_savepoints m))) \<Longrightarrow>
    dom (map_of (correlations m')) = insert tx (dom (map_of (correlations m))) \<Longrightarrow>
    traced m m' mach TxCreated \<Longrightarrow> tm_effect m m'"
| moved: "map_of (live m) tx = Some mach \<Longrightarrow> state_apply (machine_state mach) event = Inr to \<Longrightarrow>
    to \<in> {TxCommitting, TxRollingBack, TxFailed, TxPoisoned} \<Longrightarrow>
    map_of (live m') = (map_of (live m))(tx \<mapsto> mach\<lparr>machine_state := to\<rparr>) \<Longrightarrow>
    tx_status m' = tx_status m \<Longrightarrow> same_books m m' \<Longrightarrow>
    traced m m' (mach\<lparr>machine_state := to\<rparr>) (machine_state mach) \<Longrightarrow> tm_effect m m'"
| finished: "map_of (live m) tx = Some mach \<Longrightarrow> durable \<noteq> 0 \<Longrightarrow>
    machine_state mach = TxCommitting \<and> outcome = Committed \<and>
      mach' = mach\<lparr>durable_commit_lsn := Some durable, machine_state := TxCommitted\<rparr> \<or>
    machine_state mach = TxRollingBack \<and> outcome = RolledBack \<and>
      mach' = mach\<lparr>durable_rollback_lsn := Some durable, machine_state := TxRolledBack\<rparr> \<Longrightarrow>
    map_of (live m') = (map_of (live m))(tx \<mapsto> mach') \<Longrightarrow>
    tx_status m' = btree_insert tx outcome (tx_status m) \<Longrightarrow> same_books m m' \<Longrightarrow>
    traced m m' mach' (machine_state mach) \<Longrightarrow> tm_effect m m'"
| disposed: "map_of (live m) tx = Some mach \<Longrightarrow> machine_state mach \<in> {TxCommitted, TxRolledBack} \<Longrightarrow>
    map_of (live m') = (map_of (live m))(tx := None) \<Longrightarrow> tx_status m' = tx_status m \<Longrightarrow>
    dom (map_of (tx_savepoints m')) = dom (map_of (tx_savepoints m)) - {tx} \<Longrightarrow>
    dom (map_of (correlations m')) = dom (map_of (correlations m)) - {tx} \<Longrightarrow>
    allocator m' = allocator m \<Longrightarrow>
    traced m m' (mach\<lparr>machine_state := TxDisposed\<rparr>) (machine_state mach) \<Longrightarrow> tm_effect m m'"

lemma tm_effect_refl: "tm_effect m m"
  by (rule quiet) simp_all

lemma emit_traced:
  "good_reason reason \<Longrightarrow> sink m1 = sink m \<Longrightarrow> traced m (emit m1 mach previous c code reason) mach previous"
  by (auto simp: traced_def emit_def)

lemma good_reasons [simp]:
  "good_reason ''transaction began''" "good_reason ''commit requested''" "good_reason ''rollback requested''"
  "good_reason ''commit durable after WAL flush''" "good_reason ''rollback durable after WAL flush''"
  "good_reason ''transaction poisoned''" "good_reason ''transaction failed''" "good_reason ''transaction disposed''"
  by code_simp+

lemma move_effect:
  assumes live: "map_of (live m) tx = Some mach"
    and event: "event \<in> {CommitRequested, RollbackRequested, Fail, Poison}" and reason: "good_reason reason"
    and g: "g = (\<lambda>m. m) \<or> g = (\<lambda>m. clear_savepoints m tx)" and previous: "machine_state mach = previous"
  shows "tm_effect m (fst (case machine_apply mach event of (mach', moved) \<Rightarrow>
      or_return (set_machine m tx mach') moved (\<lambda>_.
        (emit (g (set_machine m tx mach')) mach' previous (c mach') code reason, Inr ()))))"
  using machine_apply_outcome [of mach event]
proof (elim disjE exE conjE)
  fix e assume "machine_apply mach event = (mach, Inl e)"
  then show ?thesis using live by (simp add: set_machine_same tm_effect_refl)
next
  fix to
  assume to: "state_apply (machine_state mach) event = Inr to"
    and eq: "machine_apply mach event = (mach\<lparr>machine_state := to\<rparr>, Inr ())"
  have "to \<in> {TxCommitting, TxRollingBack, TxFailed, TxPoisoned}"
    using to event by (auto simp: state_apply_Inr)
  moreover have "sink (g (set_machine m tx (mach\<lparr>machine_state := to\<rparr>))) = sink m" using g by auto
  ultimately show ?thesis
    using g by (auto simp: eq same_books_def simp flip: previous intro!: moved [OF live to] emit_traced reason)
qed

lemma effect_request_commit: "tm_effect m (fst (request_commit m tx))"
  by (auto simp: request_commit_def machine_request_commit_def Let_def tm_effect_refl and_then_eq_Inr_iff
      split: or_return_split intro!: move_effect [where g = "\<lambda>m. clear_savepoints m tx", simplified])

lemma effect_request_rollback: "tm_effect m (fst (request_rollback m tx))"
  by (auto simp: request_rollback_def machine_request_rollback_def Let_def tm_effect_refl and_then_eq_Inr_iff
      split: or_return_split intro!: move_effect [where g = "\<lambda>m. clear_savepoints m tx", simplified])

lemma effect_poison: "tm_effect m (fst (poison_transaction m tx))"
  by (auto simp: poison_transaction_def Let_def tm_effect_refl and_then_eq_Inr_iff
      split: or_return_split intro!: move_effect [where g = "\<lambda>m. m", simplified])

lemma effect_fail: "tm_effect m (fst (fail_transaction m tx))"
  by (auto simp: fail_transaction_def Let_def tm_effect_refl and_then_eq_Inr_iff
      split: or_return_split intro!: move_effect [where g = "\<lambda>m. m", simplified])

lemma in_flight_record:
  assumes "status t tx = Some InFlight" and "lsn \<noteq> 0" and "lsn \<le> durable"
  shows "record_committed_after_durable_wal t tx lsn durable = (btree_insert tx Committed t, Inr ())"
    and "record_rolled_back_after_durable_wal t tx lsn durable = (btree_insert tx RolledBack t, Inr ())"
  using assms
  by (simp_all add: record_committed_after_durable_wal_def record_rolled_back_after_durable_wal_def
      record_terminal_from_durable_evidence_def record_validated_terminal_status_def
      validate_terminal_status_def validate_terminal_lsn_evidence_def is_terminal_def not_less)

lemma shrinking_status:
  assumes "tm_inv m" and "map_of (live m) tx = Some mach" and "machine_state mach \<in> {TxCommitting, TxRollingBack}"
  shows "status (tx_status m) tx = Some InFlight"
  using tm_inv_live [OF assms(1,2)] assms(3) by (auto simp: mirrors_def)

lemma effect_commit:
  assumes "tm_inv m"
  shows "tm_effect m (fst (commit_durable_after_wal_record m tx lsn durable))"
proof (cases "and_then (manager_lock m) (\<lambda>_. machine_mut m tx)")
  case (Inl e)
  then show ?thesis by (simp add: commit_durable_after_wal_record_def tm_effect_refl)
next
  case (Inr mach)
  then have live: "map_of (live m) tx = Some mach" by (auto simp: and_then_eq_Inr_iff)
  show ?thesis using publish_outcome [of mach lsn durable]
  proof (elim disjE exE conjE)
    fix e assume "publish_visible_commit_with_durable_evidence mach lsn durable = (mach, Inl e)"
    then show ?thesis using live Inr
      by (simp add: commit_durable_after_wal_record_def set_machine_same tm_effect_refl)
  next
    assume committing: "machine_state mach = TxCommitting" and lsn: "lsn \<noteq> 0" "lsn \<le> durable"
      and eq: "publish_visible_commit_with_durable_evidence mach lsn durable =
        (mach\<lparr>durable_commit_lsn := Some durable, machine_state := TxCommitted\<rparr>, Inr ())"
    have "status (tx_status m) tx = Some InFlight"
      using shrinking_status [OF assms live] committing by simp
    moreover have "durable \<noteq> 0" using lsn by auto
    ultimately show ?thesis
      by (auto simp: commit_durable_after_wal_record_def Inr eq Let_def in_flight_record lsn same_books_def
          committing intro!: emit_traced finished [OF live, where outcome = Committed and durable = durable
            and mach' = "mach\<lparr>durable_commit_lsn := Some durable, machine_state := TxCommitted\<rparr>"])
  qed
qed

lemma effect_rollback:
  assumes "tm_inv m"
  shows "tm_effect m (fst (rollback_durable_after_wal_record m tx lsn durable))"
proof (cases "and_then (manager_lock m) (\<lambda>_. machine_mut m tx)")
  case (Inl e)
  then show ?thesis by (simp add: rollback_durable_after_wal_record_def tm_effect_refl)
next
  case (Inr mach)
  then have live: "map_of (live m) tx = Some mach" by (auto simp: and_then_eq_Inr_iff)
  show ?thesis using complete_outcome [of mach lsn durable]
  proof (elim disjE exE conjE)
    fix e assume "complete_rollback_with_durable_evidence mach lsn durable = (mach, Inl e)"
    then show ?thesis using live Inr
      by (simp add: rollback_durable_after_wal_record_def set_machine_same tm_effect_refl)
  next
    assume rolling: "machine_state mach = TxRollingBack" and lsn: "lsn \<noteq> 0" "lsn \<le> durable"
      and eq: "complete_rollback_with_durable_evidence mach lsn durable =
        (mach\<lparr>durable_rollback_lsn := Some durable, machine_state := TxRolledBack\<rparr>, Inr ())"
    have "status (tx_status m) tx = Some InFlight"
      using shrinking_status [OF assms live] rolling by simp
    moreover have "durable \<noteq> 0" using lsn by auto
    ultimately show ?thesis
      by (auto simp: rollback_durable_after_wal_record_def Inr eq Let_def in_flight_record lsn same_books_def
          rolling intro!: emit_traced finished [OF live, where outcome = RolledBack and durable = durable
            and mach' = "mach\<lparr>durable_rollback_lsn := Some durable, machine_state := TxRolledBack\<rparr>"])
  qed
qed

lemma effect_dispose: "tm_effect m (fst (dispose m tx))"
proof (cases "and_then (manager_lock m) (\<lambda>_. machine_mut m tx)")
  case (Inl e)
  then show ?thesis by (simp add: dispose_def tm_effect_refl)
next
  case (Inr mach)
  then have live: "map_of (live m) tx = Some mach" by (auto simp: and_then_eq_Inr_iff)
  show ?thesis using machine_apply_outcome [of mach Dispose]
  proof (elim disjE exE conjE)
    fix e assume "machine_apply mach Dispose = (mach, Inl e)"
    then show ?thesis using live Inr by (simp add: dispose_def set_machine_same tm_effect_refl)
  next
    fix to assume to: "state_apply (machine_state mach) Dispose = Inr to"
      and eq: "machine_apply mach Dispose = (mach\<lparr>machine_state := to\<rparr>, Inr ())"
    from to have "to = TxDisposed" "machine_state mach \<in> {TxCommitted, TxRolledBack}"
      by (auto simp: state_apply_Inr)
    then show ?thesis
      by (auto simp: dispose_def Inr eq Let_def intro!: disposed [OF live] emit_traced split: if_splits)
  qed
qed

lemma effect_begin_inner:
  assumes "tm_inv m" and issued: "checked_add (last_issued (allocator m)) 1 = Some tx"
  shows "tm_effect m (fst (begin_inner (m\<lparr>allocator := \<lparr>last_issued = tx\<rparr>\<rparr>) tx c tid))"
proof (cases "manager_lock (m\<lparr>allocator := \<lparr>last_issued = tx\<rparr>\<rparr>)")
  case (Inl e)
  then show ?thesis
    by (auto simp: begin_inner_def fresh_id [OF assms] intro!: quiet)
next
  case (Inr u)
  have machine: "machine_begin (machine_new tx) = ((machine_new tx)\<lparr>machine_state := TxActive\<rparr>, Inr ())"
    by (simp add: machine_begin_def machine_apply_def machine_new_def state_apply_def)
  have recorded: "record_status (tx_status m) tx InFlight = (btree_insert tx InFlight (tx_status m), Inr ())"
    by (simp add: record_status_def fresh_id [OF assms] validate_status_transaction_id_def is_terminal_def)
  show ?thesis
    by (auto simp: begin_inner_def Inr machine recorded Let_def fresh_id [OF assms]
        intro!: begun [OF issued] emit_traced)
qed

lemma effect_begin:
  assumes "tm_inv m"
  shows "tm_effect m (fst (begin_with_correlation m c tid))" and "tm_effect m (fst (begin_transaction m))"
  using allocate_outcome [of "allocator m"]
  by (auto simp: begin_with_correlation_def begin_transaction_def Let_def tm_effect_refl
      intro!: effect_begin_inner [OF assms])

lemma effect_on_stack: "tm_effect m (fst (on_stack m tx operation f))"
  by (auto simp: on_stack_def savepoints_mut_def and_then_eq_Inr_iff tm_effect_refl intro!: quiet
      split: or_return_split prod.splits option.splits if_splits)

lemma effect_seed: "tm_effect m (fst (seed_allocator m floor))"
  by (auto simp: seed_allocator_def seed_def tm_effect_refl intro!: quiet)

lemma manager_step_effect: "manager_step m m' \<Longrightarrow> tm_inv m \<Longrightarrow> tm_effect m m'"
  by (erule manager_stepE)
    (auto simp: create_savepoint_def release_savepoint_def rollback_to_savepoint_def with_transition_sink_def
      intro: effect_seed effect_begin effect_request_commit effect_commit effect_request_rollback
        effect_rollback effect_poison effect_fail effect_dispose effect_on_stack quiet)

lemma tm_effect_inv: "tm_effect m m' \<Longrightarrow> tm_inv m \<Longrightarrow> tm_inv m'"
proof (induction rule: tm_effect.induct)
  case (quiet m' m)
  then show ?case by (auto simp: tm_inv_def intro: order_trans)
next
  case (begun m tx mach m')
  note fresh = fresh_id [OF begun.prems begun.hyps(1)]
  have "mirrors mach (Some InFlight)" and "machine_transaction_id mach = tx"
    using begun.hyps(2) by (simp_all add: mirrors_def machine_new_def)
  moreover have "x \<le> tx" if "x \<le> last_issued (allocator m)" for x using that fresh(4) by (rule order_trans)
  ultimately show ?case
    using begun.hyps(3-7) begun.prems fresh(3) by (auto simp: tm_inv_def btree_inv_insert)
next
  case (moved m tx mach event to m')
  have "mirrors (mach\<lparr>machine_state := to\<rparr>) (status (tx_status m) tx)"
    using tm_inv_live [OF moved.prems moved.hyps(1)] moved.hyps(2,3)
    by (auto simp: mirrors_def state_apply_Inr)
  moreover have "tx \<in> dom (map_of (live m))" using moved.hyps(1) by auto
  ultimately show ?case
    using moved.hyps moved.prems by (auto simp: tm_inv_def same_books_def insert_absorb)
next
  case (finished m tx mach durable outcome mach' m')
  have known: "status (tx_status m) tx = Some InFlight"
    using shrinking_status [OF finished.prems finished.hyps(1)] finished.hyps(3) by auto
  have "mirrors mach' (Some outcome) \<and> machine_transaction_id mach' = tx"
    using tm_inv_live [OF finished.prems finished.hyps(1)] finished.hyps(2,3) by (auto simp: mirrors_def)
  moreover have "tx \<in> dom (map_of (live m))" using finished.hyps(1) by auto
  moreover have "tx \<noteq> 0 \<and> tx \<le> last_issued (allocator m)" using tm_inv_known [OF finished.prems known] .
  ultimately show ?case
    using finished.hyps(4-6) finished.prems
    by (auto simp: tm_inv_def same_books_def insert_absorb btree_inv_insert)
next
  case (disposed m tx mach m')
  have "status (tx_status m) tx \<noteq> Some InFlight"
    using tm_inv_live [OF disposed.prems disposed.hyps(1)] disposed.hyps(2) by (auto simp: mirrors_def)
  then show ?case using disposed.hyps(3-7) disposed.prems by (auto simp: tm_inv_def)
qed

interpretation transactions: invariant_system transaction_manager_new manager_step tm_inv
  by unfold_locales (rule tm_inv_new, blast intro: tm_effect_inv manager_step_effect)

section \<open>The life cycle\<close>

text \<open>
  The phases of two-phase locking, and the moves a transaction can make. \<open>Done\<close> covers the
  terminal states and disposed transactions.
\<close>

datatype life_phase = Unborn | Growing | Doomed | Shrinking transaction_status | Done transaction_status

inductive life_step :: "life_phase \<Rightarrow> life_phase \<Rightarrow> bool" where
  born: "life_step Unborn Growing"
| commits: "life_step Growing (Shrinking Committed)"
| aborts: "life_step Growing (Shrinking RolledBack)"
| breaks: "life_step Growing Doomed"
| gives_up: "life_step Doomed (Shrinking RolledBack)"
| ends: "life_step (Shrinking outcome) (Done outcome)"

inductive_simps life_step_simps [simp]:
  "life_step Unborn p" "life_step Growing p" "life_step Doomed p" "life_step (Shrinking st) p" "life_step (Done st) p"

fun state_phase :: "transaction_state \<Rightarrow> life_phase" where
  "state_phase TxActive = Growing"
| "state_phase TxFailed = Doomed"
| "state_phase TxPoisoned = Doomed"
| "state_phase TxCommitting = Shrinking Committed"
| "state_phase TxRollingBack = Shrinking RolledBack"
| "state_phase TxCommitted = Done Committed"
| "state_phase TxRolledBack = Done RolledBack"
| "state_phase _ = Unborn"

definition phase_of :: "transaction_manager \<Rightarrow> u64 \<Rightarrow> life_phase" where
  "phase_of m tx =
     (case map_of (live m) tx of
        Some mach \<Rightarrow> state_phase (machine_state mach)
      | None \<Rightarrow> (case status (tx_status m) tx of None \<Rightarrow> Unborn | Some st \<Rightarrow> Done st))"

fun phase_status :: "life_phase \<Rightarrow> transaction_status option" where
  "phase_status Unborn = None"
| "phase_status (Done st) = Some st"
| "phase_status _ = Some InFlight"

lemma status_of_phase:
  assumes "tm_inv m"
  shows "status (tx_status m) tx = phase_status (phase_of m tx)"
proof (cases "map_of (live m) tx")
  case None
  then show ?thesis by (simp add: phase_of_def split: option.splits)
next
  case (Some mach)
  then show ?thesis using tm_inv_live [OF assms Some]
    by (cases "machine_state mach") (auto simp: phase_of_def mirrors_def)
qed

lemma tm_effect_life:
  "tm_effect m m' \<Longrightarrow> tm_inv m \<Longrightarrow>
     phase_of m' = phase_of m \<or> (\<exists>tx p. life_step (phase_of m tx) p \<and> phase_of m' = (phase_of m)(tx := p))"
proof (induction rule: tm_effect.induct)
  case (quiet m' m)
  then have "phase_of m' = phase_of m" by (intro ext) (simp add: phase_of_def cong: option.case_cong)
  then show ?case by simp
next
  case (begun m tx mach m')
  note fresh = fresh_id [OF begun.prems begun.hyps(1)]
  have "phase_of m tx = Unborn" using fresh by (simp add: phase_of_def)
  moreover have "phase_of m' = (phase_of m)(tx := Growing)"
    using begun.hyps tm_inv_table [OF begun.prems] by (auto simp: phase_of_def fun_eq_iff cong: option.case_cong)
  ultimately show ?case by (intro disjI2 exI [of _ tx] exI [of _ Growing]) simp
next
  case (moved m tx mach event to m')
  have "life_step (phase_of m tx) (state_phase to)"
    using moved.hyps(1-3) by (auto simp: phase_of_def state_apply_Inr)
  moreover have "phase_of m' = (phase_of m)(tx := state_phase to)"
    using moved.hyps by (auto simp: phase_of_def fun_eq_iff cong: option.case_cong)
  ultimately show ?case by blast
next
  case (finished m tx mach durable outcome mach' m')
  have "life_step (phase_of m tx) (Done outcome)"
    using finished.hyps(1,3) by (auto simp: phase_of_def)
  moreover have "phase_of m' = (phase_of m)(tx := Done outcome)"
    using finished.hyps tm_inv_table [OF finished.prems] by (auto simp: phase_of_def fun_eq_iff cong: option.case_cong)
  ultimately show ?case by blast
next
  case (disposed m tx mach m')
  have "phase_of m' = phase_of m"
    using disposed.hyps tm_inv_live [OF disposed.prems disposed.hyps(1)]
    by (auto simp: phase_of_def fun_eq_iff mirrors_def cong: option.case_cong split: if_splits)
  then show ?case by simp
qed

section \<open>Guards in terms of phases\<close>

lemma acquire_needs_growing:
  assumes "tm_inv m" and "require_lock_acquire_transaction m tx = Inr u"
  shows "phase_of m tx = Growing"
  using assms(2)
  by (auto simp: require_lock_acquire_transaction_def and_then_eq_Inr_iff phase_of_def split: if_splits)

lemma release_needs_shrinking:
  assumes "tm_inv m" and "require_known_transaction m tx = Inr u"
  shows "\<exists>outcome. phase_of m tx = Shrinking outcome"
  using assms(2)
  by (auto simp: require_known_transaction_def and_then_eq_Inr_iff phase_of_def state_allows_release_def split: if_splits)

lemma cleanup_needs_done:
  assumes "tm_inv m" and "require_terminal_cleanup_transaction m tx = Inr u"
  shows "\<exists>outcome. phase_of m tx = Done outcome"
  using assms(2) status_of_phase [OF assms(1), of tx]
  by (cases "phase_of m tx")
    (auto simp: require_terminal_cleanup_transaction_def and_then_eq_Inr_iff)

text \<open>The phases are ordered; no step goes back.\<close>

fun phase_rank :: "life_phase \<Rightarrow> nat" where
  "phase_rank Unborn = 0"
| "phase_rank Growing = 1"
| "phase_rank Doomed = 2"
| "phase_rank (Shrinking _) = 3"
| "phase_rank (Done _) = 4"

lemma life_step_rank: "life_step p q \<Longrightarrow> phase_rank p < phase_rank q"
  by (induction rule: life_step.induct) auto

lemma manager_step_rank:
  assumes "manager_step m m'" and "tm_inv m"
  shows "phase_rank (phase_of m tx) \<le> phase_rank (phase_of m' tx)"
  using tm_effect_life [OF manager_step_effect [OF assms] assms(2)]
  by (auto simp: fun_upd_def dest!: life_step_rank)

section \<open>Traces\<close>

definition trace_legal :: "transaction_transition_trace \<Rightarrow> bool" where
  "trace_legal t \<longleftrightarrow>
     (\<exists>from event to. state_apply from event = Inr to \<and>
        prev_phase t = transaction_phase_code from \<and> next_phase t = transaction_phase_code to \<and>
        (trace_durable_lsn t \<noteq> None \<longleftrightarrow> to = TxCommitted \<or> to = TxRolledBack)) \<and>
     trace_durable_lsn t \<noteq> Some 0 \<and> trace_transaction_id t \<noteq> 0 \<and> good_reason (trace_reason t)"

lemma traced_legal:
  assumes "traced m m' mach' previous" and "\<forall>t \<in> set (sink_snapshot (sink m)). trace_legal t"
    and "state_apply previous event = Inr (machine_state mach')" and "machine_transaction_id mach' \<noteq> 0"
    and "machine_state mach' = TxCommitted \<longrightarrow> (\<exists>lsn. lsn \<noteq> 0 \<and> durable_commit_lsn mach' = Some lsn)"
    and "machine_state mach' = TxRolledBack \<longrightarrow> (\<exists>lsn. lsn \<noteq> 0 \<and> durable_rollback_lsn mach' = Some lsn)"
  shows "\<forall>t \<in> set (sink_snapshot (sink m')). trace_legal t"
proof -
  obtain c tid code reason where good: "good_reason reason"
    and sink: "sink m' = sink_record (sink m) (project_transition mach' tid previous c code reason)"
    using assms(1) by (auto simp: traced_def)
  have "trace_legal (project_transition mach' tid previous c code reason)"
    unfolding trace_legal_def
    by (intro conjI exI [of _ previous] exI [of _ event] exI [of _ "machine_state mach'"])
      (use assms(3-6) good in \<open>auto simp: project_transition_def\<close>)
  then show ?thesis using assms(2) sink by (cases "sink m") auto
qed

lemma tm_effect_traces:
  assumes "tm_effect m m'" and "tm_inv m" and "\<forall>t \<in> set (sink_snapshot (sink m)). trace_legal t"
  shows "\<forall>t \<in> set (sink_snapshot (sink m')). trace_legal t"
  using assms
proof (induction rule: tm_effect.induct)
  case (quiet m' m)
  then show ?case by auto
next
  case (begun m tx mach m')
  then show ?case
    using fresh_id [OF begun.prems(1) begun.hyps(1)]
    by (intro traced_legal [where event = Begin, OF begun.hyps(8) begun.prems(2)])
      (simp_all add: state_apply_def machine_new_def)
next
  case (moved m tx mach event to m')
  have "machine_transaction_id mach \<noteq> 0"
    using tm_inv_live [OF moved.prems(1) moved.hyps(1)] tm_inv_known [OF moved.prems(1)]
    by (auto simp: mirrors_def)
  then show ?case
    using moved.hyps by (intro traced_legal [OF moved.hyps(7) moved.prems(2)]) auto
next
  case (finished m tx mach durable outcome mach' m')
  have "machine_transaction_id mach \<noteq> 0"
    using tm_inv_live [OF finished.prems(1) finished.hyps(1)] tm_inv_known [OF finished.prems(1)]
    by (auto simp: mirrors_def)
  then show ?case
    using finished.hyps(2,3)
    by (intro traced_legal [OF finished.hyps(7) finished.prems(2),
          where event = "if outcome = Committed then DurableWalFlushed else RollbackComplete"])
      (auto simp: state_apply_def)
next
  case (disposed m tx mach m')
  have "machine_transaction_id mach \<noteq> 0"
    using tm_inv_live [OF disposed.prems(1) disposed.hyps(1)] tm_inv_known [OF disposed.prems(1)]
    by (auto simp: mirrors_def)
  then show ?case
    using disposed.hyps(2)
    by (intro traced_legal [OF disposed.hyps(8) disposed.prems(2), where event = Dispose])
      (auto simp: state_apply_def)
qed

end
