(* ===== verification/Savepoint_Props.thy ===== *)
theory Savepoint_Props
  imports Savepoint
begin

text \<open>
  The properties of savepoints and the write set: the invariants of both, what rolling back to and
  releasing a savepoint leave, and that undoing to a marker taken from the write set restores it.
\<close>

section \<open>The stack\<close>

lemma position_append:
  "\<forall>x \<in> set xs. \<not> P x \<Longrightarrow> P y \<Longrightarrow> position P (xs @ y # ys) = Some (length xs)"
  by (induction xs) auto



lemma savepoint_id_validate_ok [simp]: "0 < i \<Longrightarrow> savepoint_id_validate i = Inr ()" for i :: u64
  using word_le_nat_alt [of 1 i] word_less_nat_alt [of 0 i] by (simp add: savepoint_id_validate_def)












section \<open>The write set\<close>

definition write_set_inv :: "tx_write_set \<Rightarrow> bool" where
  "write_set_inv ws \<longleftrightarrow> sorted_wrt (<) (map entry_ordinal (write_entries ws)) \<and>
     (\<forall>e \<in> set (write_entries ws). 0 < entry_ordinal e \<and> entry_ordinal e < next_ordinal ws) \<and>
     0 < next_ordinal ws"

inductive write_set_step :: "tx_write_set \<Rightarrow> tx_write_set \<Rightarrow> bool" where
  step_operation: "write_set_step ws (fst (record_operation ws kind resource before after))"
| step_undo: "write_set_step ws (fst (write_set_rollback_to ws marker))"
| step_full: "write_set_step ws (fst (full_rollback ws))"

lemma record_operation_cases:
  obtains (failed) e where "record_operation ws kind resource before after = (ws, Inl e)"
  | (recorded) n entry where "checked_add (next_ordinal ws) 1 = Some n"
      "entry_ordinal entry = next_ordinal ws" "operation_kind entry = kind"
      "record_operation ws kind resource before after =
         (ws\<lparr>next_ordinal := n, write_entries := write_entries ws @ [entry]\<rparr>, Inr entry)"
  by (cases "and_then (validate_operation_kind kind) (\<lambda>_. validate_resource_id resource)";
      cases "checked_add (next_ordinal ws) 1")
    (auto simp: record_operation_def Let_def)

lemma write_set_inv_record:
  assumes "write_set_inv ws"
  shows "write_set_inv (fst (record_operation ws kind resource before after))"
proof (cases rule: record_operation_cases [of ws kind resource before after])
  case (recorded n entry)
  note n = checked_add_one_less [OF recorded(1)] checked_add_one_pos [OF recorded(1)]
  with recorded assms show ?thesis
    by (auto simp: write_set_inv_def sorted_wrt_append intro: less_trans)
qed (use assms in simp)

text \<open>The index found by the rollback splits a sorted list of entries.\<close>

lemma sorted_split:
  assumes "sorted_wrt (<) (map entry_ordinal es)"
  shows "es = filter (\<lambda>e. entry_ordinal e \<le> k) es @ filter (\<lambda>e. entry_ordinal e > k) es"
  using assms
proof (induction es)
  case (Cons e es)
  show ?case
  proof (cases "entry_ordinal e \<le> k")
    case False
    then have "\<forall>x \<in> set es. entry_ordinal x > k" using Cons.prems by force
    then show ?thesis using False by (simp add: filter_empty_conv not_le)
  qed (use Cons in simp)
qed simp

lemma position_split:
  assumes "\<forall>x \<in> set xs. \<not> P x" and "\<forall>y \<in> set ys. P y"
  shows "(case position P (xs @ ys) of Some i \<Rightarrow> i | None \<Rightarrow> length (xs @ ys)) = length xs"
proof (cases ys)
  case Nil
  then show ?thesis using assms(1) position_None_iff [of P xs] by simp
next
  case (Cons y zs)
  then show ?thesis using assms position_append [of xs P y zs] by simp
qed

lemma write_set_rollback_eq:
  assumes "write_set_inv ws" and "0 < marker_savepoint_id marker"
    and "rollback_ordinal marker \<le> write_set_rollback_ordinal ws"
  defines "newer \<equiv> filter (\<lambda>e. entry_ordinal e > rollback_ordinal marker) (write_entries ws)"
  shows "write_set_rollback_to ws marker =
    (ws\<lparr>write_entries := filter (\<lambda>e. entry_ordinal e \<le> rollback_ordinal marker) (write_entries ws) @
                          filter (\<lambda>e. operation_kind e = LockEvidence) newer\<rparr>,
     Inr (rev (filter (\<lambda>e. operation_kind e \<noteq> LockEvidence) newer)))"
proof -
  have sorted: "sorted_wrt (<) (map entry_ordinal (write_entries ws))"
    using assms(1) by (simp add: write_set_inv_def)
  define older where "older = filter (\<lambda>e. entry_ordinal e \<le> rollback_ordinal marker) (write_entries ws)"
  have split: "write_entries ws = older @ newer"
    unfolding older_def newer_def by (rule sorted_split [OF sorted])
  have "(case position (\<lambda>e. entry_ordinal e > rollback_ordinal marker) (write_entries ws) of
      Some i \<Rightarrow> i | None \<Rightarrow> length (write_entries ws)) = length older"
    unfolding split by (rule position_split) (auto simp: older_def newer_def)
  moreover have "take (length older) (write_entries ws) = older" "drop (length older) (write_entries ws) = newer"
    by (simp_all add: split)
  ultimately show ?thesis
    using assms(2,3)
    by (simp add: write_set_rollback_to_def rollback_marker_validate_def Let_def not_less
        older_def [symmetric])
qed

lemma write_set_inv_undo:
  assumes "write_set_inv ws"
  shows "write_set_inv (fst (write_set_rollback_to ws marker))"
proof (cases "0 < marker_savepoint_id marker \<and> rollback_ordinal marker \<le> write_set_rollback_ordinal ws")
  case True
  then show ?thesis
    using assms write_set_rollback_eq [OF assms, of marker]
    by (auto simp: write_set_inv_def sorted_wrt_append sorted_wrt_map sorted_wrt_filter)
next
  case False
  then have "\<not> 0 < marker_savepoint_id marker \<or> rollback_ordinal marker > write_set_rollback_ordinal ws"
    by auto
  then have "fst (write_set_rollback_to ws marker) = ws"
    by (auto simp: write_set_rollback_to_def rollback_marker_validate_def savepoint_id_validate_def
        word_neq_0_conv split: sum.splits)
  with assms show ?thesis by simp
qed

lemma write_set_step_inv: "write_set_step ws ws' \<Longrightarrow> write_set_inv ws \<Longrightarrow> write_set_inv ws'"
proof (induction rule: write_set_step.induct)
  case (step_full ws)
  then show ?case by (simp add: full_rollback_def write_set_inv_def)
qed (rule write_set_inv_record write_set_inv_undo; assumption)+

interpretation write_set: invariant_system tx_write_set_new write_set_step write_set_inv
  by unfold_locales (simp add: tx_write_set_new_def write_set_inv_def, rule write_set_step_inv)

type_synonym write_request =
  "write_set_operation_kind \<times> write_set_resource_id \<times> write_set_image option \<times> write_set_image option"

text \<open>A sequence of write requests, the refused ones included.\<close>

fun record_all :: "tx_write_set \<Rightarrow> write_request list \<Rightarrow> tx_write_set" where
  "record_all ws [] = ws"
| "record_all ws ((kind, resource, before, after) # ops) =
     record_all (fst (record_operation ws kind resource before after)) ops"

lemma record_all_later:
  "write_set_inv ws \<Longrightarrow> \<exists>later. write_entries (record_all ws ops) = write_entries ws @ later \<and>
     (\<forall>e \<in> set later. next_ordinal ws \<le> entry_ordinal e) \<and> write_set_inv (record_all ws ops)"
proof (induction ops arbitrary: ws)
  case (Cons op ops)
  obtain kind resource before after where op: "op = (kind, resource, before, after)" by (cases op) auto
  define ws' where "ws' = fst (record_operation ws kind resource before after)"
  obtain new where new: "write_entries ws' = write_entries ws @ new" "next_ordinal ws \<le> next_ordinal ws'"
    "\<forall>e \<in> set new. next_ordinal ws \<le> entry_ordinal e"
  proof (cases rule: record_operation_cases [of ws kind resource before after])
    case (failed e)
    then show thesis by (intro that [of "[]"]) (simp_all add: ws'_def)
  next
    case (recorded n entry)
    then show thesis
      using checked_add_one_le [OF recorded(1)] by (intro that [of "[entry]"]) (simp_all add: ws'_def)
  qed
  have "write_set_inv ws'" unfolding ws'_def by (rule write_set_inv_record [OF Cons.prems])
  from Cons.IH [OF this] obtain later where later: "write_entries (record_all ws' ops) = write_entries ws' @ later"
    "\<forall>e \<in> set later. next_ordinal ws' \<le> entry_ordinal e" "write_set_inv (record_all ws' ops)" by blast
  then have "write_entries (record_all ws (op # ops)) = write_entries ws @ new @ later"
    "\<forall>e \<in> set (new @ later). next_ordinal ws \<le> entry_ordinal e" "write_set_inv (record_all ws (op # ops))"
    using new by (auto simp: op ws'_def [symmetric] intro: order_trans)
  then show ?case by blast
qed simp

lemma rollback_ordinal_max:
  assumes "write_set_inv ws"
  shows "\<forall>e \<in> set (write_entries ws). entry_ordinal e \<le> write_set_rollback_ordinal ws"
    and "write_set_rollback_ordinal ws < next_ordinal ws"
  using assms
  by (cases "write_entries ws" rule: rev_cases;
      auto simp: write_set_rollback_ordinal_def write_set_inv_def sorted_wrt_append less_imp_le)+

text \<open>
  C15. Undo restores the write set. Take a marker from a reachable write set and record any further
  writes. Rolling back to the marker leaves the entries there were plus the lock evidence recorded
  since, and returns every other entry recorded since, newest first.
\<close>

theorem write_set_undo_restores:
  assumes "write_set_step\<^sup>*\<^sup>* tx_write_set_new ws" and "0 < i" and "savepoint_marker ws i = Inr marker"
  shows "\<exists>later. write_entries (record_all ws ops) = write_entries ws @ later \<and>
    write_set_rollback_to (record_all ws ops) marker =
      ((record_all ws ops)\<lparr>write_entries := write_entries ws @ filter (\<lambda>e. operation_kind e = LockEvidence) later\<rparr>,
       Inr (rev (filter (\<lambda>e. operation_kind e \<noteq> LockEvidence) later)))"
proof -
  have inv: "write_set_inv ws" using assms(1) by (rule write_set.reachable_inv)
  obtain later where later: "write_entries (record_all ws ops) = write_entries ws @ later"
    "\<forall>e \<in> set later. next_ordinal ws \<le> entry_ordinal e" "write_set_inv (record_all ws ops)"
    using record_all_later [OF inv] by blast
  have marker: "rollback_ordinal marker = write_set_rollback_ordinal ws" "marker_savepoint_id marker = i"
    using assms(2,3) by (auto simp: savepoint_marker_def rollback_marker_new_def)
  have old: "\<forall>e \<in> set (write_entries ws). entry_ordinal e \<le> rollback_ordinal marker"
    and new: "\<forall>e \<in> set later. rollback_ordinal marker < entry_ordinal e"
    using rollback_ordinal_max [OF inv] later(2) by (auto simp: marker(1))
  have "rollback_ordinal marker \<le> write_set_rollback_ordinal (record_all ws ops)"
    using later(1) new marker(1) by (cases later rule: rev_cases)
      (auto simp: write_set_rollback_ordinal_def less_imp_le)
  from write_set_rollback_eq [OF later(3) _ this] show ?thesis
    using old new later(1) marker(2) assms(2)
    by (intro exI [of _ later]) (simp add: filter_empty_conv not_le not_less)
qed

definition demo_writes :: tx_write_set where
  "demo_writes = record_all tx_write_set_new
     [(WsInsert, ResourceText ''row-1'', None, None), (WsUpdate, ResourceText ''row-2'', None, None)]"

lemma demo_writes_reachable: "write_set_step\<^sup>*\<^sup>* tx_write_set_new demo_writes"
proof -
  have step: "write_set_step\<^sup>*\<^sup>* tx_write_set_new ws \<Longrightarrow>
      write_set_step\<^sup>*\<^sup>* tx_write_set_new (fst (record_operation ws kind resource before after))" for ws kind resource before after
    by (erule rtranclp.rtrancl_into_rtrancl) (rule step_operation)
  show ?thesis by (simp add: demo_writes_def step)
qed

lemma demo_writes_eval:
  "demo_writes = \<lparr>next_ordinal = 3, write_entries =
     [\<lparr>entry_ordinal = 1, operation_kind = WsInsert, resource_id = ResourceText ''row-1'',
       before_image = None, after_image = None\<rparr>,
      \<lparr>entry_ordinal = 2, operation_kind = WsUpdate, resource_id = ResourceText ''row-2'',
       before_image = None, after_image = None\<rparr>]\<rparr>"
  by (simp add: demo_writes_def tx_write_set_new_def record_operation_def validate_resource_id_def
      validate_non_empty_bounded_def utf8_length_def MAX_WRITE_SET_RESOURCE_ID_BYTES_def checked_add_def Let_def)

theorem write_set_undo_restores_witness:
  "\<exists>later. write_entries (record_all demo_writes [(WsDelete, ResourceText ''row-1'', None, None)]) =
      write_entries demo_writes @ later \<and>
    snd (write_set_rollback_to (record_all demo_writes [(WsDelete, ResourceText ''row-1'', None, None)])
      \<lparr>marker_savepoint_id = 4, rollback_ordinal = 2\<rparr>) = Inr (rev (filter (\<lambda>e. operation_kind e \<noteq> LockEvidence) later))"
proof -
  have "savepoint_marker demo_writes 4 = Inr \<lparr>marker_savepoint_id = 4, rollback_ordinal = 2\<rparr>"
    by (simp add: savepoint_marker_def rollback_marker_new_def write_set_rollback_ordinal_def demo_writes_eval)
  from write_set_undo_restores [OF demo_writes_reachable _ this, of "[(WsDelete, ResourceText ''row-1'', None, None)]"]
  show ?thesis by auto
qed

end
