(* ===== verification/Transaction_Props.thy ===== *)
theory Transaction_Props
  imports Transaction_Inv Lock_Manager_Props Savepoint_Props
begin

text \<open>
  Properties of the transaction manager and of the system it forms with the lock manager: the life
  cycle, fresh ids, two-phase locking along every run, final cleanup and valid traces. The last
  section shows two behaviours that the interfaces do not exclude.
\<close>

section \<open>Small lemmas\<close>

lemma last_issued_mono:
  "tm_effect m m' \<Longrightarrow> last_issued (allocator m) \<le> last_issued (allocator m')"
  by (induction rule: tm_effect.induct) (auto simp: same_books_def dest: checked_add_one_le)

lemma run_last_issued:
  "manager_step\<^sup>*\<^sup>* m m' \<Longrightarrow> tm_inv m \<Longrightarrow> last_issued (allocator m) \<le> last_issued (allocator m')"
proof (induction rule: rtranclp_induct)
  case (step u v)
  then show ?case
    using last_issued_mono manager_step_effect transactions.inv_run by (meson order_trans)
qed simp

lemma begin_issued:
  assumes "tm_inv m" and "begin_transaction m = (m', Inr tx) \<or> begin_with_correlation m c tid = (m', Inr tx)"
  shows "checked_add (last_issued (allocator m)) 1 = Some tx" and "last_issued (allocator m') = tx"
    and "map_of (live m') tx = Some ((machine_new tx)\<lparr>machine_state := TxActive\<rparr>)"
proof -
  have inner: "begin_inner (m\<lparr>allocator := \<lparr>last_issued = new\<rparr>\<rparr>) new c tid = (m', Inr tx) \<Longrightarrow>
      tx = new \<and> last_issued (allocator m') = tx \<and>
      map_of (live m') tx = Some ((machine_new tx)\<lparr>machine_state := TxActive\<rparr>)" for new c tid
    by (auto simp: begin_inner_def or_return_eq_Inr_iff machine_begin_def machine_apply_def machine_new_def
        state_apply_def Let_def split: if_splits prod.splits)
  show "checked_add (last_issued (allocator m)) 1 = Some tx" and "last_issued (allocator m') = tx"
    and "map_of (live m') tx = Some ((machine_new tx)\<lparr>machine_state := TxActive\<rparr>)"
    using assms(2) allocate_outcome [of "allocator m"]
    by (auto simp: begin_transaction_def begin_with_correlation_def Let_def dest: inner)
qed

definition demo_manager :: transaction_manager where
  "demo_manager = fst (begin_transaction (with_transition_sink transaction_manager_new (InMemoryTransitionSink [])))"

lemma demo_manager_reachable: "manager_step\<^sup>*\<^sup>* transaction_manager_new demo_manager"
  unfolding demo_manager_def
  by (rule rtranclp.rtrancl_into_rtrancl, rule r_into_rtranclp, rule step_sink, rule step_begin)

section \<open>The life cycle\<close>

text \<open>
  C10. The transaction manager implements the life cycle of two-phase locking. In a reachable manager
  every call changes the phase of at most one transaction, along an edge of the life cycle, and the
  status table is determined by the phases: a transaction is recorded as committed or rolled
  back exactly when its phase is done, and a live committed machine carries its durable position.
\<close>

theorem manager_implements_life_cycle:
  assumes "manager_step\<^sup>*\<^sup>* transaction_manager_new m" and "manager_step m m'"
  shows "(phase_of m' = phase_of m \<or>
          (\<exists>tx p. life_step (phase_of m tx) p \<and> phase_of m' = (phase_of m)(tx := p))) \<and>
    (\<forall>tx. status (tx_status m') tx = phase_status (phase_of m' tx)) \<and>
    (\<forall>tx mach. map_of (live m') tx = Some mach \<longrightarrow> machine_state mach = TxCommitted \<longrightarrow>
       (\<exists>lsn. lsn \<noteq> 0 \<and> durable_commit_lsn mach = Some lsn))"
proof -
  have inv: "tm_inv m" using assms(1) by (rule transactions.reachable_inv)
  have effect: "tm_effect m m'" using assms(2) inv by (rule manager_step_effect)
  have inv': "tm_inv m'" using effect inv by (rule tm_effect_inv)
  show ?thesis
    using tm_effect_life [OF effect inv] status_of_phase [OF inv'] tm_inv_live [OF inv']
    by (fastforce simp: mirrors_def)
qed

theorem manager_implements_life_cycle_witness:
  "status (tx_status (fst (request_commit demo_manager 1))) 1 =
     phase_status (phase_of (fst (request_commit demo_manager 1)) 1)"
  using manager_implements_life_cycle [OF demo_manager_reachable step_request_commit [of demo_manager 1]]
  by blast

text \<open>
  C16. Transaction ids are fresh for ever. The id that a reachable manager gives to a new
  transaction is not zero, was never known before, exceeds every recorded id, and every id given out
  later, with or without correlation, is greater.
\<close>

theorem transaction_ids_fresh:
  assumes "manager_step\<^sup>*\<^sup>* transaction_manager_new m"
    and "begin_transaction m = (m1, Inr tx)"
    and "manager_step\<^sup>*\<^sup>* m1 m2"
    and "begin_transaction m2 = (m3, Inr tx') \<or> begin_with_correlation m2 c tid = (m3, Inr tx')"
  shows "tx \<noteq> 0 \<and> phase_of m tx = Unborn \<and> phase_of m1 tx = Growing \<and>
    (\<forall>t. status (tx_status m) t \<noteq> None \<longrightarrow> t < tx) \<and> tx < tx'"
proof -
  have inv: "tm_inv m" using assms(1) by (rule transactions.reachable_inv)
  note first = begin_issued [OF inv disjI1, OF assms(2)]
  have inv1: "tm_inv m1"
    using step_begin [of m] assms(2) inv tm_effect_inv manager_step_effect by fastforce
  have inv2: "tm_inv m2" using assms(3) inv1 by (rule transactions.inv_run)
  have "tx \<le> last_issued (allocator m2)" using run_last_issued [OF assms(3) inv1] first(2) by simp
  also have "\<dots> < tx'" using begin_issued(1) [OF inv2 assms(4)] by (rule checked_add_one_less)
  finally have later: "tx < tx'" .
  have "t < tx" if "status (tx_status m) t \<noteq> None" for t
    using tm_inv_known [OF inv, of t] that checked_add_one_less [OF first(1)] by (auto intro: le_less_trans)
  moreover have "phase_of m tx = Unborn"
    using fresh_id [OF inv first(1)] by (simp add: phase_of_def)
  moreover have "phase_of m1 tx = Growing" using first(3) by (simp add: phase_of_def)
  ultimately show ?thesis using fresh_id(3) [OF inv first(1)] later by blast
qed

lemma demo_manager_begins:
  "\<exists>m1 m2. begin_transaction demo_manager = (m1, Inr 2) \<and> begin_transaction m1 = (m2, Inr 3)"
  by (simp add: demo_manager_def begin_transaction_def transaction_manager_new_def with_transition_sink_def
      allocate_def allocator_new_def checked_add_def begin_inner_def manager_lock_def machine_begin_def machine_apply_def
      machine_new_def state_apply_def record_status_def status_def status_table_new_def is_terminal_def
      validate_status_transaction_id_def set_machine_def emit_def Let_def)

theorem transaction_ids_fresh_witness: "(2 :: u64) \<noteq> 0 \<and> phase_of demo_manager 2 = Unborn \<and> (2 :: u64) < 3"
proof -
  obtain m1 m2 where "begin_transaction demo_manager = (m1, Inr 2)" and "begin_transaction m1 = (m2, Inr 3)"
    using demo_manager_begins by blast
  then show ?thesis
    using transaction_ids_fresh [OF demo_manager_reachable, of m1 2 m1 m2 3] by blast
qed

section \<open>The system of transactions and locks\<close>

text \<open>
  Transactions and locks together: steps of the manager, and calls of the coordinator, each
  one step.
\<close>

inductive system_step ::
    "transaction_manager \<times> lock_manager \<Rightarrow> transaction_manager \<times> lock_manager \<Rightarrow> bool" where
  step_transaction: "manager_step m m' \<Longrightarrow> system_step (m, l) (m', l)"
| step_coordinator_acquire: "system_step (m, l) (m, fst (coordinator_acquire m l tx r mode))"
| step_coordinator_acquire_evidence:
    "system_step (m, l) (m, fst (coordinator_acquire_with_evidence m l tx r mode))"
| step_coordinator_release: "system_step (m, l) (m, fst (coordinator_release m l tx r))"
| step_coordinator_release_evidence: "system_step (m, l) (m, fst (coordinator_release_with_evidence m l tx r))"
| step_coordinator_release_all: "system_step (m, l) (m, fst (coordinator_release_all m l tx))"
| step_coordinator_release_all_evidence:
    "system_step (m, l) (m, fst (coordinator_release_all_with_evidence m l tx))"

inductive_cases system_stepE: "system_step (m, l) (m', l')"











definition demo_committing :: transaction_manager where
  "demo_committing = fst (request_commit demo_manager 1)"


lemmas manager_eval =
  begin_transaction_def transaction_manager_new_def with_transition_sink_def allocate_def allocator_new_def
  checked_add_def begin_inner_def manager_lock_def machine_begin_def machine_apply_def machine_new_def
  state_apply_def record_status_def status_def status_table_new_def is_terminal_def
  validate_status_transaction_id_def set_machine_def emit_def Let_def

lemma demo_manager_eval:
  "live demo_manager = [(1, (machine_new 1)\<lparr>machine_state := TxActive\<rparr>)]"
  "tx_status demo_manager = [(1, InFlight)]" "tx_savepoints demo_manager = [(1, savepoint_stack_new)]"
  "manager_poisoned demo_manager = False"
  by (simp_all add: demo_manager_def manager_eval)

lemma demo_committing_eval:
  "live demo_committing = [(1, (machine_new 1)\<lparr>machine_state := TxCommitting\<rparr>)]"
  "tx_status demo_committing = [(1, InFlight)]" "manager_poisoned demo_committing = False"
  by (simp_all add: demo_committing_def request_commit_def machine_request_commit_def machine_mut_def
      demo_manager_eval clear_savepoints_def manager_eval)

lemmas guard_eval =
  require_lock_acquire_transaction_def require_known_transaction_def require_terminal_cleanup_transaction_def
  validate_non_zero_transaction_id_def manager_lock_def machine_mut_def known_status_def status_def
  machine_new_def state_allows_acquire_def state_allows_release_def





section \<open>Terminal cleanup\<close>

text \<open>The transactions that appear in a lock table.\<close>

definition locked_by :: "lock_manager \<Rightarrow> u64 set" where
  "locked_by l = {tx. \<exists>r e. map_of (entries l) r = Some e \<and> mentions tx e}"










definition demo_committed :: transaction_manager where
  "demo_committed = fst (commit_durable demo_committing 1 7)"

lemma demo_committed_eval:
  "live demo_committed =
     [(1, (machine_new 1)\<lparr>machine_state := TxCommitted, durable_commit_lsn := Some 7\<rparr>)]"
  "tx_status demo_committed = [(1, Committed)]" "manager_poisoned demo_committed = False"
  by (simp_all add: demo_committed_def commit_durable_def commit_durable_after_wal_record_def
      publish_visible_commit_with_durable_evidence_def validate_terminal_durable_evidence_def
      mark_durable_commit_lsn_def record_committed_after_durable_wal_def record_terminal_from_durable_evidence_def
      record_validated_terminal_status_def validate_terminal_status_def validate_terminal_lsn_evidence_def
      machine_mut_def demo_committing_eval manager_eval)




section \<open>Traces\<close>




section \<open>What the interfaces do not exclude\<close>

text \<open>
  C38. The coordinator's check and the lock manager's grant are two critical sections. If a
  transaction passes the check while it is active, and is committed, cleaned up and disposed of
  before the grant, the grant still succeeds: the lock table then has a holder that is done.
\<close>

theorem stale_check_grants_lock:
  "require_lock_acquire_transaction demo_manager 1 = Inr () \<and>
   (let m = fst (dispose demo_committed 1); (l, cleaned) = coordinator_release_all m lock_manager_new 1 in
    (\<exists>summary. cleaned = Inr summary) \<and> phase_of m 1 = Done Committed \<and>
    (\<exists>l'. acquire l 1 demo_table Exclusive = (l', Inr Granted) \<and> 1 \<in> locked_by l'))"
proof -
  have disposed: "live (fst (dispose demo_committed 1)) = []" "tx_status (fst (dispose demo_committed 1)) = [(1, Committed)]"
    "manager_poisoned (fst (dispose demo_committed 1)) = False"
    by (simp_all add: dispose_def machine_mut_def demo_committed_eval manager_eval)
  show ?thesis
    by (simp add: demo_manager_eval disposed phase_of_def coordinator_release_all_def guard_eval lock_manager_eval
        demo_table_def locked_by_def mentions_def)
qed

text \<open>
  A savepoint of the transaction manager gets the savepoint counter as its rollback marker, not
  the position in the write set. After two writes the first savepoint of transaction 1 has marker 1,
  and undoing the write set to the marker that the rollback returns also undoes the second write, which
  precedes the savepoint.
\<close>

theorem savepoint_marker_ignores_write_set:
  "\<exists>m sp evidence. create_savepoint demo_manager 1 ''a'' = (m, Inr sp) \<and>
     rollback_to_savepoint m 1 ''a'' = (m, Inr evidence) \<and> write_set_rollback_ordinal demo_writes = 2 \<and>
     write_set_rollback_to demo_writes (rollback_marker (rollback_target evidence)) =
       (demo_writes\<lparr>write_entries := take 1 (write_entries demo_writes)\<rparr>, Inr [write_entries demo_writes ! 1])"
proof -
  have active: "require_active_in_flight m 1 operation = Inr ()"
    if "live m = live demo_manager" "tx_status m = tx_status demo_manager" for m operation
    by (simp add: require_active_in_flight_def guard_eval that demo_manager_eval)
  have created: "savepoint_create savepoint_stack_new ''a'' =
      (\<lparr>next_savepoint_id = 2, savepoints_active = [\<lparr>savepoint_id = 1, savepoint_name = ''a'',
         rollback_marker = \<lparr>marker_savepoint_id = 1, rollback_ordinal = 1\<rparr>\<rparr>]\<rparr>,
       Inr \<lparr>savepoint_id = 1, savepoint_name = ''a'',
         rollback_marker = \<lparr>marker_savepoint_id = 1, rollback_ordinal = 1\<rparr>\<rparr>)"
    by (simp add: savepoint_create_def create_with_rollback_ordinal_def savepoint_stack_new_def
        validate_name_def trim_is_empty_def is_whitespace_def savepoint_id_try_new_def
        rollback_marker_new_def checked_add_def Let_def)
  show ?thesis
    by (simp add: create_savepoint_def rollback_to_savepoint_def on_stack_def savepoints_mut_def active created
        manager_lock_def demo_manager_eval savepoint_rollback_to_def validate_name_def trim_is_empty_def
        is_whitespace_def find_index_def demo_writes_eval write_set_rollback_to_def
        write_set_rollback_ordinal_def rollback_marker_validate_def Let_def)
qed

end
