(* ===== verification/Bytes.thy ===== *)
theory Bytes
  imports Andromeda_Prelude
begin

text \<open>
  Byte strings: the little-endian encodings \<open>to_le_bytes\<close> and \<open>from_le_bytes\<close> of the fixed width
  integers, reading a field at an offset (\<open>andromeda-wal-codec/src/binary.rs\<close>), and the checksum
  \<open>fnv64_nonzero\<close> (\<open>checksum.rs\<close>) that frames and records share.
\<close>

unbundle bit_operations_syntax

section \<open>Little-endian integers\<close>

definition le_bytes :: "nat \<Rightarrow> 'a::len word \<Rightarrow> u8 list" where
  "le_bytes n w = map (\<lambda>i. ucast (drop_bit (8 * i) w)) [0..<n]"

fun of_le_bytes :: "u8 list \<Rightarrow> 'a::len word" where
  "of_le_bytes [] = 0"
| "of_le_bytes (b # bs) = ucast b OR push_bit 8 (of_le_bytes bs)"

lemma length_le_bytes [simp]: "length (le_bytes n w) = n"
  by (simp add: le_bytes_def)

lemma bit_of_le_bytes:
  "bit (of_le_bytes bs :: 'a::len word) n \<longleftrightarrow>
     n < LENGTH('a) \<and> n div 8 < length bs \<and> bit (bs ! (n div 8)) (n mod 8)"
proof (induction bs arbitrary: n)
  case (Cons b bs)
  have bits: "bit (of_le_bytes (b # bs) :: 'a word) n \<longleftrightarrow>
      n < LENGTH('a) \<and> bit b n \<or> 8 \<le> n \<and> n < LENGTH('a) \<and> bit (of_le_bytes bs :: 'a word) (n - 8)"
    by (simp add: bit_or_iff bit_ucast_iff bit_push_bit_iff)
  show ?case
  proof (cases "n < 8")
    case True
    then show ?thesis unfolding bits by simp
  next
    case False
    then have "n div 8 = Suc ((n - 8) div 8)" "(n - 8) mod 8 = n mod 8"
      by (simp_all add: le_div_geq le_mod_geq not_less)
    moreover have "\<not> bit b n" using False bit_imp_le_length [of b n] by auto
    ultimately show ?thesis unfolding bits Cons using False by auto
  qed
qed simp

lemma of_le_bytes_le_bytes:
  assumes "LENGTH('a::len) = 8 * n"
  shows "of_le_bytes (le_bytes n w) = (w :: 'a word)"
proof (rule bit_word_eqI)
  fix k assume "k < LENGTH('a)"
  then have "k div 8 < n" "k mod 8 < LENGTH(8)" "8 * (k div 8) + k mod 8 = k" using assms by auto
  then show "bit (of_le_bytes (le_bytes n w) :: 'a word) k = bit w k"
    using \<open>k < LENGTH('a)\<close>
    by (simp add: bit_of_le_bytes le_bytes_def bit_simps add.commute del: len_of_numeral_defs len_num0 len_num1)
qed

lemma le_bytes_of_le_bytes:
  assumes "LENGTH('a::len) = 8 * n" and "length bs = n"
  shows "le_bytes n (of_le_bytes bs :: 'a word) = bs"
proof (rule nth_equalityI)
  show "length (le_bytes n (of_le_bytes bs :: 'a word)) = length bs" using assms by simp
next
  fix i assume "i < length (le_bytes n (of_le_bytes bs :: 'a word))"
  then have i: "i < n" by simp
  show "le_bytes n (of_le_bytes bs :: 'a word) ! i = bs ! i"
  proof (rule bit_word_eqI)
    fix k assume "k < LENGTH(8)"
    then have "k < 8" by simp
    then have "8 * i + k < LENGTH('a)" "(8 * i + k) div 8 = i" "(8 * i + k) mod 8 = k" using i assms by auto
    then show "bit (le_bytes n (of_le_bytes bs :: 'a word) ! i) k = bit (bs ! i) k"
      using i assms(2) \<open>k < 8\<close> by (simp add: le_bytes_def bit_simps bit_of_le_bytes)
  qed
qed

section \<open>Fields\<close>

definition storage_error :: "string \<Rightarrow> andromeda_error" where
  "storage_error message = AndromedaError Storage message"

text \<open>\<open>bytes.get(offset..offset + n)\<close>: \<open>None\<close> when the range leaves the slice.\<close>

definition get_range :: "u8 list \<Rightarrow> nat \<Rightarrow> nat \<Rightarrow> u8 list option" where
  "get_range bytes offset n =
     (if offset + n \<le> length bytes then Some (take n (drop offset bytes)) else None)"

definition read_array :: "u8 list \<Rightarrow> nat \<Rightarrow> nat \<Rightarrow> string \<Rightarrow> u8 list andromeda_result" where
  "read_array bytes offset n message =
     (case get_range bytes offset n of Some bs \<Rightarrow> Inr bs | None \<Rightarrow> Inl (storage_error message))"

definition read_u16 :: "u8 list \<Rightarrow> nat \<Rightarrow> u16 andromeda_result" where
  "read_u16 bytes offset =
     and_then (read_array bytes offset 2 ''WAL frame u16 field out of bounds'') (\<lambda>bs. Inr (of_le_bytes bs))"

definition read_u64 :: "u8 list \<Rightarrow> nat \<Rightarrow> u64 andromeda_result" where
  "read_u64 bytes offset =
     and_then (read_array bytes offset 8 ''WAL frame u64 field out of bounds'') (\<lambda>bs. Inr (of_le_bytes bs))"

lemma read_u16_at: "length pre = offset \<Longrightarrow> read_u16 (pre @ le_bytes 2 w @ post) offset = Inr w"
  by (simp add: read_u16_def read_array_def get_range_def of_le_bytes_le_bytes)

lemma read_u64_at: "length pre = offset \<Longrightarrow> read_u64 (pre @ le_bytes 8 w @ post) offset = Inr w"
  by (simp add: read_u64_def read_array_def get_range_def of_le_bytes_le_bytes)

section \<open>The checksum\<close>

definition FNV_OFFSET :: u64 where
  "FNV_OFFSET = 0xcbf29ce484222325"

definition FNV_PRIME :: u64 where
  "FNV_PRIME = 0x00000100000001b3"

definition fnv_byte :: "u8 \<Rightarrow> u64 \<Rightarrow> u64" where
  "fnv_byte byte state = (state XOR ucast byte) * FNV_PRIME"

definition fnv_fold :: "u8 list \<Rightarrow> u64 \<Rightarrow> u64" where
  "fnv_fold bytes state = fold fnv_byte bytes state"

definition nonzero :: "u64 \<Rightarrow> u64" where
  "nonzero state = (if state = 0 then 1 else state)"

definition fnv64_nonzero :: "u8 list \<Rightarrow> u64" where
  "fnv64_nonzero bytes = nonzero (fnv_fold bytes FNV_OFFSET)"

lemma fnv64_nonzero_pos: "fnv64_nonzero bytes \<noteq> 0"
  by (simp add: fnv64_nonzero_def nonzero_def)

text \<open>
  The prime is odd, so one byte step is injective in the state and, for a fixed state, in the byte:
  a single corrupted byte always changes the unguarded digest.
\<close>

lemma fnv_prime_cancel: "a * FNV_PRIME = b * FNV_PRIME \<Longrightarrow> a = b"
proof -
  have "FNV_PRIME * 0xce965057aff6957b = 1" by (simp add: FNV_PRIME_def)
  then have "c * FNV_PRIME * 0xce965057aff6957b = c" for c :: u64 by (simp add: mult.assoc)
  then show "a * FNV_PRIME = b * FNV_PRIME \<Longrightarrow> a = b" by metis
qed

lemma word_xor_cancel: "a XOR c = b XOR c \<Longrightarrow> a = b" for a b c :: "'a::len word"
proof -
  assume eq: "a XOR c = b XOR c"
  have "a = (a XOR c) XOR c" by (simp add: xor.assoc)
  also have "\<dots> = (b XOR c) XOR c" by (simp only: eq)
  also have "\<dots> = b" by (simp add: xor.assoc)
  finally show "a = b" .
qed

lemma fnv_byte_state: "fnv_byte b s = fnv_byte b t \<longleftrightarrow> s = t"
  unfolding fnv_byte_def by (blast dest: fnv_prime_cancel word_xor_cancel)

lemma fnv_byte_byte: "fnv_byte b s = fnv_byte c s \<longleftrightarrow> b = c"
proof
  assume "fnv_byte b s = fnv_byte c s"
  then have "ucast b XOR s = ucast c XOR s"
    unfolding fnv_byte_def by (simp only: xor.commute [of s] fnv_prime_cancel)
  then have "(ucast b :: u64) = ucast c" by (rule word_xor_cancel)
  moreover have "(ucast (ucast x :: u64) :: u8) = x" for x :: u8
    by (rule bit_word_eqI) (simp add: bit_ucast_iff)
  ultimately show "b = c" by metis
qed simp

lemma fnv_fold_state: "fnv_fold bs s = fnv_fold bs t \<longleftrightarrow> s = t"
  by (induction bs arbitrary: s t) (simp_all add: fnv_fold_def fnv_byte_state)

lemma fnv_one_byte:
  "b \<noteq> c \<Longrightarrow> fnv_fold (pre @ b # post) s \<noteq> fnv_fold (pre @ c # post) s"
  using fnv_fold_state [of post] by (simp add: fnv_fold_def fnv_byte_byte)

end
