(* ===== verification/Wal_Codec.thy ===== *)
theory Wal_Codec
  imports Bytes
begin

text \<open>
  The WAL frame codec (crate \<open>andromeda-wal-codec\<close>): the frame header with its checksum
  (\<open>header.rs\<close>, \<open>checksum.rs\<close>), encoding and decoding of one frame (\<open>frame.rs\<close>) and the scan of a byte
  log (\<open>scan.rs\<close>). A \<open>usize\<close> has 64 bits, so a length field always fits it.
\<close>

section \<open>Frames and headers\<close>

definition WAL_FORMAT_VERSION :: u16 where
  "WAL_FORMAT_VERSION = 1"

definition WAL_RECORD_MAGIC :: u64 where
  "WAL_RECORD_MAGIC = 0x414e44524f57414c"

definition WAL_RECORD_HEADER_LEN :: nat where
  "WAL_RECORD_HEADER_LEN = 72"

definition FLAG_HAS_PREVIOUS_LSN :: u16 where
  "FLAG_HAS_PREVIOUS_LSN = 1"

definition FLAG_HAS_TRANSACTION_ID :: u16 where
  "FLAG_HAS_TRANSACTION_ID = 2"

record wal_codec_record_frame =
  frame_kind_tag :: u16
  frame_lsn :: u64
  frame_previous_lsn :: "u64 option"
  frame_transaction_id :: "u64 option"
  frame_payload :: "u8 list"
  frame_record_checksum :: u64

record wal_codec_frame_header =
  magic :: u64
  format_version :: u16
  header_length :: u16
  total_length :: u64
  kind_tag :: u16
  flags :: u16
  header_lsn :: u64
  header_previous_lsn :: "u64 option"
  header_transaction_id :: "u64 option"
  payload_length :: u64
  record_checksum :: u64
  header_checksum :: u64

definition option_or_zero :: "u64 option \<Rightarrow> u64" where
  "option_or_zero v = (case v of Some w \<Rightarrow> w | None \<Rightarrow> 0)"

text \<open>The header fields before the checksum, in their order on disk.\<close>

definition header_fields :: "wal_codec_frame_header \<Rightarrow> u8 list" where
  "header_fields h =
     le_bytes 8 (magic h) @ le_bytes 2 (format_version h) @ le_bytes 2 (header_length h) @
     le_bytes 8 (total_length h) @ le_bytes 2 (kind_tag h) @ le_bytes 2 (flags h) @
     le_bytes 8 (header_lsn h) @ le_bytes 8 (option_or_zero (header_previous_lsn h)) @
     le_bytes 8 (option_or_zero (header_transaction_id h)) @ le_bytes 8 (payload_length h) @
     le_bytes 8 (record_checksum h)"

definition header_checksum_without_checksum :: "wal_codec_frame_header \<Rightarrow> u64" where
  "header_checksum_without_checksum h = fnv64_nonzero (header_fields h)"

definition flags_for :: "u64 option \<Rightarrow> u64 option \<Rightarrow> u16" where
  "flags_for previous_lsn transaction_id =
     (if previous_lsn \<noteq> None then FLAG_HAS_PREVIOUS_LSN else 0) OR
     (if transaction_id \<noteq> None then FLAG_HAS_TRANSACTION_ID else 0)"

definition header_validate_frame :: "wal_codec_frame_header \<Rightarrow> unit andromeda_result" where
  "header_validate_frame h =
     (if magic h \<noteq> WAL_RECORD_MAGIC then Inl (storage_error ''WAL frame magic mismatch'')
      else if format_version h \<noteq> WAL_FORMAT_VERSION
      then Inl (storage_error ''unsupported WAL frame format version'')
      else if unat (header_length h) \<noteq> WAL_RECORD_HEADER_LEN
      then Inl (storage_error ''WAL frame header length mismatch'')
      else if total_length h < ucast (header_length h)
      then Inl (storage_error ''WAL frame total length is smaller than header'')
      else if payload_length h \<noteq> total_length h - ucast (header_length h)
      then Inl (storage_error ''WAL frame payload length mismatch'')
      else if flags h AND NOT (FLAG_HAS_PREVIOUS_LSN OR FLAG_HAS_TRANSACTION_ID) \<noteq> 0
      then Inl (storage_error ''unknown WAL frame flags'')
      else if (header_previous_lsn h \<noteq> None) \<noteq> (flags h AND FLAG_HAS_PREVIOUS_LSN \<noteq> 0)
      then Inl (storage_error ''WAL frame previous LSN flag mismatch'')
      else if (header_transaction_id h \<noteq> None) \<noteq> (flags h AND FLAG_HAS_TRANSACTION_ID \<noteq> 0)
      then Inl (storage_error ''WAL frame transaction id flag mismatch'')
      else if header_checksum h \<noteq> header_checksum_without_checksum h
      then Inl (storage_error ''WAL frame header checksum mismatch'')
      else Inr ())"

definition encoded_wal_record_frame_len :: "u64 \<Rightarrow> u64 andromeda_result" where
  "encoded_wal_record_frame_len payload_len =
     (case checked_add (of_nat WAL_RECORD_HEADER_LEN) payload_len of
        None \<Rightarrow> Inl (storage_error ''WAL frame total length would overflow u64'')
      | Some total_len \<Rightarrow> Inr total_len)"

definition from_record_frame :: "wal_codec_record_frame \<Rightarrow> wal_codec_frame_header andromeda_result" where
  "from_record_frame f =
     (let payload_len = of_nat (length (frame_payload f)) in
      and_then (encoded_wal_record_frame_len payload_len) (\<lambda>total_len.
        let h = \<lparr>magic = WAL_RECORD_MAGIC, format_version = WAL_FORMAT_VERSION,
                 header_length = of_nat WAL_RECORD_HEADER_LEN, total_length = total_len,
                 kind_tag = frame_kind_tag f,
                 flags = flags_for (frame_previous_lsn f) (frame_transaction_id f),
                 header_lsn = frame_lsn f, header_previous_lsn = frame_previous_lsn f,
                 header_transaction_id = frame_transaction_id f, payload_length = payload_len,
                 record_checksum = frame_record_checksum f, header_checksum = 0\<rparr>;
            h = h\<lparr>header_checksum := header_checksum_without_checksum h\<rparr> in
        and_then (header_validate_frame h) (\<lambda>_. Inr h)))"

definition decode_frame_header :: "u8 list \<Rightarrow> wal_codec_frame_header andromeda_result" where
  "decode_frame_header buffer =
     (if length buffer < WAL_RECORD_HEADER_LEN then Inl (storage_error ''truncated WAL frame header'')
      else
        and_then (read_u64 buffer 0) (\<lambda>magic_value.
        and_then (read_u16 buffer 8) (\<lambda>version.
        and_then (read_u16 buffer 10) (\<lambda>header_len.
        and_then (read_u64 buffer 12) (\<lambda>total_len.
        and_then (read_u16 buffer 20) (\<lambda>tag.
        and_then (read_u16 buffer 22) (\<lambda>flag_bits.
        and_then (read_u64 buffer 24) (\<lambda>lsn.
        and_then (read_u64 buffer 32) (\<lambda>previous_lsn_value.
        and_then (read_u64 buffer 40) (\<lambda>transaction_id_value.
        and_then (read_u64 buffer 48) (\<lambda>payload_len.
        and_then (read_u64 buffer 56) (\<lambda>record_sum.
        and_then (read_u64 buffer 64) (\<lambda>header_sum.
          if flag_bits AND FLAG_HAS_PREVIOUS_LSN = 0 \<and> previous_lsn_value \<noteq> 0
          then Inl (storage_error ''WAL frame has unflagged previous LSN bytes'')
          else if flag_bits AND FLAG_HAS_TRANSACTION_ID = 0 \<and> transaction_id_value \<noteq> 0
          then Inl (storage_error ''WAL frame has unflagged transaction id bytes'')
          else
            let h = \<lparr>magic = magic_value, format_version = version, header_length = header_len,
                     total_length = total_len, kind_tag = tag, flags = flag_bits, header_lsn = lsn,
                     header_previous_lsn =
                       (if flag_bits AND FLAG_HAS_PREVIOUS_LSN \<noteq> 0 then Some previous_lsn_value else None),
                     header_transaction_id =
                       (if flag_bits AND FLAG_HAS_TRANSACTION_ID \<noteq> 0 then Some transaction_id_value else None),
                     payload_length = payload_len, record_checksum = record_sum, header_checksum = header_sum\<rparr> in
            and_then (header_validate_frame h) (\<lambda>_. Inr h))))))))))))))"

definition encode_wal_record_frame :: "wal_codec_record_frame \<Rightarrow> u8 list andromeda_result" where
  "encode_wal_record_frame f =
     and_then (from_record_frame f) (\<lambda>h.
       Inr (header_fields h @ le_bytes 8 (header_checksum h) @ frame_payload f))"

definition decode_wal_record_frame ::
    "u8 list \<Rightarrow> (wal_codec_record_frame \<times> nat) option andromeda_result" where
  "decode_wal_record_frame buffer =
     (if buffer = [] then Inr None
      else if length buffer < WAL_RECORD_HEADER_LEN then Inl (storage_error ''truncated WAL frame header'')
      else
        and_then (decode_frame_header (take WAL_RECORD_HEADER_LEN buffer)) (\<lambda>h.
          let total_len = unat (total_length h) in
          if length buffer < total_len then Inl (storage_error ''truncated WAL frame payload'')
          else
            Inr (Some
              (\<lparr>frame_kind_tag = kind_tag h, frame_lsn = header_lsn h,
                frame_previous_lsn = header_previous_lsn h, frame_transaction_id = header_transaction_id h,
                frame_payload = drop WAL_RECORD_HEADER_LEN (take total_len buffer),
                frame_record_checksum = record_checksum h\<rparr>, total_len))))"

section \<open>Scanning a log\<close>

datatype wal_scan_stop_reason =
    TruncatedHeader | TruncatedRecord | CorruptHeader | CorruptRecord | LsnGap
  | DuplicateOrReorderedLsn | PreviousLsnMismatch

record wal_scan_stop =
  stop_offset :: nat
  stop_reason :: wal_scan_stop_reason

record 'a wal_codec_scan_result =
  scan_records :: "'a list"
  valid_bytes :: nat
  last_valid_lsn :: "u64 option"
  stopped :: "wal_scan_stop option"

definition scan_result ::
    "'a list \<Rightarrow> nat \<Rightarrow> u64 option \<Rightarrow> wal_scan_stop_reason \<Rightarrow> 'a wal_codec_scan_result" where
  "scan_result records offset last_lsn reason =
     \<lparr>scan_records = records, valid_bytes = offset, last_valid_lsn = last_lsn,
      stopped = Some \<lparr>stop_offset = offset, stop_reason = reason\<rparr>\<rparr>"

lemma header_validate_frame_length:
  "header_validate_frame h = Inr u \<Longrightarrow> 72 \<le> unat (total_length h)"
proof -
  assume "header_validate_frame h = Inr u"
  then have len: "unat (header_length h) = 72" and "\<not> total_length h < ucast (header_length h)"
    by (auto simp: header_validate_frame_def WAL_RECORD_HEADER_LEN_def split: if_splits)
  moreover have "unat (ucast (header_length h) :: u64) = 72" by (simp add: unsigned_ucast_eq len)
  ultimately show ?thesis by (simp add: word_less_nat_alt not_less)
qed

lemma decode_frame_header_valid: "decode_frame_header buffer = Inr h \<Longrightarrow> header_validate_frame h = Inr ()"
  by (auto simp: decode_frame_header_def and_then_eq_Inr_iff Let_def split: if_splits)

lemma decode_frame_header_length: "decode_frame_header buffer = Inr h \<Longrightarrow> 72 \<le> unat (total_length h)"
  by (drule decode_frame_header_valid) (rule header_validate_frame_length)

function scan_loop ::
    "u8 list \<Rightarrow> (wal_codec_frame_header \<Rightarrow> unit andromeda_result) \<Rightarrow>
     (u8 list \<Rightarrow> ('a \<times> nat) option andromeda_result) \<Rightarrow>
     nat \<Rightarrow> u64 option \<Rightarrow> u64 option \<Rightarrow> u64 option \<Rightarrow> 'a list \<Rightarrow> 'a wal_codec_scan_result" where
  "scan_loop buffer check decode offset previous last_lsn next_lsn records =
     (if \<not> offset < length buffer
      then \<lparr>scan_records = records, valid_bytes = offset, last_valid_lsn = last_lsn, stopped = None\<rparr>
      else if length buffer - offset < WAL_RECORD_HEADER_LEN
      then scan_result records offset last_lsn TruncatedHeader
      else
        (case and_then (decode_frame_header (take WAL_RECORD_HEADER_LEN (drop offset buffer)))
                (\<lambda>h. and_then (check h) (\<lambda>_. Inr h)) of
           Inl _ \<Rightarrow> scan_result records offset last_lsn CorruptHeader
         | Inr h \<Rightarrow>
             let total_len = unat (total_length h) in
             if length buffer - offset < total_len then scan_result records offset last_lsn TruncatedRecord
             else
               (case next_lsn of
                  None \<Rightarrow> scan_result records offset last_lsn DuplicateOrReorderedLsn
                | Some expected \<Rightarrow>
                    if header_lsn h < expected
                    then scan_result records offset last_lsn DuplicateOrReorderedLsn
                    else if header_lsn h > expected then scan_result records offset last_lsn LsnGap
                    else if previous \<noteq> header_previous_lsn h
                    then scan_result records offset last_lsn PreviousLsnMismatch
                    else
                      (case decode (take total_len (drop offset buffer)) of
                         Inr (Some (record, consumed)) \<Rightarrow>
                           if consumed = total_len
                           then scan_loop buffer check decode (offset + total_len) (Some (header_lsn h))
                                  (Some (header_lsn h)) (checked_add (header_lsn h) 1) (records @ [record])
                           else scan_result records offset last_lsn CorruptRecord
                       | _ \<Rightarrow> scan_result records offset last_lsn CorruptRecord))))"
  by pat_completeness auto
termination
proof (relation "measure (\<lambda>(buffer, check, decode, offset, _). length buffer - offset)", goal_cases)
  case (2 buffer check decode offset previous last_lsn next_lsn records h total_len)
  then have "72 \<le> unat (total_length h)"
    by (auto simp: and_then_eq_Inr_iff dest: decode_frame_header_length)
  with 2 show ?case by auto
qed simp

declare scan_loop.simps [simp del]

definition scan_wal_record_frames_from_with ::
    "u8 list \<Rightarrow> u64 \<Rightarrow> u64 option \<Rightarrow> (wal_codec_frame_header \<Rightarrow> unit andromeda_result) \<Rightarrow>
     (u8 list \<Rightarrow> ('a \<times> nat) option andromeda_result) \<Rightarrow> 'a wal_codec_scan_result" where
  "scan_wal_record_frames_from_with buffer first_lsn base_previous_lsn check decode =
     scan_loop buffer check decode 0 base_previous_lsn None (Some first_lsn) []"

definition scan_wal_record_frames_from ::
    "u8 list \<Rightarrow> u64 \<Rightarrow> u64 option \<Rightarrow> wal_codec_record_frame wal_codec_scan_result" where
  "scan_wal_record_frames_from buffer first_lsn base_previous_lsn =
     scan_wal_record_frames_from_with buffer first_lsn base_previous_lsn (\<lambda>_. Inr ()) decode_wal_record_frame"

definition scan_wal_record_frames :: "u8 list \<Rightarrow> wal_codec_record_frame wal_codec_scan_result" where
  "scan_wal_record_frames buffer = scan_wal_record_frames_from buffer 1 None"

end
