(* ===== verification/Wal_Codec_Props.thy ===== *)
theory Wal_Codec_Props
  imports Wal_Codec
begin

text \<open>
  Properties of the WAL frame codec: round trip, detection of a corrupted header byte, and what the
  scan of a torn log returns.
\<close>

section \<open>Reading what was written\<close>

lemma length_header_fields [simp]: "length (header_fields h) = 64"
  by (simp add: header_fields_def)

lemma header_fields_not_Nil [simp]: "header_fields h \<noteq> []"
  using length_header_fields [of h] by fastforce

lemma header_fields_checksum [simp]: "header_fields (h\<lparr>header_checksum := c\<rparr>) = header_fields h"
  by (simp add: header_fields_def)

lemma read_bytes_def: "read_array bytes offset n message =
    (if offset + n \<le> length bytes then Inr (take n (drop offset bytes)) else Inl (storage_error message))"
  by (simp add: read_array_def get_range_def)

lemma decode_header_fields:
  assumes "header_validate_frame h = Inr ()"
  shows "decode_frame_header (header_fields h @ le_bytes 8 (header_checksum h) @ rest) = Inr h"
proof -
  have prev: "(header_previous_lsn h \<noteq> None) = (flags h AND FLAG_HAS_PREVIOUS_LSN \<noteq> 0)"
    and tx: "(header_transaction_id h \<noteq> None) = (flags h AND FLAG_HAS_TRANSACTION_ID \<noteq> 0)"
    using assms by (auto simp: header_validate_frame_def split: if_splits)
  have options: "(if flags h AND FLAG_HAS_PREVIOUS_LSN \<noteq> 0 then Some (option_or_zero (header_previous_lsn h)) else None)
      = header_previous_lsn h"
    "(if flags h AND FLAG_HAS_TRANSACTION_ID \<noteq> 0 then Some (option_or_zero (header_transaction_id h)) else None)
      = header_transaction_id h"
    using prev tx by (auto simp: option_or_zero_def split: option.splits)
  have zero: "\<not> (flags h AND FLAG_HAS_PREVIOUS_LSN = 0 \<and> option_or_zero (header_previous_lsn h) \<noteq> 0)"
    "\<not> (flags h AND FLAG_HAS_TRANSACTION_ID = 0 \<and> option_or_zero (header_transaction_id h) \<noteq> 0)"
    using prev tx by (auto simp: option_or_zero_def split: option.splits)
  have reads: "read_u64 (header_fields h @ le_bytes 8 c @ rest) 0 = Inr (magic h)"
    "read_u16 (header_fields h @ le_bytes 8 c @ rest) 8 = Inr (format_version h)"
    "read_u16 (header_fields h @ le_bytes 8 c @ rest) 10 = Inr (header_length h)"
    "read_u64 (header_fields h @ le_bytes 8 c @ rest) 12 = Inr (total_length h)"
    "read_u16 (header_fields h @ le_bytes 8 c @ rest) 20 = Inr (kind_tag h)"
    "read_u16 (header_fields h @ le_bytes 8 c @ rest) 22 = Inr (flags h)"
    "read_u64 (header_fields h @ le_bytes 8 c @ rest) 24 = Inr (header_lsn h)"
    "read_u64 (header_fields h @ le_bytes 8 c @ rest) 32 = Inr (option_or_zero (header_previous_lsn h))"
    "read_u64 (header_fields h @ le_bytes 8 c @ rest) 40 = Inr (option_or_zero (header_transaction_id h))"
    "read_u64 (header_fields h @ le_bytes 8 c @ rest) 48 = Inr (payload_length h)"
    "read_u64 (header_fields h @ le_bytes 8 c @ rest) 56 = Inr (record_checksum h)"
    "read_u64 (header_fields h @ le_bytes 8 c @ rest) 64 = Inr c" for c
    by (simp_all add: header_fields_def read_u64_def read_u16_def read_bytes_def of_le_bytes_le_bytes)
  have eta: "\<lparr>magic = magic h, format_version = format_version h, header_length = header_length h,
      total_length = total_length h, kind_tag = kind_tag h, flags = flags h, header_lsn = header_lsn h,
      header_previous_lsn = header_previous_lsn h, header_transaction_id = header_transaction_id h,
      payload_length = payload_length h, record_checksum = record_checksum h, header_checksum = header_checksum h\<rparr> = h"
    by simp
  show ?thesis
    unfolding decode_frame_header_def reads and_then_simps options Let_def eta
    using assms zero by (simp add: WAL_RECORD_HEADER_LEN_def)
qed

lemma flags_for_bits [simp]:
  "flags_for p t AND (NOT FLAG_HAS_PREVIOUS_LSN AND NOT FLAG_HAS_TRANSACTION_ID) = 0"
  "flags_for p t AND FLAG_HAS_PREVIOUS_LSN = 0 \<longleftrightarrow> p = None"
  "flags_for p t AND FLAG_HAS_TRANSACTION_ID = 0 \<longleftrightarrow> t = None"
  by (simp_all add: flags_for_def FLAG_HAS_PREVIOUS_LSN_def FLAG_HAS_TRANSACTION_ID_def)

lemma from_record_frame_Inr:
  assumes "from_record_frame f = Inr h" and "length (frame_payload f) < 2 ^ 64"
  shows "header_validate_frame h = Inr () \<and> unat (total_length h) = 72 + length (frame_payload f) \<and>
    kind_tag h = frame_kind_tag f \<and> header_lsn h = frame_lsn f \<and>
    header_previous_lsn h = frame_previous_lsn f \<and> header_transaction_id h = frame_transaction_id f \<and>
    record_checksum h = frame_record_checksum f"
proof -
  obtain t where t: "checked_add (of_nat 72) (of_nat (length (frame_payload f))) = Some (t :: u64)"
    and len: "total_length h = t"
    and valid: "header_validate_frame h = Inr ()"
    and fields: "kind_tag h = frame_kind_tag f" "header_lsn h = frame_lsn f"
      "header_previous_lsn h = frame_previous_lsn f" "header_transaction_id h = frame_transaction_id f"
      "record_checksum h = frame_record_checksum f"
    using assms(1)
    by (auto simp: from_record_frame_def encoded_wal_record_frame_len_def and_then_eq_Inr_iff Let_def
        WAL_RECORD_HEADER_LEN_def split: option.splits)
  have "unat (total_length h) = 72 + length (frame_payload f)"
    unfolding len using checked_add_Some_unat [OF t] assms(2) by (simp add: unat_of_nat)
  with valid fields show ?thesis by simp
qed

lemma encode_wal_record_frame_Inr:
  assumes "encode_wal_record_frame f = Inr bs"
  obtains h where "from_record_frame f = Inr h"
    and "bs = header_fields h @ le_bytes 8 (header_checksum h) @ frame_payload f"
  using assms by (auto simp: encode_wal_record_frame_def and_then_eq_Inr_iff)

lemma encode_total:
  assumes "72 + length (frame_payload f) < 2 ^ 64"
  shows "\<exists>bs. encode_wal_record_frame f = Inr bs"
proof -
  let ?n = "of_nat (length (frame_payload f)) :: u64"
  have n: "unat ?n = length (frame_payload f)" using assms by (simp add: unat_of_nat)
  then have sum: "checked_add 72 ?n = Some (72 + ?n)"
    using assms by (simp add: checked_add_def)
  have "unat (72 + ?n) = 72 + length (frame_payload f)"
    using checked_add_Some_unat [OF sum] n by simp
  then have "\<not> 72 + ?n < 72" by (simp add: word_less_nat_alt)
  then show ?thesis
    by (simp add: encode_wal_record_frame_def from_record_frame_def encoded_wal_record_frame_len_def sum
        header_validate_frame_def Let_def WAL_RECORD_HEADER_LEN_def header_checksum_without_checksum_def)
      (simp add: header_fields_def)
qed

lemma decode_wal_record_frame_encode:
  assumes "encode_wal_record_frame f = Inr bs" and "length (frame_payload f) < 2 ^ 64"
  shows "decode_wal_record_frame (bs @ rest) = Inr (Some (f, length bs))"
proof -
  obtain h where h: "from_record_frame f = Inr h"
    and bs: "bs = header_fields h @ le_bytes 8 (header_checksum h) @ frame_payload f"
    using assms(1) by (rule encode_wal_record_frame_Inr)
  note facts = from_record_frame_Inr [OF h assms(2)]
  have "decode_frame_header (header_fields h @ le_bytes 8 (header_checksum h)) = Inr h"
    using decode_header_fields [of h "[]"] facts by simp
  then show ?thesis
    using facts unfolding bs by (simp add: decode_wal_record_frame_def WAL_RECORD_HEADER_LEN_def)
qed

section \<open>Scanning what was written\<close>

text \<open>
  A log as the writers leave it: every record has the LSN after its predecessor's and points back to
  it. The scan promises its result for every kind of record that its two callbacks accept, which the
  locale states; the raw frames here and the typed records of \<open>andromeda-wal\<close> are its instances.
\<close>

fun frames_chained :: "u64 option \<Rightarrow> u64 option \<Rightarrow> wal_codec_record_frame list \<Rightarrow> bool" where
  "frames_chained next_lsn previous [] \<longleftrightarrow> True"
| "frames_chained next_lsn previous (f # fs) \<longleftrightarrow>
     next_lsn = Some (frame_lsn f) \<and> frame_previous_lsn f = previous \<and>
     frames_chained (checked_add (frame_lsn f) 1) (Some (frame_lsn f)) fs"

definition torn_scan :: "'a list \<Rightarrow> nat \<Rightarrow> u64 option \<Rightarrow> nat \<Rightarrow> 'a wal_codec_scan_result" where
  "torn_scan records offset last_lsn torn =
     (if torn = 0
      then \<lparr>scan_records = records, valid_bytes = offset, last_valid_lsn = last_lsn, stopped = None\<rparr>
      else scan_result records offset last_lsn (if torn < 72 then TruncatedHeader else TruncatedRecord))"

locale frame_scanner =
  fixes raw_of :: "'a \<Rightarrow> wal_codec_record_frame"
    and storable :: "'a \<Rightarrow> bool"
    and check :: "wal_codec_frame_header \<Rightarrow> unit andromeda_result"
    and decode :: "u8 list \<Rightarrow> ('a \<times> nat) option andromeda_result"
  assumes payload_fits: "storable r \<Longrightarrow> 72 + length (frame_payload (raw_of r)) < 2 ^ 64"
    and check_own: "storable r \<Longrightarrow> from_record_frame (raw_of r) = Inr h \<Longrightarrow> check h = Inr ()"
    and decode_own: "storable r \<Longrightarrow> encode_wal_record_frame (raw_of r) = Inr bs \<Longrightarrow>
      decode bs = Inr (Some (r, length bs))"
begin

lemma encoded_header:
  assumes "storable r" and "encode_wal_record_frame (raw_of r) = Inr bs"
  obtains h where "take 72 bs = header_fields h @ le_bytes 8 (header_checksum h)"
    and "decode_frame_header (take 72 bs) = Inr h" and "check h = Inr ()"
    and "unat (total_length h) = length bs" and "72 \<le> length bs"
    and "header_lsn h = frame_lsn (raw_of r)" and "header_previous_lsn h = frame_previous_lsn (raw_of r)"
proof -
  obtain h where h: "from_record_frame (raw_of r) = Inr h"
    and bs: "bs = header_fields h @ le_bytes 8 (header_checksum h) @ frame_payload (raw_of r)"
    using assms(2) by (rule encode_wal_record_frame_Inr)
  have "length (frame_payload (raw_of r)) < 2 ^ 64" using payload_fits [OF assms(1)] by simp
  note facts = from_record_frame_Inr [OF h this]
  show ?thesis
    using facts decode_header_fields [of h "[]"] check_own [OF assms(1) h]
    by (intro that [of h]) (simp_all add: bs)
qed

lemma encoded_length:
  "encode_wal_record_frame (raw_of r) = Inr bs \<Longrightarrow> storable r \<Longrightarrow> 72 \<le> length bs"
  using encoded_header by metis

lemma scan_whole_frame:
  assumes "storable r" and "encode_wal_record_frame (raw_of r) = Inr bs"
    and "next_lsn = Some (frame_lsn (raw_of r))" and "previous = frame_previous_lsn (raw_of r)"
  shows "scan_loop (pre @ bs @ post) check decode (length pre) previous last_lsn next_lsn records =
    scan_loop ((pre @ bs) @ post) check decode (length (pre @ bs)) (Some (frame_lsn (raw_of r)))
      (Some (frame_lsn (raw_of r))) (checked_add (frame_lsn (raw_of r)) 1) (records @ [r])"
proof -
  obtain h where h: "decode_frame_header (take 72 bs) = Inr h" "check h = Inr ()"
    "unat (total_length h) = length bs" "72 \<le> length bs"
    "header_lsn h = frame_lsn (raw_of r)" "header_previous_lsn h = frame_previous_lsn (raw_of r)"
    using encoded_header [OF assms(1,2)] by metis
  have header: "decode_frame_header (take 72 (bs @ post)) = Inr h" using h(1,4) by simp
  have "bs \<noteq> []" using h(4) by auto
  then show ?thesis
    using h decode_own [OF assms(1,2)] assms(3,4) header
    by (subst scan_loop.simps) (simp add: WAL_RECORD_HEADER_LEN_def)
qed

lemma scan_torn_frame:
  assumes "storable r" and "encode_wal_record_frame (raw_of r) = Inr bs" and "k < length bs"
  shows "scan_loop (pre @ take k bs) check decode (length pre) previous last_lsn next_lsn records =
    torn_scan records (length pre) last_lsn k"
proof -
  obtain h where h: "decode_frame_header (take 72 bs) = Inr h" "check h = Inr ()"
    "unat (total_length h) = length bs" "72 \<le> length bs"
    using encoded_header [OF assms(1,2)] by metis
  have "\<not> k < 72 \<Longrightarrow> decode_frame_header (take 72 (take k bs)) = Inr h" using h(1) by (simp add: min_def)
  then show ?thesis
    using h assms(3) by (subst scan_loop.simps) (auto simp: WAL_RECORD_HEADER_LEN_def torn_scan_def min_def)
qed

lemma scan_torn_log_from:
  assumes "list_all2 (\<lambda>r bs. storable r \<and> encode_wal_record_frame (raw_of r) = Inr bs) rs bss"
    and "storable r" and "encode_wal_record_frame (raw_of r) = Inr b" and "k < length b"
    and "frames_chained next_lsn previous (map raw_of rs)"
  shows "scan_loop (pre @ concat bss @ take k b) check decode (length pre) previous last_lsn next_lsn records =
    torn_scan (records @ rs) (length pre + length (concat bss))
      (if rs = [] then last_lsn else Some (frame_lsn (raw_of (last rs)))) k"
  using assms(1,5)
proof (induction rs bss arbitrary: pre previous last_lsn next_lsn records rule: list_all2_induct)
  case Nil
  show ?case using scan_torn_frame [OF assms(2-4)] by simp
next
  case (Cons s ss c cs)
  have "scan_loop (pre @ c @ (concat cs @ take k b)) check decode (length pre) previous last_lsn next_lsn records =
      scan_loop ((pre @ c) @ concat cs @ take k b) check decode (length (pre @ c)) (Some (frame_lsn (raw_of s)))
        (Some (frame_lsn (raw_of s))) (checked_add (frame_lsn (raw_of s)) 1) (records @ [s])"
    using Cons.hyps Cons.prems by (intro scan_whole_frame) auto
  also have "\<dots> = torn_scan ((records @ [s]) @ ss) (length (pre @ c) + length (concat cs))
      (if ss = [] then Some (frame_lsn (raw_of s)) else Some (frame_lsn (raw_of (last ss)))) k"
    using Cons.prems by (intro Cons.IH) simp
  finally show ?case by (simp add: add.assoc)
qed

lemma scan_torn_log:
  assumes "list_all2 (\<lambda>r bs. storable r \<and> encode_wal_record_frame (raw_of r) = Inr bs) rs bss"
    and "storable r" and "encode_wal_record_frame (raw_of r) = Inr b" and "k < length b"
    and "frames_chained (Some first_lsn) previous (map raw_of rs)"
  shows "scan_wal_record_frames_from_with (concat bss @ take k b) first_lsn previous check decode =
    torn_scan rs (length (concat bss)) (if rs = [] then None else Some (frame_lsn (raw_of (last rs)))) k"
  unfolding scan_wal_record_frames_from_with_def
  using scan_torn_log_from [OF assms, of "[]" None "[]"] by simp

end

interpretation raw_frames: frame_scanner "\<lambda>f. f" "\<lambda>f. 72 + length (frame_payload f) < 2 ^ 64"
    "\<lambda>_. Inr ()" decode_wal_record_frame
proof
  fix f bs
  assume "72 + length (frame_payload f) < 2 ^ 64" and "encode_wal_record_frame f = Inr bs"
  then show "decode_wal_record_frame bs = Inr (Some (f, length bs))"
    using decode_wal_record_frame_encode [of f bs "[]"] by simp
qed simp_all

section \<open>Corruption\<close>

lemma take_slices:
  "take m xs @ take n (drop m xs) = take (m + n) xs"
  "take m xs @ take n (drop m xs) @ ys = take (m + n) xs @ ys"
  by (simp_all add: take_add)

lemma decode_frame_header_checksum:
  assumes "decode_frame_header buffer = Inr h"
  shows "72 \<le> length buffer" and "of_le_bytes (take 8 (drop 64 buffer)) = fnv64_nonzero (take 64 buffer)"
proof -
  show len: "72 \<le> length buffer"
    using assms by (auto simp: decode_frame_header_def WAL_RECORD_HEADER_LEN_def split: if_splits)
  have read: "read_u64 buffer i = Inr (of_le_bytes (take 8 (drop i buffer)))" if "i + 8 \<le> 72" for i
    using len that by (simp add: read_u64_def read_bytes_def)
  have read2: "read_u16 buffer i = Inr (of_le_bytes (take 2 (drop i buffer)))" if "i + 2 \<le> 72" for i
    using len that by (simp add: read_u16_def read_bytes_def)
  have wr: "le_bytes 8 (of_le_bytes (take 8 (drop i buffer)) :: u64) = take 8 (drop i buffer)"
    if "i + 8 \<le> 72" for i using len that by (intro le_bytes_of_le_bytes) auto
  have wr2: "le_bytes 2 (of_le_bytes (take 2 (drop i buffer)) :: u16) = take 2 (drop i buffer)"
    if "i + 2 \<le> 72" for i using len that by (intro le_bytes_of_le_bytes) auto
  have fields: "magic h = of_le_bytes (take 8 (drop 0 buffer))"
    "format_version h = of_le_bytes (take 2 (drop 8 buffer))"
    "header_length h = of_le_bytes (take 2 (drop 10 buffer))"
    "total_length h = of_le_bytes (take 8 (drop 12 buffer))"
    "kind_tag h = of_le_bytes (take 2 (drop 20 buffer))" "flags h = of_le_bytes (take 2 (drop 22 buffer))"
    "header_lsn h = of_le_bytes (take 8 (drop 24 buffer))"
    "option_or_zero (header_previous_lsn h) = of_le_bytes (take 8 (drop 32 buffer))"
    "option_or_zero (header_transaction_id h) = of_le_bytes (take 8 (drop 40 buffer))"
    "payload_length h = of_le_bytes (take 8 (drop 48 buffer))"
    "record_checksum h = of_le_bytes (take 8 (drop 56 buffer))"
    "header_checksum h = of_le_bytes (take 8 (drop 64 buffer))"
    using assms len
    by (auto simp: decode_frame_header_def WAL_RECORD_HEADER_LEN_def read read2 and_then_eq_Inr_iff Let_def
        option_or_zero_def split: if_splits)
  have "header_fields h = take 64 buffer"
    unfolding header_fields_def fields using wr [of 0] by (simp add: wr wr2 take_slices)
  moreover have "header_checksum h = fnv64_nonzero (header_fields h)"
    using decode_frame_header_valid [OF assms]
    by (auto simp: header_validate_frame_def header_checksum_without_checksum_def split: if_splits)
  ultimately show "of_le_bytes (take 8 (drop 64 buffer)) = fnv64_nonzero (take 64 buffer)"
    by (simp add: fields(12) [symmetric])
qed

lemma fnv64_nonzero_one_byte:
  assumes "i < length bs" and "b \<noteq> bs ! i" and "fnv64_nonzero bs \<noteq> 1"
  shows "fnv64_nonzero (bs[i := b]) \<noteq> fnv64_nonzero bs"
proof -
  have "fnv_fold (take i bs @ b # drop (Suc i) bs) FNV_OFFSET \<noteq> fnv_fold (take i bs @ bs ! i # drop (Suc i) bs) FNV_OFFSET"
    by (rule fnv_one_byte) (rule assms(2))
  then have "fnv_fold (bs[i := b]) FNV_OFFSET \<noteq> fnv_fold bs FNV_OFFSET"
    by (simp add: upd_conv_take_nth_drop id_take_nth_drop [symmetric] assms(1))
  with assms(3) show ?thesis by (auto simp: fnv64_nonzero_def nonzero_def split: if_splits)
qed

lemma of_le_bytes_one_byte:
  assumes "length bs = 8" and "i < 8" and "b \<noteq> bs ! i"
  shows "(of_le_bytes (bs[i := b]) :: u64) \<noteq> of_le_bytes bs"
proof
  assume "(of_le_bytes (bs[i := b]) :: u64) = of_le_bytes bs"
  then have "le_bytes 8 (of_le_bytes (bs[i := b]) :: u64) = le_bytes 8 (of_le_bytes bs :: u64)" by simp
  then have "bs[i := b] = bs" using assms(1) by (simp add: le_bytes_of_le_bytes)
  then show False using assms by (metis nth_list_update_eq)
qed

lemma decode_frame_header_one_byte:
  assumes "decode_frame_header buffer = Inr h" and "i < 72" and "b \<noteq> buffer ! i"
    and "fnv64_nonzero (take 64 buffer) \<noteq> 1"
  shows "\<exists>e. decode_frame_header (buffer[i := b]) = Inl e"
proof (rule ccontr)
  assume "\<nexists>e. decode_frame_header (buffer[i := b]) = Inl e"
  then obtain h' where h': "decode_frame_header (buffer[i := b]) = Inr h'" by (meson sum.exhaust)
  note sums = decode_frame_header_checksum [OF assms(1)] decode_frame_header_checksum(2) [OF h']
  show False
  proof (cases "i < 64")
    case True
    then have "fnv64_nonzero ((take 64 buffer)[i := b]) \<noteq> fnv64_nonzero (take 64 buffer)"
      using sums(1) assms(3,4) by (intro fnv64_nonzero_one_byte) auto
    with sums(2,3) True show False by (simp add: take_update_swap)
  next
    case False
    then have "(of_le_bytes ((take 8 (drop 64 buffer))[i - 64 := b]) :: u64) \<noteq> of_le_bytes (take 8 (drop 64 buffer))"
      using sums(1) assms(2,3) by (intro of_le_bytes_one_byte) auto
    with sums(2,3) False show False by (simp add: take_update_swap drop_update_swap list_update_beyond)
  qed
qed

end
