(* ===== verification/Wal_Record.thy ===== *)
theory Wal_Record
  imports Wal_Codec_Props
begin

text \<open>
  Typed WAL records of the crate \<open>andromeda-wal\<close>: log sequence numbers (\<open>lsn.rs\<close>), the record kinds,
  headers and checksums (\<open>write_ahead_log/record.rs\<close>), the size and continuity bounds
  (\<open>write_ahead_log/record_bounds.rs\<close>) and the typed adapter over the raw frame codec
  (\<open>wal_codec.rs\<close>). The newtypes \<open>Lsn\<close> and \<open>TransactionId\<close> are their \<open>u64\<close>.
\<close>

section \<open>Log sequence numbers\<close>

type_synonym lsn = u64

definition lsn_checked_next :: "lsn \<Rightarrow> lsn option" where
  "lsn_checked_next l = (if l = 0xffffffffffffffff then None else Some (l + 1))"

definition lsn_try_next :: "lsn \<Rightarrow> lsn andromeda_result" where
  "lsn_try_next l =
     (case lsn_checked_next l of
        Some n \<Rightarrow> Inr n
      | None \<Rightarrow> Inl (storage_error ''LSN advancement would overflow u64''))"

section \<open>Record kinds\<close>

datatype wal_record_kind =
    TxBegin | TxCommit | TxRollback | PageAllocate | PageFormat | RowInsert | RowUpdate | RowDelete
  | IndexInsert | IndexDelete | MvccVersionCreate | MvccVersionClose | MapDeltaAppend
  | CheckpointBegin | CheckpointEnd | SnapshotBegin | SnapshotEnd | ManifestSwitch
  | CatalogChangeBegin | CatalogChangeApply | CatalogChangeCommit | SecurityAuditAppend
  | BTreeInsert | BTreeDelete | BTreeSplit | BTreeMerge

definition requires_transaction_id :: "wal_record_kind \<Rightarrow> bool" where
  "requires_transaction_id k \<longleftrightarrow>
     k \<in> {TxBegin, TxCommit, TxRollback, RowInsert, RowUpdate, RowDelete, IndexInsert, IndexDelete,
          MvccVersionCreate, MvccVersionClose, CatalogChangeBegin, CatalogChangeApply,
          CatalogChangeCommit, BTreeInsert, BTreeDelete, BTreeSplit, BTreeMerge}"

fun wal_record_kind_tag :: "wal_record_kind \<Rightarrow> u64" where
  "wal_record_kind_tag TxBegin = 1"
| "wal_record_kind_tag TxCommit = 2"
| "wal_record_kind_tag TxRollback = 3"
| "wal_record_kind_tag PageAllocate = 4"
| "wal_record_kind_tag PageFormat = 5"
| "wal_record_kind_tag RowInsert = 6"
| "wal_record_kind_tag RowUpdate = 7"
| "wal_record_kind_tag RowDelete = 8"
| "wal_record_kind_tag IndexInsert = 9"
| "wal_record_kind_tag IndexDelete = 10"
| "wal_record_kind_tag MvccVersionCreate = 11"
| "wal_record_kind_tag MvccVersionClose = 12"
| "wal_record_kind_tag MapDeltaAppend = 13"
| "wal_record_kind_tag CheckpointBegin = 14"
| "wal_record_kind_tag CheckpointEnd = 15"
| "wal_record_kind_tag SnapshotBegin = 16"
| "wal_record_kind_tag SnapshotEnd = 17"
| "wal_record_kind_tag ManifestSwitch = 18"
| "wal_record_kind_tag CatalogChangeBegin = 19"
| "wal_record_kind_tag CatalogChangeApply = 20"
| "wal_record_kind_tag CatalogChangeCommit = 21"
| "wal_record_kind_tag SecurityAuditAppend = 22"
| "wal_record_kind_tag BTreeInsert = 23"
| "wal_record_kind_tag BTreeDelete = 24"
| "wal_record_kind_tag BTreeSplit = 25"
| "wal_record_kind_tag BTreeMerge = 26"

definition wal_record_kind_from_tag :: "u64 \<Rightarrow> wal_record_kind option" where
  "wal_record_kind_from_tag tag =
     (if tag = 1 then Some TxBegin
      else if tag = 2 then Some TxCommit
      else if tag = 3 then Some TxRollback
      else if tag = 4 then Some PageAllocate
      else if tag = 5 then Some PageFormat
      else if tag = 6 then Some RowInsert
      else if tag = 7 then Some RowUpdate
      else if tag = 8 then Some RowDelete
      else if tag = 9 then Some IndexInsert
      else if tag = 10 then Some IndexDelete
      else if tag = 11 then Some MvccVersionCreate
      else if tag = 12 then Some MvccVersionClose
      else if tag = 13 then Some MapDeltaAppend
      else if tag = 14 then Some CheckpointBegin
      else if tag = 15 then Some CheckpointEnd
      else if tag = 16 then Some SnapshotBegin
      else if tag = 17 then Some SnapshotEnd
      else if tag = 18 then Some ManifestSwitch
      else if tag = 19 then Some CatalogChangeBegin
      else if tag = 20 then Some CatalogChangeApply
      else if tag = 21 then Some CatalogChangeCommit
      else if tag = 22 then Some SecurityAuditAppend
      else if tag = 23 then Some BTreeInsert
      else if tag = 24 then Some BTreeDelete
      else if tag = 25 then Some BTreeSplit
      else if tag = 26 then Some BTreeMerge
      else None)"

lemma kind_from_tag_tag: "wal_record_kind_from_tag (wal_record_kind_tag k) = Some k"
  by (cases k) (simp_all add: wal_record_kind_from_tag_def)

lemma kind_tag_u16: "(ucast (ucast (wal_record_kind_tag k) :: u16) :: u64) = wal_record_kind_tag k"
  by (cases k) simp_all

lemma unat_kind_tag: "unat (wal_record_kind_tag k) < 2 ^ 16"
  by (cases k) simp_all

section \<open>Records\<close>

record wal_record_header =
  rec_kind :: wal_record_kind
  rec_lsn :: lsn
  rec_previous_lsn :: "lsn option"
  rec_transaction_id :: "u64 option"
  rec_payload_length :: u64
  rec_checksum :: u64

record wal_record =
  rec_header :: wal_record_header
  rec_payload :: "u8 list"

definition record_header_validate :: "wal_record_header \<Rightarrow> unit andromeda_result" where
  "record_header_validate h =
     (if rec_lsn h = 0 then Inl (storage_error ''WAL record LSN must not be zero'')
      else if requires_transaction_id (rec_kind h) \<and> rec_transaction_id h = None
      then Inl (storage_error ''WAL record kind requires a transaction id'')
      else if rec_checksum h = 0 then Inl (storage_error ''WAL record checksum must not be zero'')
      else Inr ())"

definition fold_u64 :: "u64 \<Rightarrow> u64 \<Rightarrow> u64" where
  "fold_u64 value state = fnv_fold (le_bytes 8 value) state"

definition wal_record_checksum ::
    "wal_record_kind \<Rightarrow> lsn \<Rightarrow> lsn option \<Rightarrow> u64 option \<Rightarrow> u8 list \<Rightarrow> u64" where
  "wal_record_checksum kind lsn previous_lsn transaction_id payload =
     (let state = fold_u64 (wal_record_kind_tag kind) FNV_OFFSET;
          state = fold_u64 lsn state;
          state = fold_u64 (option_or_zero previous_lsn) state;
          state = fold_u64 (option_or_zero transaction_id) state;
          state = fold_u64 (of_nat (length payload)) state;
          state = fnv_fold payload state in
      nonzero state)"

definition record_validate :: "wal_record \<Rightarrow> unit andromeda_result" where
  "record_validate r =
     and_then (record_header_validate (rec_header r)) (\<lambda>_.
       if rec_payload_length (rec_header r) \<noteq> of_nat (length (rec_payload r))
       then Inl (storage_error ''WAL record payload length mismatch'')
       else if (case rec_previous_lsn (rec_header r) of
                  Some previous_lsn \<Rightarrow> rec_lsn (rec_header r) \<le> previous_lsn | None \<Rightarrow> False)
       then Inl (storage_error ''WAL record previous LSN must precede record LSN'')
       else if rec_checksum (rec_header r) \<noteq>
                 wal_record_checksum (rec_kind (rec_header r)) (rec_lsn (rec_header r))
                   (rec_previous_lsn (rec_header r)) (rec_transaction_id (rec_header r)) (rec_payload r)
       then Inl (storage_error ''WAL record checksum mismatch'')
       else Inr ())"

definition wal_record_new :: "wal_record_header \<Rightarrow> u8 list \<Rightarrow> wal_record andromeda_result" where
  "wal_record_new h payload =
     (let r = \<lparr>rec_header = h, rec_payload = payload\<rparr> in
      and_then (record_validate r) (\<lambda>_. Inr r))"

definition from_parts ::
    "wal_record_kind \<Rightarrow> lsn \<Rightarrow> lsn option \<Rightarrow> u64 option \<Rightarrow> u8 list \<Rightarrow> wal_record andromeda_result" where
  "from_parts kind lsn previous_lsn transaction_id payload =
     wal_record_new
       \<lparr>rec_kind = kind, rec_lsn = lsn, rec_previous_lsn = previous_lsn,
        rec_transaction_id = transaction_id, rec_payload_length = of_nat (length payload),
        rec_checksum = wal_record_checksum kind lsn previous_lsn transaction_id payload\<rparr> payload"

definition is_for_transaction :: "wal_record \<Rightarrow> u64 \<Rightarrow> bool" where
  "is_for_transaction r transaction_id \<longleftrightarrow> rec_transaction_id (rec_header r) = Some transaction_id"

abbreviation record_lsn :: "wal_record \<Rightarrow> lsn" where
  "record_lsn r \<equiv> rec_lsn (rec_header r)"

section \<open>Bounds\<close>

definition WAL_RECORD_SIZE_LIMIT :: u64 where
  "WAL_RECORD_SIZE_LIMIT = 1024 * 1024"

definition WAL_BATCH_ROW_LIMIT :: usize where
  "WAL_BATCH_ROW_LIMIT = 256"

definition WAL_SEGMENT_BOUNDARY :: u64 where
  "WAL_SEGMENT_BOUNDARY = 4 * 1024 * 1024"

definition WAL_RECORD_HEADER_OVERHEAD :: u64 where
  "WAL_RECORD_HEADER_OVERHEAD = 72"

definition validate_record_size :: "wal_record \<Rightarrow> unit andromeda_result" where
  "validate_record_size r =
     (let payload_len = rec_payload_length (rec_header r);
          actual_len = of_nat (length (rec_payload r)) :: u64 in
      if payload_len > WAL_RECORD_SIZE_LIMIT
      then Inl (storage_error (''WAL record payload '' @ u64_string payload_len @ '' bytes exceeds limit '' @
                  u64_string WAL_RECORD_SIZE_LIMIT @ '' bytes''))
      else if actual_len > WAL_RECORD_SIZE_LIMIT
      then Inl (storage_error (''WAL record actual size '' @ u64_string actual_len @ '' bytes exceeds limit '' @
                  u64_string WAL_RECORD_SIZE_LIMIT @ '' bytes''))
      else Inr ())"

definition validate_wal_record_bounds :: "wal_record \<Rightarrow> unit andromeda_result" where
  "validate_wal_record_bounds r = and_then (record_validate r) (\<lambda>_. validate_record_size r)"

definition encoded_record_size :: "wal_record \<Rightarrow> u64 andromeda_result" where
  "encoded_record_size r =
     and_then (validate_record_size r) (\<lambda>_.
       case checked_add WAL_RECORD_HEADER_OVERHEAD (rec_payload_length (rec_header r)) of
         None \<Rightarrow> Inl (storage_error ''WAL record total size would overflow u64'')
       | Some n \<Rightarrow> Inr n)"

fun segment_total :: "u64 \<Rightarrow> wal_record list \<Rightarrow> u64 andromeda_result" where
  "segment_total running [] = Inr running"
| "segment_total running (r # rs) =
     and_then (encoded_record_size r) (\<lambda>record_total.
       case checked_add running record_total of
         None \<Rightarrow> Inl (storage_error ''cumulative WAL record size would overflow u64'')
       | Some running' \<Rightarrow> segment_total running' rs)"

definition validate_segment_boundary :: "wal_record list \<Rightarrow> u64 andromeda_result" where
  "validate_segment_boundary records =
     and_then (segment_total 0 records) (\<lambda>running.
       if running > WAL_SEGMENT_BOUNDARY
       then Inl (storage_error (''cumulative WAL records '' @ u64_string running @
                   '' bytes exceed segment boundary '' @ u64_string WAL_SEGMENT_BOUNDARY @ '' bytes''))
       else Inr running)"

text \<open>The \<open>Debug\<close> text of an \<open>Option<Lsn>\<close>.\<close>

definition lsn_option_debug :: "lsn option \<Rightarrow> string" where
  "lsn_option_debug l = (case l of None \<Rightarrow> ''None'' | Some v \<Rightarrow> ''Some(Lsn('' @ u64_string v @ ''))'')"

fun lsn_continuity_loop ::
    "nat \<Rightarrow> lsn option \<Rightarrow> lsn \<Rightarrow> wal_record list \<Rightarrow> lsn andromeda_result" where
  "lsn_continuity_loop index expected_previous last_lsn [] = Inr last_lsn"
| "lsn_continuity_loop index expected_previous last_lsn (r # rs) =
     and_then (case expected_previous of Some previous \<Rightarrow> lsn_try_next previous | None \<Rightarrow> Inr 1) (\<lambda>expected_lsn.
       if record_lsn r \<noteq> expected_lsn
       then Inl (storage_error (''record '' @ nat_string index @ '' LSN mismatch: expected '' @
                   u64_string expected_lsn @ '', got '' @ u64_string (record_lsn r)))
       else if rec_previous_lsn (rec_header r) \<noteq> expected_previous
       then Inl (storage_error (''record '' @ nat_string index @ '' previous_lsn mismatch: expected '' @
                   lsn_option_debug expected_previous @ '', got '' @
                   lsn_option_debug (rec_previous_lsn (rec_header r))))
       else lsn_continuity_loop (Suc index) (Some (record_lsn r)) (record_lsn r) rs)"

definition validate_lsn_continuity :: "lsn option \<Rightarrow> wal_record list \<Rightarrow> lsn andromeda_result" where
  "validate_lsn_continuity base_previous_lsn records =
     (case records of
        [] \<Rightarrow> Inl (storage_error ''cannot validate LSN continuity for empty record list'')
      | first # _ \<Rightarrow> lsn_continuity_loop 0 base_previous_lsn (record_lsn first) records)"

definition validate_wal_batch_bounds :: "lsn option \<Rightarrow> wal_record list \<Rightarrow> (u64 \<times> lsn) andromeda_result" where
  "validate_wal_batch_bounds base_previous_lsn records =
     (if records = [] then Inl (storage_error ''cannot validate empty record batch'')
      else
        and_then (validate_segment_boundary records) (\<lambda>total_size.
        and_then (validate_lsn_continuity base_previous_lsn records) (\<lambda>last_lsn.
          Inr (total_size, last_lsn))))"

definition is_transaction_row_operation :: "wal_record_kind \<Rightarrow> bool" where
  "is_transaction_row_operation k \<longleftrightarrow> k \<in> {RowInsert, RowUpdate, RowDelete}"

fun batch_cardinality_loop :: "nat \<Rightarrow> wal_record list \<Rightarrow> usize andromeda_result" where
  "batch_cardinality_loop row_count [] = Inr row_count"
| "batch_cardinality_loop row_count (r # rs) =
     (if is_transaction_row_operation (rec_kind (rec_header r))
      then
        (if Suc row_count > WAL_BATCH_ROW_LIMIT
         then Inl (storage_error (''transaction batch size '' @ nat_string (Suc row_count) @
                     '' exceeds limit '' @ nat_string WAL_BATCH_ROW_LIMIT))
         else batch_cardinality_loop (Suc row_count) rs)
      else batch_cardinality_loop row_count rs)"

definition validate_transaction_batch_cardinality :: "wal_record list \<Rightarrow> usize andromeda_result" where
  "validate_transaction_batch_cardinality records = batch_cardinality_loop 0 records"

section \<open>The typed codec\<close>

text \<open>
  The typed frame header has the fields of the raw one, with the newtypes around its integers.
\<close>

definition frame_header_kind :: "wal_codec_frame_header \<Rightarrow> wal_record_kind andromeda_result" where
  "frame_header_kind h =
     (case wal_record_kind_from_tag (ucast (kind_tag h)) of
        Some k \<Rightarrow> Inr k
      | None \<Rightarrow> Inl (storage_error ''unknown WAL record kind tag''))"

definition typed_header_validate :: "wal_codec_frame_header \<Rightarrow> unit andromeda_result" where
  "typed_header_validate h =
     and_then (header_validate_frame h) (\<lambda>_. and_then (frame_header_kind h) (\<lambda>_. Inr ()))"

definition header_from_raw :: "wal_codec_frame_header \<Rightarrow> wal_codec_frame_header andromeda_result" where
  "header_from_raw raw =
     and_then (header_validate_frame raw) (\<lambda>_. and_then (typed_header_validate raw) (\<lambda>_. Inr raw))"

text \<open>
  \<open>raw_record_frame_from_record\<close>: the conversion of the tag to 16 bits cannot fail, every tag is at
  most 26.
\<close>

definition raw_record_frame_from_record :: "wal_record \<Rightarrow> wal_codec_record_frame andromeda_result" where
  "raw_record_frame_from_record r =
     (if 2 ^ 16 \<le> unat (wal_record_kind_tag (rec_kind (rec_header r)))
      then Inl (storage_error ''WAL record kind tag does not fit frame'')
      else
        Inr \<lparr>frame_kind_tag = ucast (wal_record_kind_tag (rec_kind (rec_header r))),
             frame_lsn = record_lsn r, frame_previous_lsn = rec_previous_lsn (rec_header r),
             frame_transaction_id = rec_transaction_id (rec_header r), frame_payload = rec_payload r,
             frame_record_checksum = rec_checksum (rec_header r)\<rparr>)"

definition record_from_raw :: "wal_codec_record_frame \<Rightarrow> wal_record andromeda_result" where
  "record_from_raw raw =
     (case wal_record_kind_from_tag (ucast (frame_kind_tag raw)) of
        None \<Rightarrow> Inl (storage_error ''unknown WAL record kind tag'')
      | Some kind \<Rightarrow>
          wal_record_new
            \<lparr>rec_kind = kind, rec_lsn = frame_lsn raw, rec_previous_lsn = frame_previous_lsn raw,
             rec_transaction_id = frame_transaction_id raw,
             rec_payload_length = of_nat (length (frame_payload raw)),
             rec_checksum = frame_record_checksum raw\<rparr> (frame_payload raw))"

definition encode_wal_record :: "wal_record \<Rightarrow> u8 list andromeda_result" where
  "encode_wal_record r =
     and_then (record_validate r) (\<lambda>_.
     and_then (raw_record_frame_from_record r) (\<lambda>raw. encode_wal_record_frame raw))"

definition encoded_wal_record_len :: "wal_record \<Rightarrow> u64 andromeda_result" where
  "encoded_wal_record_len r =
     and_then (record_validate r) (\<lambda>_. encoded_wal_record_frame_len (rec_payload_length (rec_header r)))"

definition typed_decode_wal_record_frame :: "u8 list \<Rightarrow> (wal_record \<times> nat) option andromeda_result" where
  "typed_decode_wal_record_frame buffer =
     and_then (decode_wal_record_frame buffer) (\<lambda>decoded.
       case decoded of
         None \<Rightarrow> Inr None
       | Some (raw, consumed) \<Rightarrow> and_then (record_from_raw raw) (\<lambda>r. Inr (Some (r, consumed))))"

definition scan_wal_records_from :: "u8 list \<Rightarrow> lsn \<Rightarrow> lsn option \<Rightarrow> wal_record wal_codec_scan_result" where
  "scan_wal_records_from buffer first_lsn base_previous_lsn =
     scan_wal_record_frames_from_with buffer first_lsn base_previous_lsn
       (\<lambda>h. and_then (header_from_raw h) (\<lambda>_. Inr ())) typed_decode_wal_record_frame"

definition scan_wal_records :: "u8 list \<Rightarrow> wal_record wal_codec_scan_result" where
  "scan_wal_records buffer = scan_wal_records_from buffer 1 None"

end
