(* ===== verification/Wal_Log.thy ===== *)
theory Wal_Log
  imports Wal_Record
begin

text \<open>
  The append-only log of \<open>andromeda-wal\<close>: the rules of the append chain
  (\<open>write_ahead_log/append_chain.rs\<close>), the in-memory log (\<open>write_ahead_log/manager.rs\<close>), the flush
  telemetry (\<open>wal_performance.rs\<close>), segments (\<open>wal_segment.rs\<close>) and the classification of the durable
  transactions (\<open>write_ahead_log/transaction.rs\<close>).
\<close>

section \<open>The append chain\<close>

definition try_next_lsn :: "lsn option \<Rightarrow> lsn andromeda_result" where
  "try_next_lsn tail_lsn = (case tail_lsn of Some last_lsn \<Rightarrow> lsn_try_next last_lsn | None \<Rightarrow> Inr 1)"

definition payload_record ::
    "wal_record_kind \<Rightarrow> lsn option \<Rightarrow> u64 option \<Rightarrow> u8 list \<Rightarrow> wal_record andromeda_result" where
  "payload_record kind tail_lsn transaction_id payload =
     and_then (try_next_lsn tail_lsn) (\<lambda>l. from_parts kind l tail_lsn transaction_id payload)"

definition validate_append_record ::
    "wal_record \<Rightarrow> lsn option \<Rightarrow> string \<Rightarrow> string \<Rightarrow> unit andromeda_result" where
  "validate_append_record r tail_lsn lsn_mismatch_msg previous_lsn_mismatch_msg =
     and_then (record_validate r) (\<lambda>_.
     and_then (validate_wal_record_bounds r) (\<lambda>_.
     and_then (try_next_lsn tail_lsn) (\<lambda>expected_lsn.
       if record_lsn r \<noteq> expected_lsn then Inl (storage_error lsn_mismatch_msg)
       else if rec_previous_lsn (rec_header r) \<noteq> tail_lsn
       then Inl (storage_error previous_lsn_mismatch_msg)
       else Inr ())))"

definition validate_flush_target ::
    "lsn \<Rightarrow> lsn \<Rightarrow> lsn option \<Rightarrow> string \<Rightarrow> string \<Rightarrow> lsn option andromeda_result" where
  "validate_flush_target requested_lsn durable tail_lsn empty_log_msg beyond_tail_msg =
     (if requested_lsn = 0 \<or> requested_lsn \<le> durable then Inr None
      else
        (case tail_lsn of
           None \<Rightarrow> Inl (storage_error empty_log_msg)
         | Some last_lsn \<Rightarrow>
             if requested_lsn > last_lsn then Inl (storage_error beyond_tail_msg)
             else Inr (Some requested_lsn)))"

definition chain_durable_records :: "wal_record list \<Rightarrow> lsn \<Rightarrow> wal_record list" where
  "chain_durable_records records durable = filter (\<lambda>r. record_lsn r \<le> durable) records"

section \<open>Durable transactions\<close>

datatype durable_transaction_state = DurableOpen | DurableCommitted | DurableRolledBack | DurableIncomplete

record durable_transaction_resume =
  resume_transaction_id :: u64
  resume_state :: durable_transaction_state
  resume_first_lsn :: lsn
  resume_last_lsn :: lsn
  resume_begin_lsn :: "lsn option"
  resume_commit_lsn :: "lsn option"
  resume_rollback_lsn :: "lsn option"
  resume_record_count :: usize

definition resume_is_incomplete :: "durable_transaction_resume \<Rightarrow> bool" where
  "resume_is_incomplete s \<longleftrightarrow> resume_state s \<in> {DurableOpen, DurableIncomplete}"

record incomplete_durable_transaction =
  incomplete_transaction_id :: u64
  incomplete_first_lsn :: lsn
  incomplete_last_lsn :: lsn
  incomplete_record_count :: usize

record durable_transaction_classifications =
  class_committed :: "durable_transaction_resume list"
  class_rolled_back :: "durable_transaction_resume list"
  class_incomplete :: "durable_transaction_resume list"

text \<open>The local variables of the loop of \<open>summarize_transaction\<close>.\<close>

record summary_locals =
  sum_first :: "lsn option"
  sum_last :: "lsn option"
  sum_begin :: "lsn option"
  sum_commit :: "lsn option"
  sum_rollback :: "lsn option"
  sum_count :: usize

definition summary_start :: summary_locals where
  "summary_start = \<lparr>sum_first = None, sum_last = None, sum_begin = None, sum_commit = None,
     sum_rollback = None, sum_count = 0\<rparr>"

definition summary_record :: "u64 \<Rightarrow> wal_record \<Rightarrow> summary_locals \<Rightarrow> summary_locals" where
  "summary_record transaction_id r s =
     (if \<not> is_for_transaction r transaction_id then s
      else
        let l = record_lsn r;
            s = s\<lparr>sum_first := Some (case sum_first s of None \<Rightarrow> l | Some current \<Rightarrow> min current l),
                  sum_last := Some (case sum_last s of None \<Rightarrow> l | Some current \<Rightarrow> max current l),
                  sum_count := sum_count s + 1\<rparr> in
        (case rec_kind (rec_header r) of
           TxBegin \<Rightarrow> s\<lparr>sum_begin := Some l\<rparr>
         | TxCommit \<Rightarrow> s\<lparr>sum_commit := Some l\<rparr>
         | TxRollback \<Rightarrow> s\<lparr>sum_rollback := Some l\<rparr>
         | _ \<Rightarrow> s))"

definition summary_state :: "summary_locals \<Rightarrow> durable_transaction_state" where
  "summary_state s =
     (case (sum_begin s, sum_commit s, sum_rollback s) of
        (Some _, Some _, None) \<Rightarrow> DurableCommitted
      | (Some _, None, Some _) \<Rightarrow> DurableRolledBack
      | (Some _, None, None) \<Rightarrow> DurableOpen
      | _ \<Rightarrow> DurableIncomplete)"

definition summarize_transaction :: "u64 \<Rightarrow> wal_record list \<Rightarrow> durable_transaction_resume option" where
  "summarize_transaction transaction_id records =
     (let s = fold (summary_record transaction_id) records summary_start in
      case sum_first s of
        None \<Rightarrow> None
      | Some first_lsn \<Rightarrow>
          (case sum_last s of
             None \<Rightarrow> None
           | Some last_lsn \<Rightarrow>
               Some \<lparr>resume_transaction_id = transaction_id, resume_state = summary_state s,
                     resume_first_lsn = first_lsn, resume_last_lsn = last_lsn,
                     resume_begin_lsn = sum_begin s, resume_commit_lsn = sum_commit s,
                     resume_rollback_lsn = sum_rollback s, resume_record_count = sum_count s\<rparr>))"

definition group_record :: "wal_record \<Rightarrow> (u64 \<times> wal_record list) list \<Rightarrow> (u64 \<times> wal_record list) list" where
  "group_record r grouped =
     (case rec_transaction_id (rec_header r) of
        None \<Rightarrow> grouped
      | Some transaction_id \<Rightarrow>
          btree_insert transaction_id
            ((case map_of grouped transaction_id of None \<Rightarrow> [] | Some rs \<Rightarrow> rs) @ [r]) grouped)"

definition summarize_transactions_from_records :: "wal_record list \<Rightarrow> durable_transaction_resume list" where
  "summarize_transactions_from_records records =
     List.map_filter (\<lambda>(transaction_id, rs). summarize_transaction transaction_id rs)
       (fold group_record records [])"

definition classify_summary ::
    "durable_transaction_resume \<Rightarrow> durable_transaction_classifications \<Rightarrow> durable_transaction_classifications" where
  "classify_summary s c =
     (case resume_state s of
        DurableCommitted \<Rightarrow> c\<lparr>class_committed := class_committed c @ [s]\<rparr>
      | DurableRolledBack \<Rightarrow> c\<lparr>class_rolled_back := class_rolled_back c @ [s]\<rparr>
      | DurableOpen \<Rightarrow> c\<lparr>class_incomplete := class_incomplete c @ [s]\<rparr>
      | DurableIncomplete \<Rightarrow> c\<lparr>class_incomplete := class_incomplete c @ [s]\<rparr>)"

definition chain_classify_durable_transactions :: "wal_record list \<Rightarrow> durable_transaction_classifications" where
  "chain_classify_durable_transactions records =
     fold classify_summary (summarize_transactions_from_records records)
       \<lparr>class_committed = [], class_rolled_back = [], class_incomplete = []\<rparr>"

definition incomplete_transactions_from_records :: "wal_record list \<Rightarrow> incomplete_durable_transaction list" where
  "incomplete_transactions_from_records records =
     map (\<lambda>s. \<lparr>incomplete_transaction_id = resume_transaction_id s,
               incomplete_first_lsn = resume_first_lsn s, incomplete_last_lsn = resume_last_lsn s,
               incomplete_record_count = resume_record_count s\<rparr>)
       (filter resume_is_incomplete (summarize_transactions_from_records records))"

section \<open>Flush telemetry\<close>

datatype wal_io_queue_class = P0Durability | P1Maintenance

definition is_commit_critical :: "wal_io_queue_class \<Rightarrow> bool" where
  "is_commit_critical c \<longleftrightarrow> c = P0Durability"

record wal_queue_separation_evidence =
  queue_class :: wal_io_queue_class
  shares_queue_with_temp_spill :: bool

definition p0_durable :: wal_queue_separation_evidence where
  "p0_durable = \<lparr>queue_class = P0Durability, shares_queue_with_temp_spill = False\<rparr>"

definition preserves_p0_separation :: "wal_queue_separation_evidence \<Rightarrow> bool" where
  "preserves_p0_separation e \<longleftrightarrow> \<not> is_commit_critical (queue_class e) \<or> \<not> shares_queue_with_temp_spill e"

definition separation_validate :: "wal_queue_separation_evidence \<Rightarrow> unit andromeda_result" where
  "separation_validate e =
     (if \<not> preserves_p0_separation e
      then Inl (storage_error ''commit-critical WAL P0 queue must remain separated from temp/spill queues'')
      else Inr ())"

record wal_queue_depth_metrics =
  depth_separation :: wal_queue_separation_evidence
  queued_records :: u64
  queued_bytes :: u64

definition queue_depth_validate :: "wal_queue_depth_metrics \<Rightarrow> unit andromeda_result" where
  "queue_depth_validate m =
     and_then (separation_validate (depth_separation m)) (\<lambda>_.
       if (queued_records m = 0) \<noteq> (queued_bytes m = 0)
       then Inl (storage_error ''WAL queue depth must report records and bytes together'')
       else Inr ())"

definition queue_depth_new ::
    "wal_queue_separation_evidence \<Rightarrow> u64 \<Rightarrow> u64 \<Rightarrow> wal_queue_depth_metrics andromeda_result" where
  "queue_depth_new separation records bytes =
     (let m = \<lparr>depth_separation = separation, queued_records = records, queued_bytes = bytes\<rparr> in
      and_then (queue_depth_validate m) (\<lambda>_. Inr m))"

text \<open>\<open>WalWriteAmplificationMetrics\<close>: the two byte counts of its validation.\<close>

definition write_amplification_validate :: "u64 \<Rightarrow> u64 \<Rightarrow> unit andromeda_result" where
  "write_amplification_validate logical_bytes physical_bytes =
     (if logical_bytes = 0 \<or> physical_bytes = 0
      then Inl (storage_error ''WAL write amplification requires non-zero logical and physical byte counts'')
      else if physical_bytes < logical_bytes
      then Inl (storage_error ''WAL physical bytes must be greater than or equal to logical bytes'')
      else Inr ())"

text \<open>The latency sample is the duration in nanoseconds.\<close>

record wal_flush_telemetry =
  telemetry_separation :: wal_queue_separation_evidence
  target_lsn :: lsn
  queue_depth_before :: wal_queue_depth_metrics
  flushed_records :: u64
  flush_latency :: nat
  logical_bytes :: u64
  physical_bytes :: u64

definition telemetry_validate :: "wal_flush_telemetry \<Rightarrow> unit andromeda_result" where
  "telemetry_validate t =
     and_then (separation_validate (telemetry_separation t)) (\<lambda>_.
     and_then (queue_depth_validate (queue_depth_before t)) (\<lambda>_.
       if target_lsn t = 0
       then Inl (storage_error ''WAL flush telemetry requires a non-zero flush target LSN'')
       else if flush_latency t = 0
       then Inl (storage_error ''WAL flush telemetry requires a non-zero flush latency sample'')
       else if flushed_records t = 0
       then Inl (storage_error ''WAL flush telemetry requires at least one flushed record'')
       else if queued_records (queue_depth_before t) < flushed_records t
       then Inl (storage_error ''WAL flush telemetry cannot flush more records than were queued'')
       else if queued_bytes (queue_depth_before t) < physical_bytes t
       then Inl (storage_error ''WAL flush telemetry cannot flush more bytes than were queued'')
       else write_amplification_validate (logical_bytes t) (physical_bytes t)))"

definition pending_records :: "wal_record list \<Rightarrow> lsn \<Rightarrow> wal_record list" where
  "pending_records records durable = filter (\<lambda>r. durable < record_lsn r) records"

definition encoded_record_len :: "wal_record \<Rightarrow> u64 andromeda_result" where
  "encoded_record_len r = and_then (encode_wal_record r) (\<lambda>bytes. Inr (of_nat (length bytes)))"

fun encoded_physical_bytes :: "u64 \<Rightarrow> wal_record list \<Rightarrow> u64 andromeda_result" where
  "encoded_physical_bytes running [] = Inr running"
| "encoded_physical_bytes running (r # rs) =
     and_then (encoded_record_len r) (\<lambda>len.
       case checked_add running len of
         None \<Rightarrow> Inl (storage_error ''WAL byte count would overflow u64'')
       | Some running' \<Rightarrow> encoded_physical_bytes running' rs)"

definition wal_queue_depth_from_records ::
    "wal_record list \<Rightarrow> lsn \<Rightarrow> wal_queue_separation_evidence \<Rightarrow> wal_queue_depth_metrics andromeda_result" where
  "wal_queue_depth_from_records records durable separation =
     (let pending = pending_records records durable in
      and_then (encoded_physical_bytes 0 pending) (\<lambda>bytes.
        queue_depth_new separation (of_nat (length pending)) bytes))"

definition saturating_add :: "u64 \<Rightarrow> u64 \<Rightarrow> u64" where
  "saturating_add a b = (case checked_add a b of Some c \<Rightarrow> c | None \<Rightarrow> 0xffffffffffffffff)"

text \<open>The loop up to the target: the counters, and whether the target was found.\<close>

fun flush_counts :: "lsn \<Rightarrow> u64 \<times> u64 \<times> u64 \<Rightarrow> wal_record list \<Rightarrow> (bool \<times> u64 \<times> u64 \<times> u64) andromeda_result" where
  "flush_counts target counts [] = Inr (False, counts)"
| "flush_counts target (n, logical, physical) (r # rs) =
     and_then (encoded_record_len r) (\<lambda>len.
       let counts = (saturating_add n 1, saturating_add logical (of_nat (length (rec_payload r))),
                     saturating_add physical len) in
       if record_lsn r = target then Inr (True, counts) else flush_counts target counts rs)"

definition wal_flush_telemetry_from_records ::
    "wal_record list \<Rightarrow> lsn \<Rightarrow> lsn \<Rightarrow> wal_queue_separation_evidence \<Rightarrow> nat \<Rightarrow> wal_flush_telemetry andromeda_result" where
  "wal_flush_telemetry_from_records records durable target separation latency =
     (if target \<le> durable
      then Inl (storage_error ''WAL flush telemetry target must advance beyond the current durable LSN'')
      else
        and_then (wal_queue_depth_from_records records durable separation) (\<lambda>depth.
        and_then (flush_counts target (0, 0, 0) (pending_records records durable)) (\<lambda>(found_target, n, logical, physical).
          if \<not> found_target then Inl (storage_error ''WAL flush telemetry target LSN was not appended'')
          else
            let t = \<lparr>telemetry_separation = separation, target_lsn = target, queue_depth_before = depth,
                     flushed_records = n, flush_latency = latency, logical_bytes = logical,
                     physical_bytes = physical\<rparr> in
            and_then (telemetry_validate t) (\<lambda>_. Inr t))))"

section \<open>The in-memory log\<close>

record in_memory_wal =
  wal_records :: "wal_record list"
  wal_durable_lsn :: lsn

definition wal_new :: in_memory_wal where
  "wal_new = \<lparr>wal_records = [], wal_durable_lsn = 0\<rparr>"

definition records_last_lsn :: "wal_record list \<Rightarrow> lsn option" where
  "records_last_lsn records = (if records = [] then None else Some (record_lsn (last records)))"

definition wal_last_lsn :: "in_memory_wal \<Rightarrow> lsn option" where
  "wal_last_lsn w = records_last_lsn (wal_records w)"

definition wal_append :: "in_memory_wal \<Rightarrow> wal_record \<Rightarrow> in_memory_wal \<times> lsn andromeda_result" where
  "wal_append w r =
     or_return w (validate_append_record r (wal_last_lsn w)
         ''WAL record LSN must equal the next append LSN''
         ''WAL record previous LSN must chain to the append tail'') (\<lambda>_.
       (w\<lparr>wal_records := wal_records w @ [r]\<rparr>, Inr (record_lsn r)))"

definition wal_append_payload ::
    "in_memory_wal \<Rightarrow> wal_record_kind \<Rightarrow> u64 option \<Rightarrow> u8 list \<Rightarrow> in_memory_wal \<times> lsn andromeda_result" where
  "wal_append_payload w kind transaction_id payload =
     or_return w (payload_record kind (wal_last_lsn w) transaction_id payload) (wal_append w)"

definition wal_append_tx_begin :: "in_memory_wal \<Rightarrow> u64 \<Rightarrow> in_memory_wal \<times> lsn andromeda_result" where
  "wal_append_tx_begin w transaction_id = wal_append_payload w TxBegin (Some transaction_id) []"

definition wal_append_tx_commit :: "in_memory_wal \<Rightarrow> u64 \<Rightarrow> in_memory_wal \<times> lsn andromeda_result" where
  "wal_append_tx_commit w transaction_id = wal_append_payload w TxCommit (Some transaction_id) []"

definition wal_append_tx_rollback :: "in_memory_wal \<Rightarrow> u64 \<Rightarrow> in_memory_wal \<times> lsn andromeda_result" where
  "wal_append_tx_rollback w transaction_id = wal_append_payload w TxRollback (Some transaction_id) []"

definition wal_flush_through :: "in_memory_wal \<Rightarrow> lsn \<Rightarrow> in_memory_wal \<times> lsn andromeda_result" where
  "wal_flush_through w l =
     or_return w (validate_flush_target l (wal_durable_lsn w) (wal_last_lsn w)
         ''cannot flush WAL before records are appended''
         ''cannot flush WAL beyond the last appended LSN'') (\<lambda>target.
       let w = (case target of Some l \<Rightarrow> w\<lparr>wal_durable_lsn := l\<rparr> | None \<Rightarrow> w) in
       (w, Inr (wal_durable_lsn w)))"

definition wal_flush_all :: "in_memory_wal \<Rightarrow> in_memory_wal \<times> lsn andromeda_result" where
  "wal_flush_all w =
     (case wal_last_lsn w of
        Some last_lsn \<Rightarrow> wal_flush_through w last_lsn
      | None \<Rightarrow> (w, Inr (wal_durable_lsn w)))"

definition wal_queue_depth ::
    "in_memory_wal \<Rightarrow> wal_queue_separation_evidence \<Rightarrow> wal_queue_depth_metrics andromeda_result" where
  "wal_queue_depth w separation =
     wal_queue_depth_from_records (wal_records w) (wal_durable_lsn w) separation"

definition wal_flush_through_with_metrics ::
    "in_memory_wal \<Rightarrow> lsn \<Rightarrow> wal_queue_separation_evidence \<Rightarrow> nat \<Rightarrow>
     in_memory_wal \<times> wal_flush_telemetry andromeda_result" where
  "wal_flush_through_with_metrics w l separation latency =
     or_return w (wal_flush_telemetry_from_records (wal_records w) (wal_durable_lsn w) l separation latency)
       (\<lambda>telemetry.
         let (w, r) = wal_flush_through w l in
         or_return w r (\<lambda>_. (w, Inr telemetry)))"

definition wal_durable_records :: "in_memory_wal \<Rightarrow> wal_record list" where
  "wal_durable_records w = chain_durable_records (wal_records w) (wal_durable_lsn w)"

definition durable_records_for_transaction :: "in_memory_wal \<Rightarrow> u64 \<Rightarrow> wal_record list" where
  "durable_records_for_transaction w transaction_id =
     filter (\<lambda>r. is_for_transaction r transaction_id) (wal_durable_records w)"

definition resume_transaction :: "in_memory_wal \<Rightarrow> u64 \<Rightarrow> durable_transaction_resume option" where
  "resume_transaction w transaction_id =
     summarize_transaction transaction_id (durable_records_for_transaction w transaction_id)"

definition incomplete_durable_transactions :: "in_memory_wal \<Rightarrow> incomplete_durable_transaction list" where
  "incomplete_durable_transactions w = incomplete_transactions_from_records (wal_durable_records w)"

definition classify_durable_transactions :: "in_memory_wal \<Rightarrow> durable_transaction_classifications" where
  "classify_durable_transactions w = chain_classify_durable_transactions (wal_durable_records w)"

section \<open>Segments\<close>

record wal_segment_descriptor =
  seg_format_version :: u16
  seg_id :: u64
  seg_first_lsn :: lsn
  seg_last_lsn :: lsn
  seg_base_previous_lsn :: "lsn option"
  seg_record_count :: usize

definition descriptor_validate :: "wal_segment_descriptor \<Rightarrow> unit andromeda_result" where
  "descriptor_validate d =
     (if seg_format_version d \<noteq> WAL_FORMAT_VERSION
      then Inl (storage_error ''unsupported WAL segment format version'')
      else if seg_id d = 0 then Inl (storage_error ''WAL segment id must not be zero'')
      else if seg_record_count d = 0 then Inl (storage_error ''WAL segment record count must not be zero'')
      else if seg_first_lsn d = 0 \<or> seg_last_lsn d = 0
      then Inl (storage_error ''WAL segment LSN bounds must not be zero'')
      else if seg_last_lsn d < seg_first_lsn d
      then Inl (storage_error ''WAL segment last LSN precedes first LSN'')
      else if (case seg_base_previous_lsn d of Some previous \<Rightarrow> seg_first_lsn d \<le> previous | None \<Rightarrow> False)
      then Inl (storage_error ''WAL segment base previous LSN must precede first LSN'')
      else
        (case seg_base_previous_lsn d of
           Some previous \<Rightarrow>
             and_then (lsn_try_next previous) (\<lambda>n.
               if n \<noteq> seg_first_lsn d
               then Inl (storage_error ''WAL segment base previous LSN must chain to first LSN'')
               else Inr ())
         | None \<Rightarrow>
             if seg_first_lsn d = 0 then Inl (storage_error ''WAL segment first LSN must not be zero'')
             else Inr ()))"

fun segment_chain :: "lsn \<Rightarrow> lsn option \<Rightarrow> wal_record list \<Rightarrow> unit andromeda_result" where
  "segment_chain expected_lsn expected_previous [] = Inr ()"
| "segment_chain expected_lsn expected_previous (r # rs) =
     and_then (record_validate r) (\<lambda>_.
       if record_lsn r \<noteq> expected_lsn
       then Inl (storage_error ''WAL segment record LSN gap or duplicate'')
       else if rec_previous_lsn (rec_header r) \<noteq> expected_previous
       then Inl (storage_error ''WAL segment previous LSN chain mismatch'')
       else if rs = [] then segment_chain expected_lsn (Some (record_lsn r)) rs
       else and_then (lsn_try_next (record_lsn r)) (\<lambda>n. segment_chain n (Some (record_lsn r)) rs))"

definition descriptor_validate_records :: "wal_segment_descriptor \<Rightarrow> wal_record list \<Rightarrow> unit andromeda_result" where
  "descriptor_validate_records d records =
     and_then (descriptor_validate d) (\<lambda>_.
       if length records \<noteq> seg_record_count d then Inl (storage_error ''WAL segment record count mismatch'')
       else if records = [] then Inl (storage_error ''WAL segment has no records'')
       else if record_lsn (hd records) \<noteq> seg_first_lsn d \<or> record_lsn (last records) \<noteq> seg_last_lsn d
       then Inl (storage_error ''WAL segment LSN bounds mismatch records'')
       else segment_chain (seg_first_lsn d) (seg_base_previous_lsn d) records)"

definition descriptor_for_records ::
    "u64 \<Rightarrow> lsn option \<Rightarrow> wal_record list \<Rightarrow> wal_segment_descriptor andromeda_result" where
  "descriptor_for_records segment_id base_previous_lsn records =
     (if records = [] then Inl (storage_error ''WAL segment must contain at least one record'')
      else
        let d = \<lparr>seg_format_version = WAL_FORMAT_VERSION, seg_id = segment_id,
                 seg_first_lsn = record_lsn (hd records), seg_last_lsn = record_lsn (last records),
                 seg_base_previous_lsn = base_previous_lsn, seg_record_count = length records\<rparr> in
        and_then (descriptor_validate_records d records) (\<lambda>_. Inr d))"

end
