(* ===== verification/Wal_Log_Props.thy ===== *)
theory Wal_Log_Props
  imports Wal_Log
begin

text \<open>
  Properties of the typed log: the typed codec as an instance of the frame scanner, the append chain
  as an invariant of the in-memory log, and what its durable part is.
\<close>

section \<open>The typed codec\<close>

lemma lsn_try_next_iff: "lsn_try_next l = Inr n \<longleftrightarrow> checked_add l 1 = Some n"
proof -
  have "l = 0xffffffffffffffff \<longleftrightarrow> 2 ^ 64 \<le> unat l + 1"
  proof
    assume big: "2 ^ 64 \<le> unat l + 1"
    have "unat l < 2 ^ 64" using unsigned_less [of l] by simp
    with big have "unat l = unat (0xffffffffffffffff :: u64)" by simp
    then show "l = 0xffffffffffffffff" by (simp only: word_unat_eq_iff)
  qed simp
  then show ?thesis by (auto simp: lsn_try_next_def lsn_checked_next_def checked_add_def split: option.splits)
qed

definition record_frame :: "wal_record \<Rightarrow> wal_codec_record_frame" where
  "record_frame r =
     \<lparr>frame_kind_tag = ucast (wal_record_kind_tag (rec_kind (rec_header r))),
      frame_lsn = record_lsn r, frame_previous_lsn = rec_previous_lsn (rec_header r),
      frame_transaction_id = rec_transaction_id (rec_header r), frame_payload = rec_payload r,
      frame_record_checksum = rec_checksum (rec_header r)\<rparr>"

lemma raw_record_frame: "raw_record_frame_from_record r = Inr (record_frame r)"
  using unat_kind_tag [of "rec_kind (rec_header r)"]
  by (simp add: raw_record_frame_from_record_def record_frame_def)

lemma record_frame_simps [simp]:
  "frame_lsn (record_frame r) = record_lsn r"
  "frame_previous_lsn (record_frame r) = rec_previous_lsn (rec_header r)"
  "frame_payload (record_frame r) = rec_payload r"
  by (simp_all add: record_frame_def)

definition storable_record :: "wal_record \<Rightarrow> bool" where
  "storable_record r \<longleftrightarrow> record_validate r = Inr () \<and> 72 + length (rec_payload r) < 2 ^ 64"

lemma record_validate_length:
  "record_validate r = Inr () \<Longrightarrow> rec_payload_length (rec_header r) = of_nat (length (rec_payload r))"
  by (auto simp: record_validate_def and_then_eq_Inr_iff split: if_splits)

lemma encode_wal_record_valid:
  "record_validate r = Inr () \<Longrightarrow> encode_wal_record r = encode_wal_record_frame (record_frame r)"
  by (simp add: encode_wal_record_def raw_record_frame)

lemma record_from_raw_frame:
  assumes "record_validate r = Inr ()"
  shows "record_from_raw (record_frame r) = Inr r"
proof -
  have "\<lparr>rec_kind = rec_kind (rec_header r), rec_lsn = record_lsn r,
      rec_previous_lsn = rec_previous_lsn (rec_header r), rec_transaction_id = rec_transaction_id (rec_header r),
      rec_payload_length = of_nat (length (rec_payload r)), rec_checksum = rec_checksum (rec_header r)\<rparr> = rec_header r"
    using record_validate_length [OF assms] by simp
  moreover have eta: "\<lparr>rec_header = rec_header r, rec_payload = rec_payload r\<rparr> = r" by simp
  ultimately show ?thesis
    using assms
    by (simp add: record_from_raw_def record_frame_def kind_tag_u16 kind_from_tag_tag wal_record_new_def Let_def eta)
qed

lemma typed_decode_encode:
  assumes "storable_record r" and "encode_wal_record_frame (record_frame r) = Inr bs"
  shows "typed_decode_wal_record_frame (bs @ rest) = Inr (Some (r, length bs))"
proof -
  have "decode_wal_record_frame (bs @ rest) = Inr (Some (record_frame r, length bs))"
    using assms by (intro decode_wal_record_frame_encode) (auto simp: storable_record_def)
  then show ?thesis
    using assms by (simp add: typed_decode_wal_record_frame_def record_from_raw_frame storable_record_def)
qed

interpretation typed_records: frame_scanner record_frame storable_record
    "\<lambda>h. and_then (header_from_raw h) (\<lambda>_. Inr ())" typed_decode_wal_record_frame
proof
  fix r h
  assume r: "storable_record r" and h: "from_record_frame (record_frame r) = Inr h"
  then have "header_validate_frame h = Inr () \<and> kind_tag h = frame_kind_tag (record_frame r)"
    using from_record_frame_Inr [OF h] by (simp add: storable_record_def)
  then show "and_then (header_from_raw h) (\<lambda>_. Inr ()) = Inr ()"
    by (simp add: header_from_raw_def typed_header_validate_def frame_header_kind_def record_frame_def
        kind_tag_u16 kind_from_tag_tag)
next
  fix r bs
  assume "storable_record r" and "encode_wal_record_frame (record_frame r) = Inr bs"
  then show "typed_decode_wal_record_frame bs = Inr (Some (r, length bs))"
    using typed_decode_encode [of r bs "[]"] by simp
qed (simp add: storable_record_def)

text \<open>A changed payload byte: the frame still decodes, the record checksum does not match.\<close>

lemma wal_record_checksum_one_byte:
  assumes "i < length payload" and "b \<noteq> payload ! i"
    and "wal_record_checksum kind l p t payload \<noteq> 1"
  shows "wal_record_checksum kind l p t (payload[i := b]) \<noteq> wal_record_checksum kind l p t payload"
proof -
  let ?s = "fold_u64 (of_nat (length payload)) (fold_u64 (option_or_zero t) (fold_u64 (option_or_zero p)
    (fold_u64 l (fold_u64 (wal_record_kind_tag kind) FNV_OFFSET))))"
  have "fnv_fold (take i payload @ b # drop (Suc i) payload) ?s \<noteq>
      fnv_fold (take i payload @ payload ! i # drop (Suc i) payload) ?s"
    by (rule fnv_one_byte) (rule assms(2))
  then have "fnv_fold (payload[i := b]) ?s \<noteq> fnv_fold payload ?s"
    by (simp add: upd_conv_take_nth_drop id_take_nth_drop [symmetric] assms(1))
  with assms(3) show ?thesis by (auto simp: wal_record_checksum_def Let_def nonzero_def split: if_splits)
qed

lemma typed_decode_payload_byte:
  assumes "storable_record r" and "encode_wal_record_frame (record_frame r) = Inr bs"
    and "72 \<le> i" and "i < length bs" and "b \<noteq> bs ! i" and "rec_checksum (rec_header r) \<noteq> 1"
  shows "\<exists>e. typed_decode_wal_record_frame (bs[i := b] @ rest) = Inl e"
proof -
  let ?p = "(rec_payload r)[i - 72 := b]"
  obtain h where h: "from_record_frame (record_frame r) = Inr h"
    and bs: "bs = header_fields h @ le_bytes 8 (header_checksum h) @ rec_payload r"
    using assms(2) by (rule encode_wal_record_frame_Inr) simp
  have len: "length (rec_payload r) < 2 ^ 64" using assms(1) by (simp add: storable_record_def)
  have "from_record_frame (record_frame r\<lparr>frame_payload := ?p\<rparr>) = Inr h"
    using h by (simp add: from_record_frame_def)
  moreover have "bs[i := b] = header_fields h @ le_bytes 8 (header_checksum h) @ ?p"
    using assms(3) by (auto simp: bs list_update_append)
  ultimately have "encode_wal_record_frame (record_frame r\<lparr>frame_payload := ?p\<rparr>) = Inr (bs[i := b])"
    by (simp add: encode_wal_record_frame_def)
  then have raw: "decode_wal_record_frame (bs[i := b] @ rest) =
      Inr (Some (record_frame r\<lparr>frame_payload := ?p\<rparr>, length bs))"
    using decode_wal_record_frame_encode len by fastforce
  have valid: "rec_checksum (rec_header r) = wal_record_checksum (rec_kind (rec_header r)) (record_lsn r)
      (rec_previous_lsn (rec_header r)) (rec_transaction_id (rec_header r)) (rec_payload r)"
    using assms(1) by (auto simp: storable_record_def record_validate_def and_then_eq_Inr_iff split: if_splits)
  have "i - 72 < length (rec_payload r)" "b \<noteq> rec_payload r ! (i - 72)"
    using assms(3-5) by (auto simp: bs nth_append split: if_splits)
  then have "wal_record_checksum (rec_kind (rec_header r)) (record_lsn r)
      (rec_previous_lsn (rec_header r)) (rec_transaction_id (rec_header r)) ?p \<noteq> rec_checksum (rec_header r)"
    using assms(6) wal_record_checksum_one_byte valid by metis
  then have "\<exists>e. record_from_raw (record_frame r\<lparr>frame_payload := ?p\<rparr>) = Inl e"
    by (auto simp: record_from_raw_def record_frame_def kind_tag_u16 kind_from_tag_tag wal_record_new_def
        record_validate_def record_header_validate_def Let_def)
  with raw show ?thesis by (auto simp: typed_decode_wal_record_frame_def)
qed

section \<open>The append chain\<close>

fun record_chain :: "lsn option \<Rightarrow> wal_record list \<Rightarrow> bool" where
  "record_chain previous [] \<longleftrightarrow> True"
| "record_chain previous (r # rs) \<longleftrightarrow>
     try_next_lsn previous = Inr (record_lsn r) \<and> rec_previous_lsn (rec_header r) = previous \<and>
     record_chain (Some (record_lsn r)) rs"

lemma record_chain_append:
  "record_chain previous (rs @ [r]) \<longleftrightarrow>
     record_chain previous rs \<and>
     try_next_lsn (if rs = [] then previous else Some (record_lsn (last rs))) = Inr (record_lsn r) \<and>
     rec_previous_lsn (rec_header r) = (if rs = [] then previous else Some (record_lsn (last rs)))"
  by (induction rs arbitrary: previous) auto

lemma record_chain_previous:
  "record_chain previous (rs @ r # rs') \<Longrightarrow>
     rec_previous_lsn (rec_header r) = (if rs = [] then previous else Some (record_lsn (last rs)))"
  by (induction rs arbitrary: previous) auto

lemma record_chain_prefix: "record_chain previous (rs @ rs') \<Longrightarrow> record_chain previous rs"
  by (induction rs arbitrary: previous) auto

lemma record_chain_take: "record_chain previous rs \<Longrightarrow> record_chain previous (take n rs)"
  by (metis append_take_drop_id record_chain_prefix)

lemma record_chain_lsn:
  assumes "record_chain None rs" and "i < length rs"
  shows "unat (record_lsn (rs ! i)) = Suc i"
  using assms
proof (induction rs arbitrary: i rule: rev_induct)
  case (snoc r rs)
  show ?case
  proof (cases "i < length rs")
    case True
    with snoc show ?thesis by (auto simp: nth_append record_chain_append)
  next
    case False
    then have i: "i = length rs" using snoc.prems by simp
    show ?thesis
    proof (cases "rs = []")
      case False
      then have "lsn_try_next (record_lsn (last rs)) = Inr (record_lsn r)"
        using snoc.prems by (simp add: record_chain_append try_next_lsn_def)
      then have "unat (record_lsn r) = unat (record_lsn (last rs)) + 1"
        using checked_add_Some_unat by (fastforce simp: lsn_try_next_iff)
      also have "unat (record_lsn (last rs)) = Suc (length rs - 1)"
        using False snoc by (simp add: last_conv_nth record_chain_append)
      finally show ?thesis using False i by simp
    qed (use snoc i in \<open>simp add: try_next_lsn_def\<close>)
  qed
qed simp

lemma record_chain_last:
  "record_chain None rs \<Longrightarrow> rs \<noteq> [] \<Longrightarrow> unat (record_lsn (last rs)) = length rs"
  using record_chain_lsn [of rs "length rs - 1"] by (simp add: last_conv_nth)

lemma chain_durable_records_take:
  "record_chain None rs \<Longrightarrow> chain_durable_records rs d = take (unat d) rs"
proof (induction rs rule: rev_induct)
  case (snoc r rs)
  have "unat (record_lsn r) = Suc (length rs)" using record_chain_last [OF snoc.prems] by simp
  then show ?case
    using snoc by (auto simp: chain_durable_records_def word_le_nat_alt record_chain_append)
qed (simp add: chain_durable_records_def)

lemma record_chain_frames:
  "record_chain previous rs \<Longrightarrow> try_next_lsn previous = Inr l \<Longrightarrow> frames_chained (Some l) previous (map record_frame rs)"
proof (induction rs arbitrary: previous l)
  case (Cons r rs)
  show ?case
  proof (cases rs)
    case (Cons r' rs')
    then have "lsn_try_next (record_lsn r) = Inr (record_lsn r')" using Cons.prems by (simp add: try_next_lsn_def)
    then have "checked_add (record_lsn r) 1 = Some (record_lsn r')" by (simp add: lsn_try_next_iff)
    moreover have "frames_chained (Some (record_lsn r')) (Some (record_lsn r)) (map record_frame rs)"
      using Cons.prems Cons by (intro Cons.IH) (auto simp: try_next_lsn_def)
    ultimately show ?thesis using Cons.prems by simp
  qed (use Cons in auto)
qed simp

text \<open>The two validators of a batch accept exactly such chains.\<close>

lemma lsn_continuity_loop_iff:
  "lsn_continuity_loop i previous l rs = Inr m \<longleftrightarrow>
     record_chain previous rs \<and> m = (if rs = [] then l else record_lsn (last rs))"
  by (induction i previous l rs rule: lsn_continuity_loop.induct)
    (auto simp: and_then_eq_Inr_iff try_next_lsn_def split: option.splits)

lemma segment_chain_iff:
  "segment_chain l previous rs = Inr () \<longleftrightarrow>
     list_all (\<lambda>r. record_validate r = Inr ()) rs \<and>
     (rs \<noteq> [] \<longrightarrow> record_lsn (hd rs) = l \<and> rec_previous_lsn (rec_header (hd rs)) = previous \<and>
       record_chain (Some (record_lsn (hd rs))) (tl rs))"
proof (induction l previous rs rule: segment_chain.induct)
  case (2 l previous r rs)
  show ?case
  proof (cases rs)
    case Nil
    then show ?thesis by (auto simp: and_then_eq_Inr_iff)
  next
    case (Cons r' rs')
    then show ?thesis
      using 2 by (cases "lsn_try_next (record_lsn r)") (auto simp: and_then_eq_Inr_iff try_next_lsn_def)
  qed
qed simp

section \<open>The in-memory log\<close>

definition bounded_record :: "wal_record \<Rightarrow> bool" where
  "bounded_record r \<longleftrightarrow> record_validate r = Inr () \<and> length (rec_payload r) \<le> 1048576"

definition wal_inv :: "in_memory_wal \<Rightarrow> bool" where
  "wal_inv w \<longleftrightarrow> record_chain None (wal_records w) \<and> list_all bounded_record (wal_records w) \<and>
     unat (wal_durable_lsn w) \<le> length (wal_records w)"

inductive wal_step :: "in_memory_wal \<Rightarrow> in_memory_wal \<Rightarrow> bool" where
  step_append: "length (rec_payload r) < 2 ^ 64 \<Longrightarrow> wal_step w (fst (wal_append w r))"
| step_append_payload: "length payload < 2 ^ 64 \<Longrightarrow> wal_step w (fst (wal_append_payload w kind tx payload))"
| step_flush_through: "wal_step w (fst (wal_flush_through w l))"
| step_flush_all: "wal_step w (fst (wal_flush_all w))"
| step_flush_with_metrics: "wal_step w (fst (wal_flush_through_with_metrics w l separation latency))"

lemma bounded_recordI:
  assumes "validate_wal_record_bounds r = Inr u" and "length (rec_payload r) < 2 ^ 64"
  shows "bounded_record r"
proof -
  have "record_validate r = Inr ()" and "\<not> (of_nat (length (rec_payload r)) :: u64) > WAL_RECORD_SIZE_LIMIT"
    using assms(1)
    by (auto simp: validate_wal_record_bounds_def validate_record_size_def and_then_eq_Inr_iff Let_def split: if_splits)
  moreover have "unat (of_nat (length (rec_payload r)) :: u64) = length (rec_payload r)"
    using assms(2) by (simp add: unat_of_nat)
  ultimately show ?thesis
    by (simp add: bounded_record_def WAL_RECORD_SIZE_LIMIT_def word_less_nat_alt not_less)
qed

lemma bounded_record_storable: "bounded_record r \<Longrightarrow> storable_record r"
  by (simp add: bounded_record_def storable_record_def)

lemma validate_append_record_Inr:
  "validate_append_record r tail m m' = Inr u \<longleftrightarrow>
     validate_wal_record_bounds r = Inr () \<and> try_next_lsn tail = Inr (record_lsn r) \<and>
     rec_previous_lsn (rec_header r) = tail"
  by (auto simp: validate_append_record_def validate_wal_record_bounds_def and_then_eq_Inr_iff)

lemma append_keeps_chain:
  assumes "validate_append_record r (records_last_lsn rs) m m' = Inr u" and "record_chain None rs"
  shows "record_chain None (rs @ [r])"
  using assms by (simp add: validate_append_record_Inr record_chain_append records_last_lsn_def)

lemma wal_append_outcome:
  "wal_append w r = (w', res) \<Longrightarrow>
     (w' = w \<and> (\<exists>e. res = Inl e)) \<or>
     (\<exists>m m'. validate_append_record r (wal_last_lsn w) m m' = Inr () \<and>
       w' = w\<lparr>wal_records := wal_records w @ [r]\<rparr> \<and> res = Inr (record_lsn r))"
  by (cases "validate_append_record r (wal_last_lsn w) ''WAL record LSN must equal the next append LSN''
      ''WAL record previous LSN must chain to the append tail''") (auto simp: wal_append_def)

lemma from_parts_payload: "from_parts kind l p t payload = Inr r \<Longrightarrow> rec_payload r = payload"
  by (auto simp: from_parts_def wal_record_new_def and_then_eq_Inr_iff Let_def)

lemma wal_append_payload_cases:
  assumes "wal_append_payload w kind tx payload = (w', res)"
  shows "(w' = w \<and> (\<exists>e. res = Inl e)) \<or> (\<exists>r. rec_payload r = payload \<and> wal_append w r = (w', res))"
  using assms from_parts_payload
  by (cases "payload_record kind (wal_last_lsn w) tx payload")
    (auto simp: wal_append_payload_def payload_record_def and_then_eq_Inr_iff)

lemma wal_flush_through_outcome:
  "wal_flush_through w l = (w', res) \<Longrightarrow>
     w' = w \<or> (\<exists>t. wal_last_lsn w = Some t \<and> wal_durable_lsn w < l \<and> l \<le> t \<and> w' = w\<lparr>wal_durable_lsn := l\<rparr>)"
  by (auto simp: wal_flush_through_def validate_flush_target_def Let_def or_return_def split: if_splits option.splits)

lemma wal_append_inv:
  "wal_inv w \<Longrightarrow> length (rec_payload r) < 2 ^ 64 \<Longrightarrow> wal_append w r = (w', res) \<Longrightarrow> wal_inv w'"
  by (drule wal_append_outcome)
    (auto simp: wal_inv_def wal_last_lsn_def append_keeps_chain validate_append_record_Inr
      record_chain_append records_last_lsn_def intro!: bounded_recordI)

lemma wal_flush_through_inv:
  "wal_inv w \<Longrightarrow> wal_flush_through w l = (w', res) \<Longrightarrow> wal_inv w'"
  by (drule wal_flush_through_outcome)
    (auto simp: wal_inv_def wal_last_lsn_def records_last_lsn_def word_le_nat_alt
      dest: record_chain_last split: if_splits)

interpretation wal_log: invariant_system wal_new wal_step wal_inv
proof
  show "wal_inv wal_new" by (simp add: wal_inv_def wal_new_def)
next
  fix w w' assume "wal_step w w'" "wal_inv w"
  then show "wal_inv w'"
  proof (cases rule: wal_step.cases)
    case (step_append r)
    then show ?thesis using wal_append_inv \<open>wal_inv w\<close> by (metis prod.collapse)
  next
    case (step_append_payload payload kind tx)
    then show ?thesis
      using wal_append_payload_cases [of w kind tx payload w'] wal_append_inv \<open>wal_inv w\<close> by (metis prod.collapse)
  next
    case (step_flush_through l)
    then show ?thesis using wal_flush_through_inv \<open>wal_inv w\<close> by (metis prod.collapse)
  next
    case step_flush_all
    then show ?thesis
      using wal_flush_through_inv \<open>wal_inv w\<close>
      by (auto simp: wal_flush_all_def split: option.splits) (metis prod.collapse)
  next
    case (step_flush_with_metrics l separation latency)
    then have "w' = w \<or> w' = fst (wal_flush_through w l)"
      by (auto simp: wal_flush_through_with_metrics_def or_return_def Let_def split: sum.splits prod.splits)
    then show ?thesis using wal_flush_through_inv \<open>wal_inv w\<close> by (metis prod.collapse)
  qed
qed

section \<open>Classification\<close>

definition has_kind :: "u64 \<Rightarrow> wal_record_kind \<Rightarrow> wal_record list \<Rightarrow> bool" where
  "has_kind tx kind rs \<longleftrightarrow> list_ex (\<lambda>r. is_for_transaction r tx \<and> rec_kind (rec_header r) = kind) rs"

definition mentions_transaction :: "u64 \<Rightarrow> wal_record list \<Rightarrow> bool" where
  "mentions_transaction tx rs \<longleftrightarrow> list_ex (\<lambda>r. is_for_transaction r tx) rs"

lemma summary_fold:
  "let s = fold (summary_record tx) rs s0 in
   (sum_first s \<noteq> None \<longleftrightarrow> sum_first s0 \<noteq> None \<or> mentions_transaction tx rs) \<and>
   (sum_last s \<noteq> None \<longleftrightarrow> sum_last s0 \<noteq> None \<or> mentions_transaction tx rs) \<and>
   (sum_begin s \<noteq> None \<longleftrightarrow> sum_begin s0 \<noteq> None \<or> has_kind tx TxBegin rs) \<and>
   (sum_commit s \<noteq> None \<longleftrightarrow> sum_commit s0 \<noteq> None \<or> has_kind tx TxCommit rs) \<and>
   (sum_rollback s \<noteq> None \<longleftrightarrow> sum_rollback s0 \<noteq> None \<or> has_kind tx TxRollback rs)"
proof (induction rs arbitrary: s0)
  case (Cons r rs)
  have "(sum_first (summary_record tx r s0) \<noteq> None \<longleftrightarrow> sum_first s0 \<noteq> None \<or> is_for_transaction r tx) \<and>
     (sum_last (summary_record tx r s0) \<noteq> None \<longleftrightarrow> sum_last s0 \<noteq> None \<or> is_for_transaction r tx) \<and>
     (sum_begin (summary_record tx r s0) \<noteq> None \<longleftrightarrow> sum_begin s0 \<noteq> None \<or> has_kind tx TxBegin [r]) \<and>
     (sum_commit (summary_record tx r s0) \<noteq> None \<longleftrightarrow> sum_commit s0 \<noteq> None \<or> has_kind tx TxCommit [r]) \<and>
     (sum_rollback (summary_record tx r s0) \<noteq> None \<longleftrightarrow> sum_rollback s0 \<noteq> None \<or> has_kind tx TxRollback [r])"
    by (cases "rec_kind (rec_header r)") (auto simp: summary_record_def has_kind_def Let_def)
  with Cons [of "summary_record tx r s0"] show ?case
    by (simp add: Let_def mentions_transaction_def has_kind_def)
qed (simp add: mentions_transaction_def has_kind_def)

lemma summarize_transaction_state:
  assumes "summarize_transaction tx rs = Some s"
  shows "resume_transaction_id s = tx"
    and "resume_state s =
      (if has_kind tx TxBegin rs \<and> has_kind tx TxCommit rs \<and> \<not> has_kind tx TxRollback rs then DurableCommitted
       else if has_kind tx TxBegin rs \<and> \<not> has_kind tx TxCommit rs \<and> has_kind tx TxRollback rs then DurableRolledBack
       else if has_kind tx TxBegin rs \<and> \<not> has_kind tx TxCommit rs then DurableOpen
       else DurableIncomplete)"
  using assms summary_fold [of tx rs summary_start]
  by (auto simp: summarize_transaction_def summary_state_def summary_start_def Let_def split: option.splits)

lemma summarize_transaction_Some: "(\<exists>s. summarize_transaction tx rs = Some s) \<longleftrightarrow> mentions_transaction tx rs"
  using summary_fold [of tx rs summary_start]
  by (auto simp: summarize_transaction_def summary_start_def Let_def split: option.splits)

lemma group_records:
  "map_of (fold group_record rs g) tx =
     (if mentions_transaction tx rs then Some ((case map_of g tx of None \<Rightarrow> [] | Some rs \<Rightarrow> rs) @ filter (\<lambda>r. is_for_transaction r tx) rs)
      else map_of g tx)"
proof (induction rs arbitrary: g)
  case (Cons r rs)
  show ?case
    unfolding fold_simps comp_apply Cons
    by (auto simp: group_record_def mentions_transaction_def is_for_transaction_def map_of_btree_insert
        empty_filter_conv list_ex_iff split: option.splits)
qed (simp add: mentions_transaction_def)

lemma group_inv: "btree_inv g \<Longrightarrow> btree_inv (fold group_record rs g)"
  by (induction rs arbitrary: g) (auto simp: group_record_def btree_inv_insert split: option.splits)

lemma summaries_exact:
  "s \<in> set (summarize_transactions_from_records rs) \<longleftrightarrow> summarize_transaction (resume_transaction_id s) rs = Some s"
proof -
  have only: "summarize_transaction tx (filter (\<lambda>r. is_for_transaction r tx) rs) = summarize_transaction tx rs" for tx
  proof -
    have "fold (summary_record tx) (filter (\<lambda>r. is_for_transaction r tx) rs) s0 = fold (summary_record tx) rs s0" for s0
      by (induction rs arbitrary: s0) (simp_all add: summary_record_def)
    then show ?thesis by (simp add: summarize_transaction_def)
  qed
  let ?g = "fold group_record rs []"
  have inv: "btree_inv ?g" by (rule group_inv) (simp add: btree_inv_def)
  have "s \<in> set (summarize_transactions_from_records rs) \<longleftrightarrow>
      (\<exists>tx trs. (tx, trs) \<in> set ?g \<and> summarize_transaction tx trs = Some s)"
    by (auto simp: summarize_transactions_from_records_def List.map_filter_def image_iff) force+
  also have "\<dots> \<longleftrightarrow> (\<exists>tx trs. map_of ?g tx = Some trs \<and> summarize_transaction tx trs = Some s)"
    using btree_inv_distinct [OF inv] by (simp add: map_of_eq_Some_iff)
  also have "\<dots> \<longleftrightarrow> (\<exists>tx. mentions_transaction tx rs \<and> summarize_transaction tx rs = Some s)"
    by (auto simp: group_records only)
  also have "\<dots> \<longleftrightarrow> summarize_transaction (resume_transaction_id s) rs = Some s"
    using summarize_transaction_Some summarize_transaction_state(1) by blast
  finally show ?thesis .
qed

lemma classify_fold:
  "fold classify_summary ss c =
     \<lparr>class_committed = class_committed c @ filter (\<lambda>s. resume_state s = DurableCommitted) ss,
      class_rolled_back = class_rolled_back c @ filter (\<lambda>s. resume_state s = DurableRolledBack) ss,
      class_incomplete = class_incomplete c @ filter resume_is_incomplete ss\<rparr>"
proof (induction ss arbitrary: c)
  case (Cons s ss)
  then show ?case by (cases "resume_state s") (simp_all add: classify_summary_def resume_is_incomplete_def)
qed simp

section \<open>A sample log\<close>

definition sample_record :: "wal_record_kind \<Rightarrow> lsn \<Rightarrow> lsn option \<Rightarrow> u64 option \<Rightarrow> u8 list \<Rightarrow> wal_record" where
  "sample_record kind l p t payload =
     \<lparr>rec_header =
        \<lparr>rec_kind = kind, rec_lsn = l, rec_previous_lsn = p, rec_transaction_id = t,
         rec_payload_length = of_nat (length payload), rec_checksum = wal_record_checksum kind l p t payload\<rparr>,
      rec_payload = payload\<rparr>"

definition sample_begin :: wal_record where
  "sample_begin = sample_record TxBegin 1 None (Some 7) []"

definition sample_commit :: wal_record where
  "sample_commit = sample_record TxCommit 2 (Some 1) (Some 7) [5, 6]"

lemma wal_record_checksum_pos: "wal_record_checksum kind l p t payload \<noteq> 0"
  by (simp add: wal_record_checksum_def Let_def nonzero_def)

lemma sample_bounded: "bounded_record sample_begin" "bounded_record sample_commit"
  by (simp_all add: bounded_record_def sample_begin_def sample_commit_def sample_record_def record_validate_def
      record_header_validate_def requires_transaction_id_def wal_record_checksum_pos word_le_nat_alt)

lemma sample_chain: "record_chain None [sample_begin, sample_commit]"
  by (simp add: sample_begin_def sample_commit_def sample_record_def try_next_lsn_def lsn_try_next_def
      lsn_checked_next_def)

lemma encode_bounded: "bounded_record r \<Longrightarrow> \<exists>bs. encode_wal_record r = Inr bs \<and> 72 \<le> length bs"
  using encode_total [of "record_frame r"] bounded_record_storable [of r]
  by (auto simp: bounded_record_def encode_wal_record_valid dest: typed_records.encoded_length)

lemma sample_checksum: "wal_record_checksum TxBegin 1 None (Some 7) [] \<noteq> 1"
  by code_simp

definition sample_header :: wal_codec_frame_header where
  "sample_header =
     \<lparr>magic = WAL_RECORD_MAGIC, format_version = WAL_FORMAT_VERSION, header_length = 72, total_length = 72,
      kind_tag = 1, flags = 2, header_lsn = 1, header_previous_lsn = None, header_transaction_id = Some 7,
      payload_length = 0, record_checksum = wal_record_checksum TxBegin 1 None (Some 7) [], header_checksum = 0\<rparr>"

lemma sample_header_digest: "fnv64_nonzero (header_fields sample_header) \<noteq> 1"
  by code_simp

lemma sample_header_byte: "header_fields sample_header ! 40 = 7"
  by code_simp

lemma sample_header_frame:
  "from_record_frame (record_frame sample_begin) =
     Inr (sample_header\<lparr>header_checksum := fnv64_nonzero (header_fields sample_header)\<rparr>)"
  by (simp add: from_record_frame_def encoded_wal_record_frame_len_def WAL_RECORD_HEADER_LEN_def checked_add_def
      record_frame_def sample_begin_def sample_record_def sample_header_def flags_for_def FLAG_HAS_PREVIOUS_LSN_def
      FLAG_HAS_TRANSACTION_ID_def header_validate_frame_def header_checksum_without_checksum_def Let_def
      header_fields_def)

lemma sample_encoding:
  "encode_wal_record sample_begin =
     Inr (header_fields sample_header @ le_bytes 8 (fnv64_nonzero (header_fields sample_header)))"
  using sample_bounded(1)
  by (simp add: bounded_record_def encode_wal_record_valid encode_wal_record_frame_def sample_header_frame)
    (simp add: sample_begin_def sample_record_def)

section \<open>Properties\<close>

text \<open>
  C14. Reading back a log that a crash tore inside its last record: the scan returns exactly the records
  before it, the byte offset where they end and the last LSN, and stops there with the truncated
  header or truncated record reason, or with none when nothing of the torn record was written.
\<close>

theorem torn_log_recovers_prefix:
  assumes "record_chain None (rs @ [r])" and "list_all bounded_record (rs @ [r])"
    and "list_all2 (\<lambda>r bs. encode_wal_record r = Inr bs) rs bss" and "encode_wal_record r = Inr b"
    and "k < length b"
  shows "scan_wal_records (concat bss @ take k b) =
    \<lparr>scan_records = rs, valid_bytes = length (concat bss), last_valid_lsn = records_last_lsn rs,
     stopped = (if k = 0 then None
       else Some \<lparr>stop_offset = length (concat bss),
                  stop_reason = (if k < 72 then TruncatedHeader else TruncatedRecord)\<rparr>)\<rparr>"
proof -
  have frames: "encode_wal_record s = encode_wal_record_frame (record_frame s) \<and> storable_record s"
    if "s \<in> set (rs @ [r])" for s
    using assms(2) that encode_wal_record_valid bounded_record_storable
    by (auto simp: list_all_iff bounded_record_def)
  have all: "list_all2 (\<lambda>r bs. storable_record r \<and> encode_wal_record_frame (record_frame r) = Inr bs) rs bss"
    using assms(3) by (rule list.rel_mono_strong) (use frames in auto)
  have "frames_chained (Some 1) None (map record_frame rs)"
    using record_chain_prefix [OF assms(1)] by (intro record_chain_frames) (simp_all add: try_next_lsn_def)
  from typed_records.scan_torn_log [OF all _ _ assms(5) this, of r] frames [of r] assms(4)
  show ?thesis
    by (simp add: scan_wal_records_def scan_wal_records_from_def torn_scan_def scan_result_def records_last_lsn_def)
qed

theorem torn_log_recovers_prefix_witness:
  "\<exists>b c. encode_wal_record sample_begin = Inr b \<and> encode_wal_record sample_commit = Inr c \<and>
     scan_wal_records (b @ take 5 c) =
       \<lparr>scan_records = [sample_begin], valid_bytes = length b, last_valid_lsn = Some 1,
        stopped = Some \<lparr>stop_offset = length b, stop_reason = TruncatedHeader\<rparr>\<rparr>"
proof -
  obtain b c where "encode_wal_record sample_begin = Inr b" "encode_wal_record sample_commit = Inr c" "72 \<le> length c"
    using sample_bounded encode_bounded by blast
  moreover have "records_last_lsn [sample_begin] = Some 1"
    by (simp add: records_last_lsn_def sample_begin_def sample_record_def)
  ultimately show ?thesis
    using torn_log_recovers_prefix [of "[sample_begin]" sample_commit "[b]" c 5] sample_bounded sample_chain by simp
qed

text \<open>
  C17. A single corrupted byte of a stored record, anywhere in its header or its payload, is detected:
  decoding the bytes is an error. (The two digests reserve zero, so each of them is assumed not to
  be the substitute value one.)
\<close>

theorem corrupted_byte_detected:
  assumes "bounded_record r" and "encode_wal_record r = Inr bs" and "i < length bs" and "b \<noteq> bs ! i"
    and "fnv64_nonzero (take 64 bs) \<noteq> 1" and "rec_checksum (rec_header r) \<noteq> 1"
  shows "\<exists>e. typed_decode_wal_record_frame (bs[i := b] @ rest) = Inl e"
proof (cases "72 \<le> i")
  case True
  then show ?thesis
    using assms typed_decode_payload_byte [of r bs i b rest] bounded_record_storable [OF assms(1)]
    by (simp add: encode_wal_record_valid bounded_record_def)
next
  case False
  have enc: "encode_wal_record_frame (record_frame r) = Inr bs"
    using assms(1,2) by (simp add: encode_wal_record_valid bounded_record_def)
  obtain h where "decode_frame_header (take 72 bs) = Inr h" "72 \<le> length bs"
    using typed_records.encoded_header [OF bounded_record_storable [OF assms(1)] enc] by metis
  then have "\<exists>e. decode_frame_header ((take 72 bs)[i := b]) = Inl e"
    using False assms(4,5) by (intro decode_frame_header_one_byte) auto
  then have "\<exists>e. decode_wal_record_frame (bs[i := b] @ rest) = Inl e"
    using \<open>72 \<le> length bs\<close> False
    by (auto simp: decode_wal_record_frame_def WAL_RECORD_HEADER_LEN_def take_update_swap)
  then show ?thesis by (auto simp: typed_decode_wal_record_frame_def)
qed

theorem corrupted_byte_detected_witness:
  "\<exists>bs e. encode_wal_record sample_begin = Inr bs \<and> typed_decode_wal_record_frame (bs[40 := 8] @ []) = Inl e"
  using corrupted_byte_detected [OF sample_bounded(1) sample_encoding, of 40 8 "[]"] sample_header_digest
    sample_header_byte sample_checksum sample_encoding
  by (simp add: nth_append) (simp add: sample_begin_def sample_record_def)

text \<open>
  A record within the size limit round trips: it encodes to as many bytes as the length function
  announces, and decoding those bytes, with anything after them, gives the record back and consumes
  exactly them.
\<close>

theorem wal_record_round_trip:
  assumes "bounded_record r"
  shows "\<exists>bs. encode_wal_record r = Inr bs \<and> encoded_wal_record_len r = Inr (of_nat (length bs)) \<and>
    typed_decode_wal_record_frame (bs @ rest) = Inr (Some (r, length bs))"
proof -
  have valid: "record_validate r = Inr ()" and stored: "storable_record r"
    using assms bounded_record_storable by (auto simp: bounded_record_def)
  obtain bs where enc: "encode_wal_record_frame (record_frame r) = Inr bs"
    using encode_total [of "record_frame r"] stored by (auto simp: storable_record_def)
  then obtain h where h: "from_record_frame (record_frame r) = Inr h"
    and bs: "bs = header_fields h @ le_bytes 8 (header_checksum h) @ rec_payload r"
    by (rule encode_wal_record_frame_Inr) simp
  have "encoded_wal_record_frame_len (of_nat (length (rec_payload r))) = Inr (of_nat (length bs))"
    using h by (auto simp: from_record_frame_def and_then_eq_Inr_iff Let_def encoded_wal_record_frame_len_def
        checked_add_def WAL_RECORD_HEADER_LEN_def bs split: option.splits if_splits)
  with enc typed_decode_encode [OF stored enc] show ?thesis
    by (simp add: encode_wal_record_valid [OF valid] encoded_wal_record_len_def valid record_validate_length)
qed

theorem wal_record_round_trip_witness:
  "\<exists>bs. encode_wal_record sample_commit = Inr bs \<and>
     typed_decode_wal_record_frame (bs @ [0]) = Inr (Some (sample_commit, length bs))"
  using wal_record_round_trip [OF sample_bounded(2), of "[0]"] by blast

text \<open>
  C26. The in-memory log, whatever sequence of appends and flushes produced it, is gapless: the record
  at index i is valid, has LSN i + 1 and points to its predecessor; the durable LSN names a stored
  record (or none), and what is replayed after a restart is exactly the prefix up to it.
\<close>

theorem wal_log_gapless:
  assumes "wal_step\<^sup>*\<^sup>* wal_new w"
  shows "(\<forall>i < length (wal_records w).
      record_validate (wal_records w ! i) = Inr () \<and> unat (record_lsn (wal_records w ! i)) = Suc i \<and>
      rec_previous_lsn (rec_header (wal_records w ! i)) = (if i = 0 then None else Some (record_lsn (wal_records w ! (i - 1))))) \<and>
    unat (wal_durable_lsn w) \<le> length (wal_records w) \<and>
    wal_durable_records w = take (unat (wal_durable_lsn w)) (wal_records w)"
proof -
  have inv: "wal_inv w" using assms by (rule wal_log.reachable_inv)
  have previous: "rec_previous_lsn (rec_header (rs ! i)) = (if i = 0 then None else Some (record_lsn (rs ! (i - 1))))"
    if "record_chain None rs" "i < length rs" for rs i
    using record_chain_previous [of None "take i rs" "rs ! i" "drop (Suc i) rs"] that
    by (auto simp: id_take_nth_drop [symmetric] last_conv_nth min_def split: if_splits)
  show ?thesis
    using inv previous record_chain_lsn
    by (auto simp: wal_inv_def wal_durable_records_def chain_durable_records_take bounded_record_def list_all_length)
qed

theorem wal_log_gapless_witness:
  "wal_durable_records (fst (wal_append wal_new sample_begin)) = []"
proof -
  have "wal_step wal_new (fst (wal_append wal_new sample_begin))"
    by (rule step_append) (simp add: sample_begin_def sample_record_def)
  then have run: "wal_step\<^sup>*\<^sup>* wal_new (fst (wal_append wal_new sample_begin))" by simp
  have "wal_durable_lsn (fst (wal_append wal_new sample_begin)) = 0"
    using wal_append_outcome [of wal_new sample_begin] by (cases "wal_append wal_new sample_begin") (auto simp: wal_new_def)
  then show ?thesis using wal_log_gapless [OF run] by simp
qed

text \<open>
  C31. The classification of the durable transactions is exact: a transaction is reported committed when
  its durable records hold a begin and a commit and no rollback, rolled back when they hold a begin
  and a rollback and no commit, and incomplete when it has durable records and is neither.
\<close>

theorem classification_exact:
  "resume_transaction_id ` set (class_committed (classify_durable_transactions w)) =
     {tx. has_kind tx TxBegin (wal_durable_records w) \<and> has_kind tx TxCommit (wal_durable_records w) \<and>
       \<not> has_kind tx TxRollback (wal_durable_records w)} \<and>
   resume_transaction_id ` set (class_rolled_back (classify_durable_transactions w)) =
     {tx. has_kind tx TxBegin (wal_durable_records w) \<and> \<not> has_kind tx TxCommit (wal_durable_records w) \<and>
       has_kind tx TxRollback (wal_durable_records w)} \<and>
   resume_transaction_id ` set (class_incomplete (classify_durable_transactions w)) =
     {tx. mentions_transaction tx (wal_durable_records w)} -
     resume_transaction_id ` set (class_committed (classify_durable_transactions w)) -
     resume_transaction_id ` set (class_rolled_back (classify_durable_transactions w))"
proof -
  let ?rs = "wal_durable_records w"
  let ?st = "\<lambda>tx. if has_kind tx TxBegin ?rs \<and> has_kind tx TxCommit ?rs \<and> \<not> has_kind tx TxRollback ?rs then DurableCommitted
       else if has_kind tx TxBegin ?rs \<and> \<not> has_kind tx TxCommit ?rs \<and> has_kind tx TxRollback ?rs then DurableRolledBack
       else if has_kind tx TxBegin ?rs \<and> \<not> has_kind tx TxCommit ?rs then DurableOpen
       else DurableIncomplete"
  have ids: "resume_transaction_id ` {s \<in> set (summarize_transactions_from_records ?rs). resume_state s \<in> D} =
      {tx. mentions_transaction tx ?rs \<and> ?st tx \<in> D}" (is "?L = ?R") for D
  proof (rule set_eqI)
    fix tx
    have "tx \<in> ?L \<longleftrightarrow> (\<exists>s. summarize_transaction tx ?rs = Some s \<and> resume_state s \<in> D)"
      using summarize_transaction_state(1) by (auto simp: summaries_exact image_iff)
    also have "\<dots> \<longleftrightarrow> tx \<in> ?R"
      using summarize_transaction_Some [of tx ?rs] summarize_transaction_state(2) [of tx ?rs] by auto
    finally show "tx \<in> ?L \<longleftrightarrow> tx \<in> ?R" .
  qed
  have kinds: "has_kind tx kind ?rs \<Longrightarrow> mentions_transaction tx ?rs" for tx kind
    by (auto simp: has_kind_def mentions_transaction_def list_ex_iff)
  show ?thesis
    unfolding classify_durable_transactions_def chain_classify_durable_transactions_def classify_fold
    using ids [of "{DurableCommitted}"] ids [of "{DurableRolledBack}"] ids [of "{DurableOpen, DurableIncomplete}"]
    by (auto simp: resume_is_incomplete_def dest: kinds split: if_splits)
qed

end
