(* ===== verification/File_Wal.thy ===== *)
theory File_Wal
  imports Wal_Log_Props
begin

text \<open>
  The file-backed log of \<open>andromeda-wal\<close> (\<open>file_wal/format.rs\<close>, \<open>header.rs\<close>, \<open>scan.rs\<close>, \<open>wal.rs\<close>,
  \<open>observer.rs\<close>). The file is what the standard library promises of one: bytes that survive a crash
  once synced, changes that may be lost before, and operations that may fail. The failures are part
  of the state, one entry for each file operation to come: \<open>None\<close> when it succeeds, and for a
  failing one the number of bytes written before the failure and the text of the error; an empty
  list means no more failures. File lengths, which the file system bounds below \<open>2 ^ 63\<close>, are
  natural numbers.
\<close>

section \<open>Files\<close>

datatype file_change = Wrote nat "u8 list" | Resized nat

record disk =
  synced_bytes :: "u8 list"
  unsynced :: "file_change list"
  io_faults :: "(nat \<times> string) option list"

fun apply_change :: "file_change \<Rightarrow> u8 list \<Rightarrow> u8 list" where
  "apply_change (Wrote offset bytes) content =
     take offset (content @ replicate (offset - length content) 0) @ bytes @ drop (offset + length bytes) content"
| "apply_change (Resized n) content = take n content @ replicate (n - length content) 0"

definition contents :: "disk \<Rightarrow> u8 list" where
  "contents d = fold apply_change (unsynced d) (synced_bytes d)"

definition io_error :: "string \<Rightarrow> string \<Rightarrow> andromeda_error" where
  "io_error action e = storage_error (action @ '': '' @ e)"

definition take_fault :: "disk \<Rightarrow> disk \<times> (nat \<times> string) option" where
  "take_fault d = (case io_faults d of [] \<Rightarrow> (d, None) | f # fs \<Rightarrow> (d\<lparr>io_faults := fs\<rparr>, f))"

definition io_then :: "'s \<times> ('e + 'a) \<Rightarrow> ('s \<Rightarrow> 'a \<Rightarrow> 's \<times> ('e + 'b)) \<Rightarrow> 's \<times> ('e + 'b)" where
  "io_then r f = (case r of (s, Inl e) \<Rightarrow> (s, Inl e) | (s, Inr v) \<Rightarrow> f s v)"

definition file_seek :: "disk \<Rightarrow> string \<Rightarrow> disk \<times> unit andromeda_result" where
  "file_seek d action =
     (case take_fault d of (d, None) \<Rightarrow> (d, Inr ()) | (d, Some (_, e)) \<Rightarrow> (d, Inl (io_error action e)))"

definition file_len :: "disk \<Rightarrow> string \<Rightarrow> disk \<times> nat andromeda_result" where
  "file_len d action =
     (case take_fault d of
        (d, None) \<Rightarrow> (d, Inr (length (contents d)))
      | (d, Some (_, e)) \<Rightarrow> (d, Inl (io_error action e)))"

definition file_read_exact :: "disk \<Rightarrow> nat \<Rightarrow> nat \<Rightarrow> string \<Rightarrow> disk \<times> u8 list andromeda_result" where
  "file_read_exact d offset n action =
     (case take_fault d of
        (d, None) \<Rightarrow>
          (case get_range (contents d) offset n of
             Some bytes \<Rightarrow> (d, Inr bytes)
           | None \<Rightarrow> (d, Inl (io_error action ''failed to fill whole buffer'')))
      | (d, Some (_, e)) \<Rightarrow> (d, Inl (io_error action e)))"

definition file_write_all :: "disk \<Rightarrow> nat \<Rightarrow> u8 list \<Rightarrow> string \<Rightarrow> disk \<times> unit andromeda_result" where
  "file_write_all d offset bytes action =
     (case take_fault d of
        (d, None) \<Rightarrow> (d\<lparr>unsynced := unsynced d @ [Wrote offset bytes]\<rparr>, Inr ())
      | (d, Some (n, e)) \<Rightarrow>
          (d\<lparr>unsynced := unsynced d @ [Wrote offset (take n bytes)]\<rparr>, Inl (io_error action e)))"

definition file_set_len :: "disk \<Rightarrow> nat \<Rightarrow> string \<Rightarrow> disk \<times> unit andromeda_result" where
  "file_set_len d n action =
     (case take_fault d of
        (d, None) \<Rightarrow> (d\<lparr>unsynced := unsynced d @ [Resized n]\<rparr>, Inr ())
      | (d, Some (_, e)) \<Rightarrow> (d, Inl (io_error action e)))"

definition file_sync :: "disk \<Rightarrow> string \<Rightarrow> disk \<times> unit andromeda_result" where
  "file_sync d action =
     (case take_fault d of
        (d, None) \<Rightarrow> (d\<lparr>synced_bytes := contents d, unsynced := []\<rparr>, Inr ())
      | (d, Some (_, e)) \<Rightarrow> (d, Inl (io_error action e)))"

text \<open>
  What a crash may leave of a file: every byte no unsynced change touched is as it was last synced;
  the others, and the length beyond them, are arbitrary.
\<close>

fun touches :: "file_change \<Rightarrow> nat \<Rightarrow> bool" where
  "touches (Wrote offset bytes) i \<longleftrightarrow> offset \<le> i \<and> i < offset + length bytes"
| "touches (Resized n) i \<longleftrightarrow> n \<le> i"

definition crash_image :: "disk \<Rightarrow> u8 list \<Rightarrow> bool" where
  "crash_image d img \<longleftrightarrow>
     (\<forall>i < length (synced_bytes d). list_all (\<lambda>c. \<not> touches c i) (unsynced d) \<longrightarrow>
        i < length img \<and> img ! i = synced_bytes d ! i)"

definition disk_of :: "u8 list \<Rightarrow> disk" where
  "disk_of img = \<lparr>synced_bytes = img, unsynced = [], io_faults = []\<rparr>"

section \<open>The file header\<close>

definition FILE_WAL_MAGIC :: u64 where
  "FILE_WAL_MAGIC = 0x314c415752444e41"

definition FILE_WAL_HEADER_LEN :: nat where
  "FILE_WAL_HEADER_LEN = 80"

definition FILE_WAL_MONO_SEGMENT_ID :: u64 where
  "FILE_WAL_MONO_SEGMENT_ID = 1"

definition WAL_BYTE_ORDER_LITTLE_ENDIAN :: u16 where
  "WAL_BYTE_ORDER_LITTLE_ENDIAN = 0x0102"

record file_wal_header =
  file_magic :: u64
  file_format_version :: u16
  file_byte_order :: u16
  file_header_length :: u32
  file_segment_id :: u64
  file_first_lsn :: lsn
  file_base_previous_lsn :: "lsn option"
  file_durable_lsn :: lsn
  file_durable_bytes :: u64
  file_durable_record_count :: u64
  file_header_checksum :: u64
  file_reserved :: u64

definition file_wal_header_checksum_without_checksum :: "file_wal_header \<Rightarrow> u64" where
  "file_wal_header_checksum_without_checksum h =
     fnv64_nonzero
       (le_bytes 8 (file_magic h) @ le_bytes 2 (file_format_version h) @ le_bytes 2 (file_byte_order h) @
        le_bytes 4 (file_header_length h) @ le_bytes 8 (file_segment_id h) @ le_bytes 8 (file_first_lsn h) @
        le_bytes 8 (option_or_zero (file_base_previous_lsn h)) @ le_bytes 8 (file_durable_lsn h) @
        le_bytes 8 (file_durable_bytes h) @ le_bytes 8 (file_durable_record_count h) @
        le_bytes 8 (file_reserved h))"

definition file_header_new :: "lsn \<Rightarrow> u64 \<Rightarrow> u64 \<Rightarrow> file_wal_header" where
  "file_header_new durable bytes record_count =
     (let h = \<lparr>file_magic = FILE_WAL_MAGIC, file_format_version = WAL_FORMAT_VERSION,
               file_byte_order = WAL_BYTE_ORDER_LITTLE_ENDIAN, file_header_length = of_nat FILE_WAL_HEADER_LEN,
               file_segment_id = FILE_WAL_MONO_SEGMENT_ID, file_first_lsn = 1,
               file_base_previous_lsn = None, file_durable_lsn = durable, file_durable_bytes = bytes,
               file_durable_record_count = record_count, file_header_checksum = 0, file_reserved = 0\<rparr> in
      h\<lparr>file_header_checksum := file_wal_header_checksum_without_checksum h\<rparr>)"

definition file_header_validate :: "file_wal_header \<Rightarrow> unit andromeda_result" where
  "file_header_validate h =
     (if file_magic h \<noteq> FILE_WAL_MAGIC then Inl (storage_error ''file WAL magic mismatch'')
      else if file_format_version h \<noteq> WAL_FORMAT_VERSION
      then Inl (storage_error ''unsupported file WAL format version'')
      else if file_byte_order h \<noteq> WAL_BYTE_ORDER_LITTLE_ENDIAN
      then Inl (storage_error ''file WAL byte order mismatch'')
      else if file_header_length h \<noteq> of_nat FILE_WAL_HEADER_LEN
      then Inl (storage_error ''file WAL header length mismatch'')
      else if file_segment_id h \<noteq> FILE_WAL_MONO_SEGMENT_ID
      then Inl (storage_error ''file WAL segment id mismatch'')
      else if file_first_lsn h \<noteq> 1 then Inl (storage_error ''file WAL first LSN must be 1'')
      else if file_base_previous_lsn h \<noteq> None
      then Inl (storage_error ''file WAL mono-segment base LSN must be empty'')
      else if file_reserved h \<noteq> 0 then Inl (storage_error ''file WAL reserved bytes must be zero'')
      else if file_durable_lsn h = 0 \<and> (file_durable_bytes h \<noteq> 0 \<or> file_durable_record_count h \<noteq> 0)
      then Inl (storage_error ''file WAL empty durable LSN must not carry durable bytes'')
      else if file_durable_lsn h \<noteq> 0 \<and> file_durable_record_count h = 0
      then Inl (storage_error ''file WAL durable LSN requires at least one durable record'')
      else if file_header_checksum h \<noteq> file_wal_header_checksum_without_checksum h
      then Inl (storage_error ''file WAL header checksum mismatch'')
      else Inr ())"

text \<open>\<open>bytes[offset..offset + n].copy_from_slice(value)\<close>.\<close>

definition put_bytes :: "nat \<Rightarrow> u8 list \<Rightarrow> u8 list \<Rightarrow> u8 list" where
  "put_bytes offset value bytes = take offset bytes @ value @ drop (offset + length value) bytes"

definition encode_file_wal_header :: "file_wal_header \<Rightarrow> u8 list" where
  "encode_file_wal_header h =
     (let bytes = replicate FILE_WAL_HEADER_LEN 0;
          bytes = put_bytes 0 (le_bytes 8 (file_magic h)) bytes;
          bytes = put_bytes 8 (le_bytes 2 (file_format_version h)) bytes;
          bytes = put_bytes 10 (le_bytes 2 (file_byte_order h)) bytes;
          bytes = put_bytes 12 (le_bytes 4 (file_header_length h)) bytes;
          bytes = put_bytes 16 (le_bytes 8 (file_segment_id h)) bytes;
          bytes = put_bytes 24 (le_bytes 8 (file_first_lsn h)) bytes;
          bytes = put_bytes 32 (le_bytes 8 (option_or_zero (file_base_previous_lsn h))) bytes;
          bytes = put_bytes 40 (le_bytes 8 (file_durable_lsn h)) bytes;
          bytes = put_bytes 48 (le_bytes 8 (file_durable_bytes h)) bytes;
          bytes = put_bytes 56 (le_bytes 8 (file_durable_record_count h)) bytes;
          bytes = put_bytes 64 (le_bytes 8 (file_header_checksum h)) bytes;
          bytes = put_bytes 72 (le_bytes 8 (file_reserved h)) bytes in
      bytes)"

definition file_read_u16 :: "u8 list \<Rightarrow> nat \<Rightarrow> u16 andromeda_result" where
  "file_read_u16 bytes offset =
     and_then (read_array bytes offset 2 ''file WAL u16 header field out of bounds'') (\<lambda>bs. Inr (of_le_bytes bs))"

definition file_read_u32 :: "u8 list \<Rightarrow> nat \<Rightarrow> u32 andromeda_result" where
  "file_read_u32 bytes offset =
     and_then (read_array bytes offset 4 ''file WAL u32 header field out of bounds'') (\<lambda>bs. Inr (of_le_bytes bs))"

definition file_read_u64 :: "u8 list \<Rightarrow> nat \<Rightarrow> u64 andromeda_result" where
  "file_read_u64 bytes offset =
     and_then (read_array bytes offset 8 ''file WAL u64 header field out of bounds'') (\<lambda>bs. Inr (of_le_bytes bs))"

definition decode_file_wal_header :: "u8 list \<Rightarrow> file_wal_header andromeda_result" where
  "decode_file_wal_header bytes =
     and_then (file_read_u64 bytes 32) (\<lambda>base_previous_lsn.
     and_then (file_read_u64 bytes 0) (\<lambda>magic_value.
     and_then (file_read_u16 bytes 8) (\<lambda>version.
     and_then (file_read_u16 bytes 10) (\<lambda>byte_order.
     and_then (file_read_u32 bytes 12) (\<lambda>header_len.
     and_then (file_read_u64 bytes 16) (\<lambda>segment_id.
     and_then (file_read_u64 bytes 24) (\<lambda>first_lsn.
     and_then (file_read_u64 bytes 40) (\<lambda>durable.
     and_then (file_read_u64 bytes 48) (\<lambda>durable_bytes.
     and_then (file_read_u64 bytes 56) (\<lambda>record_count.
     and_then (file_read_u64 bytes 64) (\<lambda>checksum.
     and_then (file_read_u64 bytes 72) (\<lambda>reserved.
       let h = \<lparr>file_magic = magic_value, file_format_version = version, file_byte_order = byte_order,
                file_header_length = header_len, file_segment_id = segment_id, file_first_lsn = first_lsn,
                file_base_previous_lsn = (if base_previous_lsn \<noteq> 0 then Some base_previous_lsn else None),
                file_durable_lsn = durable, file_durable_bytes = durable_bytes,
                file_durable_record_count = record_count, file_header_checksum = checksum,
                file_reserved = reserved\<rparr> in
       and_then (file_header_validate h) (\<lambda>_. Inr h)))))))))))))"

definition read_file_wal_header :: "disk \<Rightarrow> disk \<times> file_wal_header andromeda_result" where
  "read_file_wal_header d =
     io_then (file_seek d ''seek file WAL header'') (\<lambda>d _.
     io_then (file_read_exact d 0 FILE_WAL_HEADER_LEN ''read file WAL header'') (\<lambda>d bytes.
       (d, decode_file_wal_header bytes)))"

definition write_file_wal_header :: "disk \<Rightarrow> file_wal_header \<Rightarrow> disk \<times> unit andromeda_result" where
  "write_file_wal_header d h =
     or_return d (file_header_validate h) (\<lambda>_.
     io_then (file_seek d ''seek file WAL header'') (\<lambda>d _.
       file_write_all d 0 (encode_file_wal_header h) ''write file WAL header''))"

definition file_offset_for_wal_bytes :: "u64 \<Rightarrow> u64 andromeda_result" where
  "file_offset_for_wal_bytes wal_bytes =
     (case checked_add (of_nat FILE_WAL_HEADER_LEN) wal_bytes of
        Some offset \<Rightarrow> Inr offset
      | None \<Rightarrow> Inl (storage_error ''file WAL offset would overflow u64''))"

section \<open>Scanning a file\<close>

record file_wal_disk_scan =
  disk_header :: file_wal_header
  physical_wal_bytes :: nat
  scanned_bytes :: nat
  scan_durable_bytes :: u64
  scan_durable_lsn :: lsn
  disk_scan :: "wal_record wal_codec_scan_result"

record file_wal_record_boundary =
  boundary_lsn :: lsn
  end_bytes :: u64

definition scan_open_file_wal :: "disk \<Rightarrow> disk \<times> file_wal_disk_scan andromeda_result" where
  "scan_open_file_wal d =
     io_then (file_len d ''read file WAL metadata'') (\<lambda>d physical_len.
       if physical_len < FILE_WAL_HEADER_LEN then (d, Inl (storage_error ''file WAL header is truncated''))
       else
         io_then (read_file_wal_header d) (\<lambda>d h.
         or_return d (file_header_validate h) (\<lambda>_.
           let physical = physical_len - FILE_WAL_HEADER_LEN;
               scanned = min (unat (file_durable_bytes h)) physical in
           io_then (file_seek d ''seek file WAL data'') (\<lambda>d _.
           io_then (file_read_exact d FILE_WAL_HEADER_LEN scanned ''read file WAL durable bytes'') (\<lambda>d bytes.
             let scan = scan_wal_records bytes in
             (d, Inr \<lparr>disk_header = h, physical_wal_bytes = physical, scanned_bytes = scanned,
                      scan_durable_bytes = of_nat (valid_bytes scan),
                      scan_durable_lsn = option_or_zero (last_valid_lsn scan), disk_scan = scan\<rparr>))))))"

fun record_boundaries_loop ::
    "u64 \<Rightarrow> wal_record list \<Rightarrow> file_wal_record_boundary list andromeda_result" where
  "record_boundaries_loop offset [] = Inr []"
| "record_boundaries_loop offset (r # rs) =
     and_then (encoded_wal_record_len r) (\<lambda>encoded_len.
       case checked_add offset encoded_len of
         None \<Rightarrow> Inl (storage_error ''file WAL record boundary would overflow u64'')
       | Some offset \<Rightarrow>
           and_then (record_boundaries_loop offset rs) (\<lambda>boundaries.
             Inr (\<lparr>boundary_lsn = record_lsn r, end_bytes = offset\<rparr> # boundaries)))"

definition record_boundaries_for :: "wal_record list \<Rightarrow> file_wal_record_boundary list andromeda_result" where
  "record_boundaries_for records = record_boundaries_loop 0 records"

definition is_forensic_scan_stop :: "wal_scan_stop option \<Rightarrow> bool" where
  "is_forensic_scan_stop stop \<longleftrightarrow>
     (case stop of
        None \<Rightarrow> False
      | Some s \<Rightarrow> stop_reason s \<in> {LsnGap, DuplicateOrReorderedLsn, PreviousLsnMismatch})"

section \<open>The file log\<close>

text \<open>The observers all read the one shared atomic; it is a field of the log.\<close>

record file_wal =
  wal_file :: disk
  fw_records :: "wal_record list"
  record_boundaries :: "file_wal_record_boundary list"
  fw_append_bytes :: u64
  fw_durable_bytes :: u64
  fw_durable_lsn :: lsn
  fw_scan_stop :: "wal_scan_stop option"
  shared_durable_lsn :: lsn
  flush_separation :: wal_queue_separation_evidence

definition file_wal_open :: "disk \<Rightarrow> disk \<times> file_wal andromeda_result" where
  "file_wal_open d =
     io_then (file_seek d ''open file WAL'') (\<lambda>d _.
     io_then (file_len d ''read file WAL metadata'') (\<lambda>d len.
     io_then
       (if len = 0
        then io_then (write_file_wal_header d (file_header_new 0 0 0)) (\<lambda>d _. file_sync d ''sync new file WAL header'')
        else (d, Inr ())) (\<lambda>d _.
     io_then (scan_open_file_wal d) (\<lambda>d scan.
       if is_forensic_scan_stop (stopped (disk_scan scan))
       then (d, Inl (storage_error ''file WAL scan stopped at a non-recoverable LSN chain boundary''))
       else
         let durable_bytes = of_nat (valid_bytes (disk_scan scan));
             durable = option_or_zero (last_valid_lsn (disk_scan scan));
             record_count = of_nat (length (scan_records (disk_scan scan)));
             h = file_header_new durable durable_bytes record_count in
         or_return d (file_offset_for_wal_bytes durable_bytes) (\<lambda>desired_len.
         io_then (file_len d ''read file WAL metadata'') (\<lambda>d len.
         io_then
           (if len \<noteq> unat desired_len
            then file_set_len d (unat desired_len) ''truncate file WAL to durable prefix''
            else (d, Inr ())) (\<lambda>d _.
         io_then (write_file_wal_header d h) (\<lambda>d _.
         io_then (file_sync d ''sync file WAL durable header'') (\<lambda>d _.
         or_return d (record_boundaries_for (scan_records (disk_scan scan))) (\<lambda>boundaries.
           (d, Inr \<lparr>wal_file = d, fw_records = scan_records (disk_scan scan), record_boundaries = boundaries,
                    fw_append_bytes = durable_bytes, fw_durable_bytes = durable_bytes,
                    fw_durable_lsn = durable, fw_scan_stop = stopped (disk_scan scan),
                    shared_durable_lsn = durable, flush_separation = p0_durable\<rparr>)))))))))))"

definition with_flush_separation :: "file_wal \<Rightarrow> wal_queue_separation_evidence \<Rightarrow> file_wal" where
  "with_flush_separation w separation = w\<lparr>flush_separation := separation\<rparr>"

definition current_durable_lsn :: "file_wal \<Rightarrow> lsn" where
  "current_durable_lsn w = shared_durable_lsn w"

definition fw_last_lsn :: "file_wal \<Rightarrow> lsn option" where
  "fw_last_lsn w = records_last_lsn (fw_records w)"

definition file_wal_append :: "file_wal \<Rightarrow> wal_record \<Rightarrow> file_wal \<times> lsn andromeda_result" where
  "file_wal_append w r =
     or_return w (validate_append_record r (fw_last_lsn w)
         ''file WAL record must equal the next append LSN''
         ''file WAL record previous LSN must chain to the append tail'') (\<lambda>_.
     or_return w (encode_wal_record r) (\<lambda>encoded.
     or_return w (file_offset_for_wal_bytes (fw_append_bytes w)) (\<lambda>offset.
       let (d, res) =
         io_then (file_seek (wal_file w) ''seek file WAL append offset'') (\<lambda>d _.
           file_write_all d (unat offset) encoded ''append file WAL record'');
         w = w\<lparr>wal_file := d\<rparr> in
       or_return w res (\<lambda>_.
       or_return w
         (case checked_add (fw_append_bytes w) (of_nat (length encoded)) of
            Some n \<Rightarrow> Inr n
          | None \<Rightarrow> Inl (storage_error ''file WAL append byte count would overflow u64'')) (\<lambda>append_bytes.
         (w\<lparr>fw_append_bytes := append_bytes,
            record_boundaries := record_boundaries w @ [\<lparr>boundary_lsn = record_lsn r, end_bytes = append_bytes\<rparr>],
            fw_records := fw_records w @ [r]\<rparr>, Inr (record_lsn r)))))))"

definition file_wal_append_payload ::
    "file_wal \<Rightarrow> wal_record_kind \<Rightarrow> u64 option \<Rightarrow> u8 list \<Rightarrow> file_wal \<times> lsn andromeda_result" where
  "file_wal_append_payload w kind transaction_id payload =
     or_return w (payload_record kind (fw_last_lsn w) transaction_id payload) (file_wal_append w)"

definition file_wal_flush_through :: "file_wal \<Rightarrow> lsn \<Rightarrow> file_wal \<times> lsn andromeda_result" where
  "file_wal_flush_through w l =
     or_return w (separation_validate (flush_separation w)) (\<lambda>_.
     or_return w (validate_flush_target l (fw_durable_lsn w) (fw_last_lsn w)
         ''cannot flush file WAL before records are appended''
         ''cannot flush file WAL beyond the last appended LSN'') (\<lambda>target.
       case target of
         None \<Rightarrow> (w, Inr (fw_durable_lsn w))
       | Some l \<Rightarrow>
           or_return w
             (case position (\<lambda>b. boundary_lsn b = l) (record_boundaries w) of
                Some i \<Rightarrow> Inr i
              | None \<Rightarrow> Inl (storage_error ''file WAL flush LSN was not appended'')) (\<lambda>durable_index.
             let durable_bytes = end_bytes (record_boundaries w ! durable_index);
                 record_count = of_nat (durable_index + 1);
                 (d, res) = file_sync (wal_file w) ''sync file WAL records'';
                 w = w\<lparr>wal_file := d\<rparr> in
             or_return w res (\<lambda>_.
               let w = w\<lparr>fw_durable_lsn := l, fw_durable_bytes := durable_bytes, shared_durable_lsn := l\<rparr>;
                   (d, res) =
                     io_then (write_file_wal_header (wal_file w) (file_header_new l durable_bytes record_count))
                       (\<lambda>d _. file_sync d ''sync file WAL header'');
                   w = w\<lparr>wal_file := d\<rparr> in
               or_return w res (\<lambda>_. (w, Inr (fw_durable_lsn w)))))))"

definition file_wal_flush_all :: "file_wal \<Rightarrow> file_wal \<times> lsn andromeda_result" where
  "file_wal_flush_all w =
     (case fw_last_lsn w of
        Some last_lsn \<Rightarrow> file_wal_flush_through w last_lsn
      | None \<Rightarrow> (w, Inr (fw_durable_lsn w)))"

definition file_wal_flush_through_with_metrics ::
    "file_wal \<Rightarrow> lsn \<Rightarrow> wal_queue_separation_evidence \<Rightarrow> nat \<Rightarrow> file_wal \<times> wal_flush_telemetry andromeda_result" where
  "file_wal_flush_through_with_metrics w l separation latency =
     or_return w (wal_flush_telemetry_from_records (fw_records w) (fw_durable_lsn w) l separation latency)
       (\<lambda>telemetry.
         let (w, r) = file_wal_flush_through w l in
         or_return w r (\<lambda>_. (w, Inr telemetry)))"

definition file_wal_durable_records :: "file_wal \<Rightarrow> wal_record list" where
  "file_wal_durable_records w = chain_durable_records (fw_records w) (fw_durable_lsn w)"

end
