(* ===== verification/File_Wal_Props.thy ===== *)
theory File_Wal_Props
  imports File_Wal
begin

text \<open>
  Crash safety of the file-backed log: what the file holds after any sequence of appends, flushes,
  failing file operations, crashes and reopenings, and what reopening it returns.
\<close>

section \<open>Files\<close>

lemma io_then_simps [simp]:
  "io_then (s, Inl e) f = (s, Inl e)"
  "io_then (s, Inr v) f = f s v"
  by (simp_all add: io_then_def)

definition same_file :: "disk \<Rightarrow> disk \<Rightarrow> bool" where
  "same_file d d' \<longleftrightarrow> synced_bytes d' = synced_bytes d \<and> unsynced d' = unsynced d"

lemma same_file_contents: "same_file d d' \<Longrightarrow> contents d' = contents d"
  by (simp add: same_file_def contents_def)

lemma take_fault_same: "take_fault d = (d', f) \<Longrightarrow> same_file d d'"
  by (auto simp: take_fault_def same_file_def split: list.splits)

lemma take_fault_none [simp]: "io_faults d = [] \<Longrightarrow> take_fault d = (d, None)"
  by (simp add: take_fault_def)

lemma file_seek_outcome: "file_seek d action = (d', res) \<Longrightarrow> same_file d d'"
  by (auto simp: file_seek_def dest: take_fault_same split: prod.splits option.splits)

lemma file_sync_outcome:
  "file_sync d action = (d', res) \<Longrightarrow>
     (\<exists>e. res = Inl e) \<and> same_file d d' \<or>
     res = Inr () \<and> synced_bytes d' = contents d \<and> unsynced d' = []"
  by (auto simp: file_sync_def same_file_contents dest: take_fault_same split: prod.splits option.splits)

lemma file_write_all_outcome:
  "file_write_all d offset bytes action = (d', res) \<Longrightarrow>
     synced_bytes d' = synced_bytes d \<and>
     ((\<exists>e n. res = Inl e \<and> unsynced d' = unsynced d @ [Wrote offset (take n bytes)]) \<or>
      res = Inr () \<and> unsynced d' = unsynced d @ [Wrote offset bytes])"
  by (auto simp: file_write_all_def same_file_def dest!: take_fault_same split: prod.splits option.splits)

lemma contents_append: "unsynced d' = unsynced d @ [c] \<Longrightarrow> synced_bytes d' = synced_bytes d \<Longrightarrow>
    contents d' = apply_change c (contents d)"
  by (simp add: contents_def)

lemma contents_clean: "unsynced d = [] \<Longrightarrow> contents d = synced_bytes d"
  by (simp add: contents_def)

lemma apply_write_beyond:
  "n \<le> offset \<Longrightarrow> n \<le> length content \<Longrightarrow> take n (apply_change (Wrote offset bytes) content) = take n content"
  by (simp add: min_def)

section \<open>The header\<close>

lemma put_bytes_first: "put_bytes 0 v (replicate k 0) = v @ replicate (k - length v) 0"
  by (simp add: put_bytes_def)

lemma put_bytes_after:
  "length pre = n \<Longrightarrow> put_bytes n v (pre @ replicate k 0) = (pre @ v) @ replicate (k - length v) 0"
  by (simp add: put_bytes_def)

lemma encode_file_wal_header_concat:
  "encode_file_wal_header h =
     le_bytes 8 (file_magic h) @ le_bytes 2 (file_format_version h) @ le_bytes 2 (file_byte_order h) @
     le_bytes 4 (file_header_length h) @ le_bytes 8 (file_segment_id h) @ le_bytes 8 (file_first_lsn h) @
     le_bytes 8 (option_or_zero (file_base_previous_lsn h)) @ le_bytes 8 (file_durable_lsn h) @
     le_bytes 8 (file_durable_bytes h) @ le_bytes 8 (file_durable_record_count h) @
     le_bytes 8 (file_header_checksum h) @ le_bytes 8 (file_reserved h)"
  unfolding encode_file_wal_header_def Let_def FILE_WAL_HEADER_LEN_def put_bytes_first
  by ((subst put_bytes_after, simp)+) simp

lemma length_encode_file_wal_header [simp]: "length (encode_file_wal_header h) = 80"
  by (simp add: encode_file_wal_header_concat)

lemma decode_encode_file_wal_header:
  assumes "file_header_validate h = Inr ()"
  shows "decode_file_wal_header (encode_file_wal_header h) = Inr h"
proof -
  have base: "file_base_previous_lsn h = None"
    using assms by (auto simp: file_header_validate_def split: if_splits)
  have eta: "\<lparr>file_magic = file_magic h, file_format_version = file_format_version h,
      file_byte_order = file_byte_order h, file_header_length = file_header_length h,
      file_segment_id = file_segment_id h, file_first_lsn = file_first_lsn h, file_base_previous_lsn = None,
      file_durable_lsn = file_durable_lsn h, file_durable_bytes = file_durable_bytes h,
      file_durable_record_count = file_durable_record_count h, file_header_checksum = file_header_checksum h,
      file_reserved = file_reserved h\<rparr> = h"
    using base by simp
  show ?thesis
    unfolding encode_file_wal_header_concat decode_file_wal_header_def
    by (simp add: file_read_u64_def file_read_u32_def file_read_u16_def read_bytes_def of_le_bytes_le_bytes
        base option_or_zero_def eta assms)
qed

lemma file_header_new_valid:
  "(durable = 0 \<longleftrightarrow> n = 0) \<Longrightarrow> (durable = 0 \<Longrightarrow> bytes = 0) \<Longrightarrow>
     file_header_validate (file_header_new durable bytes n) = Inr ()"
  by (auto simp: file_header_validate_def file_header_new_def file_wal_header_checksum_without_checksum_def Let_def)

lemma file_header_new_bytes [simp]: "file_durable_bytes (file_header_new durable bytes n) = bytes"
  by (simp add: file_header_new_def Let_def)

section \<open>The bytes of the records\<close>

definition record_bytes :: "wal_record \<Rightarrow> u8 list" where
  "record_bytes r = (case encode_wal_record r of Inr bs \<Rightarrow> bs | Inl _ \<Rightarrow> [])"

abbreviation log_bytes :: "wal_record list \<Rightarrow> u8 list" where
  "log_bytes rs \<equiv> concat (map record_bytes rs)"

lemma encode_record_bytes: "bounded_record r \<Longrightarrow> encode_wal_record r = Inr (record_bytes r)"
  using encode_bounded [of r] by (auto simp: record_bytes_def)

lemma record_bytes_length:
  assumes "bounded_record r"
  shows "length (record_bytes r) = 72 + length (rec_payload r)" and "length (record_bytes r) < 2 ^ 64"
proof -
  have "encode_wal_record_frame (record_frame r) = Inr (record_bytes r)"
    using encode_record_bytes [OF assms] assms encode_wal_record_valid by (simp add: bounded_record_def)
  then show "length (record_bytes r) = 72 + length (rec_payload r)"
    by (auto elim!: encode_wal_record_frame_Inr)
  with assms show "length (record_bytes r) < 2 ^ 64" by (simp add: bounded_record_def)
qed

lemma encoded_len_record_bytes:
  assumes "bounded_record r"
  shows "encoded_wal_record_len r = Inr (of_nat (length (record_bytes r)))"
proof -
  have valid: "record_validate r = Inr ()" using assms by (simp add: bounded_record_def)
  have "encode_wal_record_frame (record_frame r) = Inr (record_bytes r)"
    using encode_record_bytes [OF assms] encode_wal_record_valid [OF valid] by simp
  then obtain h where h: "from_record_frame (record_frame r) = Inr h"
    and bs: "record_bytes r = header_fields h @ le_bytes 8 (header_checksum h) @ rec_payload r"
    by (rule encode_wal_record_frame_Inr) simp
  have "encoded_wal_record_frame_len (of_nat (length (rec_payload r))) = Inr (of_nat (length (record_bytes r)))"
    using h by (auto simp: from_record_frame_def and_then_eq_Inr_iff Let_def encoded_wal_record_frame_len_def
        checked_add_def WAL_RECORD_HEADER_LEN_def bs split: option.splits if_splits)
  then show ?thesis by (simp add: encoded_wal_record_len_def valid record_validate_length)
qed

lemma scan_log_bytes:
  assumes "record_chain None rs" and "list_all bounded_record rs"
  shows "scan_wal_records (log_bytes rs) =
    \<lparr>scan_records = rs, valid_bytes = length (log_bytes rs), last_valid_lsn = records_last_lsn rs, stopped = None\<rparr>"
proof -
  have frame: "storable_record r \<and> encode_wal_record_frame (record_frame r) = Inr (record_bytes r)"
    if "bounded_record r" for r
    using that encode_record_bytes bounded_record_storable encode_wal_record_valid by (auto simp: bounded_record_def)
  have all: "list_all2 (\<lambda>r bs. storable_record r \<and> encode_wal_record_frame (record_frame r) = Inr bs) rs (map record_bytes rs)"
    using assms(2) frame by (auto simp: list_all2_conv_all_nth list_all_length)
  have "frames_chained (Some 1) None (map record_frame rs)"
    using assms(1) by (intro record_chain_frames) (simp_all add: try_next_lsn_def)
  moreover have "0 < length (record_bytes sample_begin)"
    using encode_bounded [OF sample_bounded(1)] by (auto simp: record_bytes_def)
  ultimately show ?thesis
    using typed_records.scan_torn_log [OF all, of sample_begin "record_bytes sample_begin" 0 1 None]
      frame [OF sample_bounded(1)]
    by (simp add: scan_wal_records_def scan_wal_records_from_def torn_scan_def records_last_lsn_def)
qed

definition boundaries_of :: "wal_record list \<Rightarrow> file_wal_record_boundary list" where
  "boundaries_of rs =
     map (\<lambda>i. \<lparr>boundary_lsn = record_lsn (rs ! i), end_bytes = of_nat (length (log_bytes (take (Suc i) rs)))\<rparr>) [0..<length rs]"

lemma boundaries_of_append:
  "boundaries_of (rs @ [r]) =
     boundaries_of rs @ [\<lparr>boundary_lsn = record_lsn r, end_bytes = of_nat (length (log_bytes (rs @ [r])))\<rparr>]"
  by (auto simp: boundaries_of_def nth_append)

lemma record_boundaries_loop_append:
  "record_boundaries_loop offset (rs @ [r]) =
     and_then (record_boundaries_loop offset rs) (\<lambda>bs.
     and_then (encoded_wal_record_len r) (\<lambda>n.
       case checked_add (if bs = [] then offset else end_bytes (last bs)) n of
         None \<Rightarrow> Inl (storage_error ''file WAL record boundary would overflow u64'')
       | Some m \<Rightarrow> Inr (bs @ [\<lparr>boundary_lsn = record_lsn r, end_bytes = m\<rparr>])))"
proof (induction rs arbitrary: offset)
  case Nil
  show ?case by (cases "encoded_wal_record_len r") (simp_all split: option.split)
next
  case (Cons s rs)
  show ?case
  proof (cases "encoded_wal_record_len s")
    case (Inr n)
    show ?thesis
    proof (cases "checked_add offset n")
      case (Some m)
      then show ?thesis
        using Inr Cons [of m]
        by (cases "record_boundaries_loop m rs"; cases "encoded_wal_record_len r") (auto split: option.splits)
    qed (simp add: Inr)
  qed simp
qed

lemma record_boundaries_for_log:
  "list_all bounded_record rs \<Longrightarrow> length (log_bytes rs) < 2 ^ 64 \<Longrightarrow> record_boundaries_for rs = Inr (boundaries_of rs)"
proof (induction rs rule: rev_induct)
  case (snoc r rs)
  have len: "length (log_bytes rs) + length (record_bytes r) < 2 ^ 64" using snoc.prems by simp
  have bs: "record_boundaries_for rs = Inr (boundaries_of rs)" using snoc by simp
  have "(if boundaries_of rs = [] then 0 else end_bytes (last (boundaries_of rs))) = (of_nat (length (log_bytes rs)) :: u64)"
    by (cases rs rule: rev_cases) (simp_all add: boundaries_of_append boundaries_of_def)
  moreover have "checked_add (of_nat (length (log_bytes rs)) :: u64) (of_nat (length (record_bytes r))) =
      Some (of_nat (length (log_bytes (rs @ [r]))))"
    using len by (simp add: checked_add_def unat_of_nat)
  ultimately show ?case
    using bs snoc.prems
    by (simp add: record_boundaries_for_def record_boundaries_loop_append encoded_len_record_bytes boundaries_of_append)
qed (simp add: record_boundaries_for_def boundaries_of_def)

section \<open>What the file holds\<close>

text \<open>
  The file of a log with records \<open>rs\<close> of which the first \<open>n\<close> are durable: the synced bytes start with
  the header for those and their frames, no unsynced change touches them, and read back, the file
  holds the frames of all the records.
\<close>

definition header_for :: "wal_record list \<Rightarrow> nat \<Rightarrow> u8 list" where
  "header_for rs n =
     encode_file_wal_header (file_header_new (of_nat n) (of_nat (length (log_bytes (take n rs)))) (of_nat n))"

fun beyond :: "nat \<Rightarrow> file_change \<Rightarrow> bool" where
  "beyond m (Wrote offset bytes) \<longleftrightarrow> m \<le> offset"
| "beyond m (Resized n) \<longleftrightarrow> m \<le> n"

definition disk_holds :: "wal_record list \<Rightarrow> nat \<Rightarrow> disk \<Rightarrow> bool" where
  "disk_holds rs n d \<longleftrightarrow>
     take (80 + length (log_bytes (take n rs))) (synced_bytes d) = header_for rs n @ log_bytes (take n rs) \<and>
     list_all (beyond (80 + length (log_bytes (take n rs)))) (unsynced d) \<and>
     take (80 + length (log_bytes rs)) (contents d) = header_for rs n @ log_bytes rs"

lemma length_header_for [simp]: "length (header_for rs n) = 80"
  by (simp add: header_for_def)

lemma header_for_take: "header_for (take n rs) n = header_for rs n"
  by (simp add: header_for_def)

lemma header_for_append: "n \<le> length rs \<Longrightarrow> header_for (rs @ rs') n = header_for rs n"
  by (simp add: header_for_def)

lemma log_bytes_take_le: "length (log_bytes (take n rs)) \<le> length (log_bytes rs)"
proof -
  have "log_bytes rs = log_bytes (take n rs) @ log_bytes (drop n rs)"
    by (metis append_take_drop_id concat_append map_append)
  then show ?thesis by simp
qed

lemma take_log_bytes: "take (length (log_bytes (take n rs))) (log_bytes rs) = log_bytes (take n rs)"
proof -
  have "log_bytes rs = log_bytes (take n rs) @ log_bytes (drop n rs)"
    by (metis append_take_drop_id concat_append map_append)
  then show ?thesis by simp
qed

lemma disk_holds_same: "same_file d d' \<Longrightarrow> disk_holds rs n d \<Longrightarrow> disk_holds rs n d'"
  by (simp add: disk_holds_def same_file_contents) (simp add: same_file_def)

lemma take_eq_length: "take m xs = ys \<Longrightarrow> length ys = m \<Longrightarrow> m \<le> length xs"
  by (metis length_take min.cobounded1)

lemma disk_holds_length:
  "disk_holds rs n d \<Longrightarrow> 80 + length (log_bytes rs) \<le> length (contents d)"
  unfolding disk_holds_def by (rule take_eq_length) (auto simp del: length_concat)

lemma disk_holds_write:
  assumes "disk_holds rs n d" and "offset = 80 + length (log_bytes rs)"
    and "synced_bytes d' = synced_bytes d" and "unsynced d' = unsynced d @ [Wrote offset bs]"
  shows "disk_holds rs n d'"
  using assms disk_holds_length [OF assms(1)] log_bytes_take_le [of n rs]
  by (simp add: disk_holds_def contents_append del: apply_change.simps) (simp add: apply_write_beyond del: apply_change.simps)

lemma disk_holds_append:
  assumes "disk_holds rs n d" and "n \<le> length rs" and "offset = 80 + length (log_bytes rs)"
    and "synced_bytes d' = synced_bytes d" and "unsynced d' = unsynced d @ [Wrote offset (record_bytes r)]"
  shows "disk_holds (rs @ [r]) n d'"
proof -
  have "disk_holds rs n d'" using disk_holds_write [OF assms(1,3,4,5)] .
  moreover have "take offset (contents d) = header_for rs n @ log_bytes rs" "offset \<le> length (contents d)"
    using assms disk_holds_length [OF assms(1)] by (auto simp: disk_holds_def)
  then have "take (80 + length (log_bytes (rs @ [r]))) (contents d') = header_for rs n @ log_bytes (rs @ [r])"
    using assms(3-5) by (simp add: contents_append)
  ultimately show ?thesis using assms(2) by (simp add: disk_holds_def header_for_append)
qed

lemma disk_holds_sync:
  assumes "disk_holds rs n d" and "synced_bytes d' = contents d" and "unsynced d' = []"
  shows "disk_holds rs n d'"
proof -
  have "take (80 + length (log_bytes (take n rs))) (contents d) =
      take (80 + length (log_bytes (take n rs))) (take (80 + length (log_bytes rs)) (contents d))"
    using log_bytes_take_le [of n rs] by (simp add: min_def)
  also have "\<dots> = header_for rs n @ log_bytes (take n rs)"
    using assms(1) by (simp add: disk_holds_def take_log_bytes)
  finally show ?thesis
    using assms by (simp add: disk_holds_def contents_clean)
qed

lemma disk_holds_new_header:
  assumes "disk_holds rs n d" and "unsynced d = []"
    and "synced_bytes d' = synced_bytes d" and "unsynced d' = [Wrote 0 (header_for rs m)]"
    and "synced_bytes d'' = contents d'" and "unsynced d'' = []"
  shows "disk_holds rs m d''"
proof -
  have old: "take (80 + length (log_bytes rs)) (synced_bytes d) = header_for rs n @ log_bytes rs"
    using assms(1,2) by (simp add: disk_holds_def contents_clean)
  have bytes: "synced_bytes d'' = header_for rs m @ drop 80 (synced_bytes d)"
    using assms by (simp add: contents_def)
  have all: "take (length (log_bytes rs)) (drop 80 (synced_bytes d)) = log_bytes rs"
    using arg_cong [OF old, of "drop 80"] by (simp add: take_drop add.commute)
  have "take (length (log_bytes (take m rs))) (drop 80 (synced_bytes d)) =
      take (length (log_bytes (take m rs))) (take (length (log_bytes rs)) (drop 80 (synced_bytes d)))"
    using log_bytes_take_le [of m rs] by (simp add: min_def)
  also have "\<dots> = log_bytes (take m rs)" unfolding all by (rule take_log_bytes)
  finally show ?thesis using all
    using assms(6) by (simp add: disk_holds_def contents_clean bytes)
qed

lemma disk_holds_crash:
  assumes "disk_holds rs n d" and "crash_image d img"
  shows "take (80 + length (log_bytes (take n rs))) img = header_for rs n @ log_bytes (take n rs)"
proof -
  let ?m = "80 + length (log_bytes (take n rs))"
  have prefix: "take ?m (synced_bytes d) = header_for rs n @ log_bytes (take n rs)"
    using assms(1) by (simp add: disk_holds_def)
  then have len: "?m \<le> length (synced_bytes d)"
    by (rule take_eq_length) simp
  have "\<not> touches c i" if "c \<in> set (unsynced d)" "i < ?m" for c i
    using assms(1) that by (cases c) (auto simp: disk_holds_def list_all_iff)
  then have keep: "i < length img \<and> img ! i = synced_bytes d ! i" if "i < ?m" for i
    using assms(2) len that by (auto simp: crash_image_def list_all_iff)
  have "?m \<le> length img" using keep [of "?m - 1"] by simp
  then have "take ?m img = take ?m (synced_bytes d)"
    using keep len by (intro nth_equalityI) auto
  with prefix show ?thesis by simp
qed

section \<open>Opening\<close>

lemma disk_of_simps [simp]:
  "synced_bytes (disk_of img) = img" "unsynced (disk_of img) = []" "io_faults (disk_of img) = []"
  "contents (disk_of img) = img"
  by (simp_all add: disk_of_def contents_def)

definition file_wal_holds :: "nat \<Rightarrow> file_wal \<Rightarrow> bool" where
  "file_wal_holds n w \<longleftrightarrow>
     record_chain None (fw_records w) \<and> list_all bounded_record (fw_records w) \<and>
     record_boundaries w = boundaries_of (fw_records w) \<and>
     unat (fw_append_bytes w) = length (log_bytes (fw_records w)) \<and>
     n \<le> length (fw_records w) \<and> fw_durable_lsn w = of_nat n \<and> shared_durable_lsn w = of_nat n \<and>
     unat (fw_durable_bytes w) = length (log_bytes (take n (fw_records w))) \<and>
     disk_holds (fw_records w) n (wal_file w)"

lemma chain_length_bound:
  assumes "record_chain None rs"
  shows "length rs < 2 ^ 64"
proof (cases "rs = []")
  case False
  have "unat (record_lsn (last rs)) < 2 ^ 64" using unsigned_less [of "record_lsn (last rs)"] by simp
  with record_chain_last [OF assms False] show ?thesis by simp
qed simp

lemma records_last_lsn_count:
  assumes "record_chain None rs"
  shows "option_or_zero (records_last_lsn rs) = of_nat (length rs)"
proof (cases "rs = []")
  case False
  then have "of_nat (unat (record_lsn (last rs))) = (of_nat (length rs) :: u64)"
    using record_chain_last [OF assms] by simp
  with False show ?thesis by (simp add: records_last_lsn_def option_or_zero_def)
qed (simp add: records_last_lsn_def option_or_zero_def)

lemma of_nat_eq_0_u64: "n < 2 ^ 64 \<Longrightarrow> (of_nat n :: u64) = 0 \<longleftrightarrow> n = 0"
  by (simp add: unat_eq_zero [symmetric] unat_of_nat del: unat_eq_zero)

lemma header_for_valid:
  "length rs < 2 ^ 64 \<Longrightarrow> n \<le> length rs \<Longrightarrow>
     file_header_validate (file_header_new (of_nat n) (of_nat (length (log_bytes (take n rs)))) (of_nat n)) = Inr ()"
  by (rule file_header_new_valid) (auto simp: of_nat_eq_0_u64)

lemma file_wal_open_empty: "file_wal_open (disk_of []) = file_wal_open (disk_of (header_for [] 0))"
proof -
  have valid: "file_header_validate (file_header_new 0 0 0) = Inr ()" by (rule file_header_new_valid) auto
  show ?thesis
    by (simp add: file_wal_open_def file_seek_def file_len_def disk_of_def contents_def write_file_wal_header_def
        valid file_write_all_def file_sync_def header_for_def)
qed

lemma scan_open_holds:
  assumes "take (80 + length (log_bytes rs)) img = header_for rs (length rs) @ log_bytes rs"
    and "record_chain None rs" and "list_all bounded_record rs" and "length (log_bytes rs) + 80 < 2 ^ 64"
  shows "scan_open_file_wal (disk_of img) = (disk_of img,
    Inr \<lparr>disk_header = file_header_new (of_nat (length rs)) (of_nat (length (log_bytes rs))) (of_nat (length rs)),
         physical_wal_bytes = length img - 80, scanned_bytes = length (log_bytes rs),
         scan_durable_bytes = of_nat (length (log_bytes rs)), scan_durable_lsn = of_nat (length rs),
         disk_scan = \<lparr>scan_records = rs, valid_bytes = length (log_bytes rs),
           last_valid_lsn = records_last_lsn rs, stopped = None\<rparr>\<rparr>)"
proof -
  let ?h = "file_header_new (of_nat (length rs)) (of_nat (length (log_bytes rs))) (of_nat (length rs))"
  have len: "80 + length (log_bytes rs) \<le> length img" using assms(1) by (rule take_eq_length) simp
  have valid: "file_header_validate ?h = Inr ()"
    using header_for_valid [OF chain_length_bound [OF assms(2)], of "length rs"] by simp
  have "take 80 img = take 80 (take (80 + length (log_bytes rs)) img)" by (simp add: min_def)
  then have header: "take 80 img = encode_file_wal_header ?h" unfolding assms(1) by (simp add: header_for_def)
  have data: "take (length (log_bytes rs)) (drop 80 img) = log_bytes rs"
    using arg_cong [OF assms(1), of "drop 80"] by (simp add: take_drop add.commute)
  have bytes: "unat (of_nat (length (log_bytes rs)) :: u64) = length (log_bytes rs)"
    using assms(4) by (simp add: unat_of_nat)
  have "min (length (log_bytes rs)) (length img - 80) = length (log_bytes rs)" using len by simp
  then show ?thesis
    using len
    by (simp add: scan_open_file_wal_def read_file_wal_header_def file_seek_def file_len_def file_read_exact_def
        disk_of_def contents_def get_range_def FILE_WAL_HEADER_LEN_def header decode_encode_file_wal_header valid
        bytes data scan_log_bytes assms(2,3) records_last_lsn_count Let_def del: length_concat)
qed

definition reopened :: "wal_record list \<Rightarrow> file_wal" where
  "reopened rs =
     \<lparr>wal_file = disk_of (header_for rs (length rs) @ log_bytes rs), fw_records = rs,
      record_boundaries = boundaries_of rs, fw_append_bytes = of_nat (length (log_bytes rs)),
      fw_durable_bytes = of_nat (length (log_bytes rs)), fw_durable_lsn = of_nat (length rs), fw_scan_stop = None,
      shared_durable_lsn = of_nat (length rs), flush_separation = p0_durable\<rparr>"

lemma file_wal_open_eq:
  assumes "take (80 + length (log_bytes rs)) img = header_for rs (length rs) @ log_bytes rs"
    and "record_chain None rs" and "list_all bounded_record rs" and "length (log_bytes rs) + 80 < 2 ^ 64"
  shows "file_wal_open (disk_of img) = (disk_of (header_for rs (length rs) @ log_bytes rs), Inr (reopened rs))"
proof -
  let ?n = "length (log_bytes rs)"
  let ?h = "file_header_new (of_nat (length rs)) (of_nat ?n) (of_nat (length rs))"
  have len: "80 + ?n \<le> length img" using assms(1) by (rule take_eq_length) simp
  have valid: "file_header_validate ?h = Inr ()"
    using header_for_valid [OF chain_length_bound [OF assms(2)], of "length rs"] by simp
  have bytes: "unat (of_nat ?n :: u64) = ?n" using assms(4) by (simp add: unat_of_nat)
  have offset: "file_offset_for_wal_bytes (of_nat ?n) = Inr (80 + of_nat ?n)"
    using assms(4) bytes by (simp add: file_offset_for_wal_bytes_def checked_add_def FILE_WAL_HEADER_LEN_def del: length_concat)
  have desired: "unat (80 + of_nat ?n :: u64) = 80 + ?n"
    using assms(4) bytes by (simp add: unat_word_ariths del: length_concat)
  have data: "take ?n (drop 80 img) = log_bytes rs"
    using arg_cong [OF assms(1), of "drop 80"] by (simp add: take_drop add.commute)
  have sum: "80 + ?n - 80 = ?n" by simp
  have header: "encode_file_wal_header ?h = header_for rs (length rs)" by (simp add: header_for_def)
  have boundaries: "record_boundaries_for rs = Inr (boundaries_of rs)"
    using assms(3,4) by (intro record_boundaries_for_log) auto
  have nonempty: "img \<noteq> []" using len by auto
  show ?thesis
  proof (cases "length img = 80 + ?n")
    case True
    then have "drop 80 img = log_bytes rs" using data by simp
    with True show ?thesis
      using nonempty
      by (simp add: file_wal_open_def file_seek_def file_len_def scan_open_holds [OF assms] is_forensic_scan_stop_def
          offset desired write_file_wal_header_def valid file_write_all_def header file_sync_def boundaries
          records_last_lsn_count assms(2) Let_def contents_def reopened_def del: length_concat)
  next
    case False
    have "drop 80 (take (80 + ?n) img) = log_bytes rs" by (simp only: drop_take sum data)
    with False show ?thesis
      using nonempty len
      by (simp add: file_wal_open_def file_seek_def file_len_def scan_open_holds [OF assms] is_forensic_scan_stop_def
          offset desired write_file_wal_header_def valid file_write_all_def file_set_len_def header file_sync_def
          boundaries records_last_lsn_count assms(2) Let_def contents_def reopened_def del: length_concat drop_take)
  qed
qed

lemma reopened_holds:
  assumes "record_chain None rs" and "list_all bounded_record rs" and "length (log_bytes rs) + 80 < 2 ^ 64"
  shows "file_wal_holds (length rs) (reopened rs)"
proof -
  have "unat (of_nat (length (log_bytes rs)) :: u64) = length (log_bytes rs)"
    using assms(3) by (simp add: unat_of_nat)
  with assms(1,2) show ?thesis by (simp add: file_wal_holds_def reopened_def disk_holds_def)
qed

section \<open>Appending and flushing\<close>

lemma position_boundary:
  assumes "record_chain None rs" and "position (\<lambda>b. boundary_lsn b = l) (boundaries_of rs) = Some i"
  shows "i < length rs" and "unat l = Suc i"
    and "end_bytes (boundaries_of rs ! i) = of_nat (length (log_bytes (take (Suc i) rs)))"
  using position_SomeD [OF assms(2)] record_chain_lsn [OF assms(1), of i] by (auto simp: boundaries_of_def)

definition append_io :: "disk \<Rightarrow> u64 \<Rightarrow> u8 list \<Rightarrow> disk \<times> unit andromeda_result" where
  "append_io d offset encoded =
     io_then (file_seek d ''seek file WAL append offset'') (\<lambda>d _.
       file_write_all d (unat offset) encoded ''append file WAL record'')"

definition appended :: "file_wal \<Rightarrow> wal_record \<Rightarrow> disk \<Rightarrow> u64 \<Rightarrow> file_wal" where
  "appended w r d k =
     w\<lparr>wal_file := d, fw_append_bytes := k,
       record_boundaries := record_boundaries w @ [\<lparr>boundary_lsn = record_lsn r, end_bytes = k\<rparr>],
       fw_records := fw_records w @ [r]\<rparr>"

lemma file_wal_append_outcome:
  assumes "file_wal_append w r = (w', res)"
  shows "w' = w \<and> (\<exists>e. res = Inl e) \<or>
    (\<exists>encoded offset d res' m m'.
      validate_append_record r (fw_last_lsn w) m m' = Inr () \<and> encode_wal_record r = Inr encoded \<and>
      file_offset_for_wal_bytes (fw_append_bytes w) = Inr offset \<and> append_io (wal_file w) offset encoded = (d, res') \<and>
      (w' = w\<lparr>wal_file := d\<rparr> \<and> (\<exists>e. res = Inl e) \<or>
       (\<exists>k. res' = Inr () \<and> checked_add (fw_append_bytes w) (of_nat (length encoded)) = Some k \<and>
         w' = appended w r d k \<and> res = Inr (record_lsn r))))"
proof -
  let ?v = "validate_append_record r (fw_last_lsn w) ''file WAL record must equal the next append LSN''
    ''file WAL record previous LSN must chain to the append tail''"
  show ?thesis
  proof (cases "?v = Inr () \<and> (\<exists>encoded. encode_wal_record r = Inr encoded) \<and>
      (\<exists>offset. file_offset_for_wal_bytes (fw_append_bytes w) = Inr offset)")
    case True
    then obtain encoded offset where ok: "?v = Inr ()" "encode_wal_record r = Inr encoded"
      "file_offset_for_wal_bytes (fw_append_bytes w) = Inr offset" by blast
    obtain d res' where io: "append_io (wal_file w) offset encoded = (d, res')" by fastforce
    have "file_wal_append w r = or_return (w\<lparr>wal_file := d\<rparr>) res' (\<lambda>_.
       or_return (w\<lparr>wal_file := d\<rparr>)
         (case checked_add (fw_append_bytes w) (of_nat (length encoded)) of
            Some n \<Rightarrow> Inr n
          | None \<Rightarrow> Inl (storage_error ''file WAL append byte count would overflow u64'')) (\<lambda>k.
         (appended w r d k, Inr (record_lsn r))))"
      using ok io by (simp add: file_wal_append_def append_io_def appended_def Let_def)
    then have "w' = w\<lparr>wal_file := d\<rparr> \<and> (\<exists>e. res = Inl e) \<or>
       (\<exists>k. res' = Inr () \<and> checked_add (fw_append_bytes w) (of_nat (length encoded)) = Some k \<and>
         w' = appended w r d k \<and> res = Inr (record_lsn r))"
      using assms by (cases res'; cases "checked_add (fw_append_bytes w) (of_nat (length encoded))") auto
    with ok io show ?thesis by blast
  next
    case False
    then have "w' = w \<and> (\<exists>e. res = Inl e)"
      using assms by (auto simp: file_wal_append_def or_return_def split: sum.splits) (metis)
    then show ?thesis by blast
  qed
qed

lemma append_io_holds:
  assumes "disk_holds rs n d" and "n \<le> length rs" and "unat offset = 80 + length (log_bytes rs)"
    and "append_io d offset (record_bytes r) = (d', res)"
  shows "disk_holds rs n d'" and "res = Inr () \<Longrightarrow> disk_holds (rs @ [r]) n d'"
proof -
  obtain d0 r0 where seek: "file_seek d ''seek file WAL append offset'' = (d0, r0)" by fastforce
  have d0: "disk_holds rs n d0" using file_seek_outcome [OF seek] assms(1) by (rule disk_holds_same)
  have "disk_holds rs n d' \<and> (res = Inr () \<longrightarrow> disk_holds (rs @ [r]) n d')"
  proof (cases r0)
    case (Inr u)
    then have "file_write_all d0 (unat offset) (record_bytes r) ''append file WAL record'' = (d', res)"
      using assms(4) seek by (simp add: append_io_def)
    from file_write_all_outcome [OF this] show ?thesis
      using disk_holds_write [OF d0 assms(3)] disk_holds_append [OF d0 assms(2,3)] by blast
  qed (use assms(4) seek d0 in \<open>auto simp: append_io_def\<close>)
  then show "disk_holds rs n d'" and "res = Inr () \<Longrightarrow> disk_holds (rs @ [r]) n d'" by auto
qed

lemma appended_holds:
  assumes "file_wal_holds n w" and "bounded_record r" and "record_chain None (fw_records w @ [r])"
    and "disk_holds (fw_records w @ [r]) n d" and "checked_add (fw_append_bytes w) (of_nat (length (record_bytes r))) = Some k"
  shows "file_wal_holds n (appended w r d k)"
proof -
  have k: "unat k = length (log_bytes (fw_records w @ [r]))"
    using checked_add_Some_unat [OF assms(5)] assms(1) record_bytes_length(2) [OF assms(2)]
    by (simp add: file_wal_holds_def unat_of_nat)
  moreover have "k = of_nat (unat k)" by simp
  ultimately have "k = of_nat (length (log_bytes (fw_records w @ [r])))" by (simp only:)
  with k assms show ?thesis
    by (simp add: file_wal_holds_def appended_def boundaries_of_append del: map_append concat_append length_concat)
qed

lemma file_wal_append_holds:
  assumes "file_wal_holds n w" and "length (rec_payload r) < 2 ^ 64" and "file_wal_append w r = (w', res)"
  shows "file_wal_holds n w' \<and> (fw_records w' = fw_records w \<or> fw_records w' = fw_records w @ [r])"
proof -
  let ?rs = "fw_records w"
  have holds: "disk_holds ?rs n (wal_file w)" "n \<le> length ?rs" and chain: "record_chain None ?rs"
    and append: "unat (fw_append_bytes w) = length (log_bytes ?rs)"
    using assms(1) by (auto simp: file_wal_holds_def)
  from file_wal_append_outcome [OF assms(3)] show ?thesis
  proof
    assume "\<exists>encoded offset d res' m m'.
      validate_append_record r (fw_last_lsn w) m m' = Inr () \<and> encode_wal_record r = Inr encoded \<and>
      file_offset_for_wal_bytes (fw_append_bytes w) = Inr offset \<and> append_io (wal_file w) offset encoded = (d, res') \<and>
      (w' = w\<lparr>wal_file := d\<rparr> \<and> (\<exists>e. res = Inl e) \<or>
       (\<exists>k. res' = Inr () \<and> checked_add (fw_append_bytes w) (of_nat (length encoded)) = Some k \<and>
         w' = appended w r d k \<and> res = Inr (record_lsn r)))"
    then obtain encoded offset d res' m m' where out:
      "validate_append_record r (fw_last_lsn w) m m' = Inr ()" "encode_wal_record r = Inr encoded"
      "file_offset_for_wal_bytes (fw_append_bytes w) = Inr offset" "append_io (wal_file w) offset encoded = (d, res')"
      "w' = w\<lparr>wal_file := d\<rparr> \<or> (\<exists>k. res' = Inr () \<and>
         checked_add (fw_append_bytes w) (of_nat (length encoded)) = Some k \<and> w' = appended w r d k)" by blast
    have r: "bounded_record r" and chain': "record_chain None (?rs @ [r])"
      using out(1) assms(2) chain append_keeps_chain
      by (auto simp: fw_last_lsn_def validate_append_record_Inr intro!: bounded_recordI)
    have encoded: "encoded = record_bytes r" using out(2) encode_record_bytes [OF r] by simp
    have offset: "unat offset = 80 + length (log_bytes ?rs)"
      using out(3) append checked_add_Some_unat
      by (fastforce simp: file_offset_for_wal_bytes_def FILE_WAL_HEADER_LEN_def split: option.splits)
    note disk = append_io_holds [OF holds offset out(4) [unfolded encoded]]
    from out(5) show ?thesis
      using disk assms(1) appended_holds [OF assms(1) r chain'] encoded
      by (auto simp: file_wal_holds_def appended_def)
  qed (use assms(1) in simp)
qed

definition header_io :: "disk \<Rightarrow> file_wal_header \<Rightarrow> disk \<times> unit andromeda_result" where
  "header_io d h = io_then (write_file_wal_header d h) (\<lambda>d _. file_sync d ''sync file WAL header'')"

definition flushed :: "file_wal \<Rightarrow> lsn \<Rightarrow> u64 \<Rightarrow> disk \<Rightarrow> file_wal" where
  "flushed w l bytes d =
     w\<lparr>fw_durable_lsn := l, fw_durable_bytes := bytes, shared_durable_lsn := l, wal_file := d\<rparr>"

lemma file_wal_flush_outcome:
  assumes "file_wal_flush_through w l = (w', res)"
  shows "w' = w \<and> ((\<exists>e. res = Inl e) \<or> res = Inr (fw_durable_lsn w) \<and> l \<le> fw_durable_lsn w) \<or>
    (\<exists>i d res'. position (\<lambda>b. boundary_lsn b = l) (record_boundaries w) = Some i \<and> fw_durable_lsn w < l \<and>
      file_sync (wal_file w) ''sync file WAL records'' = (d, res') \<and>
      (w' = w\<lparr>wal_file := d\<rparr> \<and> (\<exists>e. res' = Inl e) \<and> (\<exists>e. res = Inl e) \<or>
       (\<exists>d' res''. res' = Inr () \<and>
         header_io d (file_header_new l (end_bytes (record_boundaries w ! i)) (of_nat (i + 1))) = (d', res'') \<and>
         w' = flushed w l (end_bytes (record_boundaries w ! i)) d' \<and>
         (res'' = Inr () \<and> res = Inr l \<or> (\<exists>e. res'' = Inl e \<and> res = Inl e)))))"
proof (cases "separation_validate (flush_separation w) = Inr () \<and> fw_durable_lsn w < l \<and>
    validate_flush_target l (fw_durable_lsn w) (fw_last_lsn w) ''cannot flush file WAL before records are appended''
      ''cannot flush file WAL beyond the last appended LSN'' = Inr (Some l) \<and>
    (\<exists>i. position (\<lambda>b. boundary_lsn b = l) (record_boundaries w) = Some i)")
  case True
  then obtain i where i: "position (\<lambda>b. boundary_lsn b = l) (record_boundaries w) = Some i" by blast
  obtain d res' where sync: "file_sync (wal_file w) ''sync file WAL records'' = (d, res')" by fastforce
  obtain d' res'' where header:
    "header_io d (file_header_new l (end_bytes (record_boundaries w ! i)) (of_nat (i + 1))) = (d', res'')" by fastforce
  have "file_wal_flush_through w l = or_return (w\<lparr>wal_file := d\<rparr>) res' (\<lambda>_.
      or_return (flushed w l (end_bytes (record_boundaries w ! i)) d') res'' (\<lambda>_.
        (flushed w l (end_bytes (record_boundaries w ! i)) d', Inr l)))"
    using True i sync header by (simp add: file_wal_flush_through_def header_io_def flushed_def Let_def)
  then show ?thesis
    using True assms i sync header by (cases res'; cases res'') auto
next
  case False
  then have "w' = w \<and> ((\<exists>e. res = Inl e) \<or> res = Inr (fw_durable_lsn w) \<and> l \<le> fw_durable_lsn w)"
    using assms
    by (cases "separation_validate (flush_separation w)")
      (auto simp: file_wal_flush_through_def validate_flush_target_def not_less split: option.splits if_splits)
  then show ?thesis by blast
qed

lemma file_wal_flush_cases:
  assumes "file_wal_flush_through w l = (w', res)"
  obtains (unchanged) "w' = w" and "(\<exists>e. res = Inl e) \<or> res = Inr (fw_durable_lsn w) \<and> l \<le> fw_durable_lsn w"
  | (not_synced) d e where "file_sync (wal_file w) ''sync file WAL records'' = (d, Inl e)"
      "w' = w\<lparr>wal_file := d\<rparr>" "\<exists>e. res = Inl e"
  | (synced) i d d' res'' where "position (\<lambda>b. boundary_lsn b = l) (record_boundaries w) = Some i"
      "fw_durable_lsn w < l" "file_sync (wal_file w) ''sync file WAL records'' = (d, Inr ())"
      "header_io d (file_header_new l (end_bytes (record_boundaries w ! i)) (of_nat (i + 1))) = (d', res'')"
      "w' = flushed w l (end_bytes (record_boundaries w ! i)) d'"
      "res'' = Inr () \<and> res = Inr l \<or> (\<exists>e. res'' = Inl e \<and> res = Inl e)"
  using file_wal_flush_outcome [OF assms] by (elim disjE exE conjE) (simp_all add: that)

lemma header_io_holds:
  assumes "disk_holds rs n d" and "unsynced d = []" and "length rs < 2 ^ 64" and "m \<le> length rs"
    and "header_io d (file_header_new (of_nat m) (of_nat (length (log_bytes (take m rs)))) (of_nat m)) = (d', Inr ())"
  shows "disk_holds rs m d'"
proof -
  have valid: "file_header_validate (file_header_new (of_nat m) (of_nat (length (log_bytes (take m rs)))) (of_nat m)) = Inr ()"
    using assms(3,4) by (rule header_for_valid)
  obtain d0 r0 where seek: "file_seek d ''seek file WAL header'' = (d0, r0)" by fastforce
  then have same: "same_file d d0" by (rule file_seek_outcome)
  obtain d1 r1 where write_io: "file_write_all d0 0 (header_for rs m) ''write file WAL header'' = (d1, r1)" by fastforce
  have r0: "r0 = Inr ()"
    using assms(5) seek valid by (cases r0) (auto simp: header_io_def write_file_wal_header_def)
  then have r1: "r1 = Inr ()" and sync: "file_sync d1 ''sync file WAL header'' = (d', Inr ())"
    using assms(5) seek valid write_io
    by (cases r1; auto simp: header_io_def write_file_wal_header_def header_for_def)+
  have "synced_bytes d1 = synced_bytes d" "unsynced d1 = [Wrote 0 (header_for rs m)]"
    using file_write_all_outcome [OF write_io] r1 same assms(2) by (auto simp: same_file_def)
  moreover have "synced_bytes d' = contents d1" "unsynced d' = []" using file_sync_outcome [OF sync] by auto
  ultimately show ?thesis using disk_holds_new_header [OF assms(1,2)] by blast
qed

lemma durable_bytes_fit:
  assumes "file_wal_holds n w"
  shows "unat (of_nat (length (log_bytes (take m (fw_records w)))) :: u64) = length (log_bytes (take m (fw_records w)))"
proof -
  have "unat (fw_append_bytes w) < 2 ^ 64" using unsigned_less [of "fw_append_bytes w"] by simp
  then have "length (log_bytes (take m (fw_records w))) < 2 ^ 64"
    using assms log_bytes_take_le [of m "fw_records w"] by (simp add: file_wal_holds_def del: length_concat)
  then show ?thesis by (simp add: unat_of_nat del: length_concat)
qed

lemma file_wal_flush_holds:
  assumes "file_wal_holds n w" and "file_wal_flush_through w l = (w', res)"
    and "(\<exists>d. res = Inr d) \<or> fw_durable_lsn w' = fw_durable_lsn w"
  shows "\<exists>m. n \<le> m \<and> file_wal_holds m w' \<and> fw_records w' = fw_records w \<and> (\<forall>d. res = Inr d \<longrightarrow> d = of_nat m \<and> l \<le> d)"
proof -
  let ?rs = "fw_records w"
  have inv: "disk_holds ?rs n (wal_file w)" "record_chain None ?rs" "fw_durable_lsn w = of_nat n"
      "record_boundaries w = boundaries_of ?rs" "n \<le> length ?rs"
    using assms(1) by (auto simp: file_wal_holds_def)
  have bound: "length ?rs < 2 ^ 64" by (rule chain_length_bound) (rule inv(2))
  from assms(2) show ?thesis
  proof (cases rule: file_wal_flush_cases)
    case unchanged
    then show ?thesis using assms(1) inv(3) by auto
  next
    case (not_synced d e)
    then have "same_file (wal_file w) d" using file_sync_outcome by blast
    then show ?thesis
      using assms(1) not_synced disk_holds_same [OF _ inv(1)] by (auto simp: file_wal_holds_def)
  next
    case (synced i d d' res'')
    have pos: "i < length ?rs" "unat l = Suc i"
      and bytes: "end_bytes (boundaries_of ?rs ! i) = of_nat (length (log_bytes (take (Suc i) ?rs)))"
      using position_boundary [OF inv(2) synced(1) [unfolded inv(4)]] by auto
    have "l = of_nat (unat l)" by simp
    then have l: "l = of_nat (Suc i)" by (simp only: pos(2))
    have res: "res'' = Inr ()" "res = Inr l"
      using assms(3) synced by (auto simp: flushed_def)
    have clean: "synced_bytes d = contents (wal_file w)" "unsynced d = []"
      using file_sync_outcome [OF synced(3)] by auto
    have disk: "disk_holds ?rs (Suc i) d'"
      using header_io_holds [OF disk_holds_sync [OF inv(1) clean] clean(2) bound, of "Suc i" d'] pos(1) synced(4)
        res(1) bytes inv(4) l by simp
    have "n < 2 ^ 64" using inv(5) bound by simp
    then have "n \<le> Suc i"
      using synced(2) pos(2) inv(3) by (simp add: word_less_nat_alt unat_of_nat)
    moreover have "file_wal_holds (Suc i) w'"
      using assms(1) disk pos(1) l bytes inv(4) synced(5) durable_bytes_fit [OF assms(1), of "Suc i"]
      by (simp add: file_wal_holds_def flushed_def del: length_concat of_nat_Suc)
    ultimately show ?thesis using res l synced(5) by (auto simp: flushed_def)
  qed
qed

section \<open>Runs with crashes\<close>

definition file_wal_new :: file_wal where
  "file_wal_new = projr (snd (file_wal_open (disk_of [])))"

lemma file_wal_new_eq: "file_wal_new = reopened []"
  using file_wal_open_eq [of "[]" "header_for [] 0"] by (simp add: file_wal_new_def file_wal_open_empty)

inductive file_wal_step :: "file_wal \<Rightarrow> file_wal \<Rightarrow> bool" where
  append: "length (rec_payload r) < 2 ^ 64 \<Longrightarrow> file_wal_append w r = (w', res) \<Longrightarrow> file_wal_step w w'"
| append_payload: "length payload < 2 ^ 64 \<Longrightarrow> file_wal_append_payload w kind tx payload = (w', res) \<Longrightarrow>
    file_wal_step w w'"
| flush_through: "file_wal_flush_through w l = (w', res) \<Longrightarrow>
    (\<exists>d. res = Inr d) \<or> fw_durable_lsn w' = fw_durable_lsn w \<Longrightarrow> file_wal_step w w'"
| flush_all: "file_wal_flush_all w = (w', res) \<Longrightarrow>
    (\<exists>d. res = Inr d) \<or> fw_durable_lsn w' = fw_durable_lsn w \<Longrightarrow> file_wal_step w w'"
| separation: "file_wal_step w (with_flush_separation w s)"
| fault: "file_wal_step w (w\<lparr>wal_file := (wal_file w)\<lparr>io_faults := fs\<rparr>\<rparr>)"
| crash: "crash_image (wal_file w) img \<Longrightarrow> unat (fw_durable_bytes w) + 80 < 2 ^ 64 \<Longrightarrow>
    file_wal_open (disk_of img) = (d, Inr w') \<Longrightarrow> file_wal_step w w'"

lemma file_wal_crash_holds:
  assumes "file_wal_holds n w" and "crash_image (wal_file w) img" and "unat (fw_durable_bytes w) + 80 < 2 ^ 64"
  shows "\<exists>d w'. file_wal_open (disk_of img) = (d, Inr w') \<and> file_wal_holds n w' \<and>
    fw_records w' = take n (fw_records w)"
proof -
  let ?rs = "take n (fw_records w)"
  have n: "length ?rs = n" using assms(1) by (simp add: file_wal_holds_def)
  have chain: "record_chain None ?rs" "list_all bounded_record ?rs" "length (log_bytes ?rs) + 80 < 2 ^ 64"
    using assms(1,3) by (auto simp: file_wal_holds_def list_all_iff dest: in_set_takeD intro: record_chain_take)
  have "take (80 + length (log_bytes ?rs)) img = header_for ?rs (length ?rs) @ log_bytes ?rs"
    using disk_holds_crash [OF _ assms(2)] assms(1) unfolding n header_for_take by (auto simp: file_wal_holds_def)
  from file_wal_open_eq [OF this chain] reopened_holds [OF chain] n show ?thesis by (simp add: reopened_def)
qed

lemma file_wal_append_grows:
  assumes "file_wal_holds n w" and "length (rec_payload r) < 2 ^ 64" and "file_wal_append w r = (w', res)"
  shows "file_wal_holds n w'" and "take n (fw_records w') = take n (fw_records w)"
  using file_wal_append_holds [OF assms] assms(1) by (auto simp: file_wal_holds_def)

lemma file_wal_step_holds:
  assumes "file_wal_step w w'" and "file_wal_holds n w"
  shows "\<exists>m. n \<le> m \<and> file_wal_holds m w' \<and> take n (fw_records w') = take n (fw_records w)"
  using assms
proof (cases rule: file_wal_step.cases)
  case (append r res)
  then show ?thesis using file_wal_append_grows [OF assms(2)] by blast
next
  case (append_payload payload kind tx res)
  show ?thesis
  proof (cases "payload_record kind (fw_last_lsn w) tx payload")
    case (Inr r)
    then have "rec_payload r = payload"
      using from_parts_payload by (auto simp: payload_record_def and_then_eq_Inr_iff)
    then show ?thesis
      using file_wal_append_grows [OF assms(2), of r] append_payload Inr by (auto simp: file_wal_append_payload_def)
  qed (use append_payload assms(2) in \<open>auto simp: file_wal_append_payload_def\<close>)
next
  case (flush_through l res)
  then show ?thesis using file_wal_flush_holds [OF assms(2)] by metis
next
  case (flush_all res)
  then show ?thesis
    using file_wal_flush_holds [OF assms(2)] assms(2)
    by (cases "fw_last_lsn w") (auto simp: file_wal_flush_all_def, metis+)
next
  case (separation s)
  then show ?thesis using assms(2) by (auto simp: with_flush_separation_def file_wal_holds_def)
next
  case (fault fs)
  have "same_file (wal_file w) ((wal_file w)\<lparr>io_faults := fs\<rparr>)" by (simp add: same_file_def)
  then show ?thesis using assms(2) fault disk_holds_same by (auto simp: file_wal_holds_def)
next
  case (crash img d)
  then show ?thesis using file_wal_crash_holds [OF assms(2) crash(1,2)] by fastforce
qed

lemma file_wal_run_holds:
  assumes "file_wal_step\<^sup>*\<^sup>* w w'" and "file_wal_holds n w"
  shows "\<exists>m. n \<le> m \<and> file_wal_holds m w' \<and> take n (fw_records w') = take n (fw_records w)"
  using assms(1)
proof (induction rule: rtranclp_induct)
  case base
  then show ?case using assms(2) by auto
next
  case (step v v')
  then obtain m where m: "n \<le> m" "file_wal_holds m v" "take n (fw_records v) = take n (fw_records w)" by blast
  obtain k where k: "m \<le> k" "file_wal_holds k v'" "take m (fw_records v') = take m (fw_records v)"
    using file_wal_step_holds [OF step(2) m(2)] by blast
  have "take n (take m (fw_records v')) = take n (take m (fw_records v))" using k(3) by simp
  then have "take n (fw_records v') = take n (fw_records v)" using m(1) by (simp add: min_def)
  with m k show ?case by (metis order_trans)
qed

interpretation file_log: invariant_system file_wal_new file_wal_step "\<lambda>w. \<exists>n. file_wal_holds n w"
proof
  show "\<exists>n. file_wal_holds n file_wal_new"
    using reopened_holds [of "[]"] by (auto simp: file_wal_new_eq)
qed (use file_wal_step_holds in blast)

lemma holds_durable_records: "file_wal_holds n w \<Longrightarrow> file_wal_durable_records w = take n (fw_records w)"
proof -
  assume holds: "file_wal_holds n w"
  then have "n < 2 ^ 64" using chain_length_bound by (fastforce simp: file_wal_holds_def)
  with holds show ?thesis
    by (simp add: file_wal_durable_records_def chain_durable_records_take file_wal_holds_def unat_of_nat)
qed

section \<open>A sample run\<close>

definition sample_log :: file_wal where
  "sample_log = appended file_wal_new sample_begin
     \<lparr>synced_bytes = header_for [] 0, unsynced = [Wrote 80 (record_bytes sample_begin)], io_faults = []\<rparr>
     (of_nat (length (record_bytes sample_begin)))"

lemma sample_record_bytes: "length (record_bytes sample_begin) = 72"
  using record_bytes_length(1) [OF sample_bounded(1)] by (simp add: sample_begin_def sample_record_def)

lemma sample_append: "file_wal_append file_wal_new sample_begin = (sample_log, Inr 1)"
proof -
  have valid: "validate_append_record sample_begin None m m' = Inr ()" for m m'
    using sample_bounded(1)
    by (simp add: validate_append_record_Inr validate_wal_record_bounds_def validate_record_size_def
        bounded_record_def try_next_lsn_def Let_def)
      (simp add: sample_begin_def sample_record_def WAL_RECORD_SIZE_LIMIT_def)
  have lsn: "record_lsn sample_begin = 1" by (simp add: sample_begin_def sample_record_def)
  show ?thesis
    by (simp add: file_wal_append_def fw_last_lsn_def file_wal_new_eq reopened_def records_last_lsn_def valid
        encode_record_bytes sample_bounded file_offset_for_wal_bytes_def checked_add_def FILE_WAL_HEADER_LEN_def
        file_seek_def file_write_all_def sample_record_bytes sample_log_def appended_def lsn boundaries_of_def)
qed

definition failing_log :: file_wal where
  "failing_log = sample_log\<lparr>wal_file := (wal_file sample_log)\<lparr>io_faults := [None, None, Some (0, ''I/O error'')]\<rparr>\<rparr>"

lemma sample_log_fields:
  "fw_records sample_log = [sample_begin]" "flush_separation sample_log = p0_durable" "fw_durable_lsn sample_log = 0"
  "fw_last_lsn sample_log = Some 1" "record_boundaries sample_log = [\<lparr>boundary_lsn = 1, end_bytes = 72\<rparr>]"
  "wal_file sample_log =
     \<lparr>synced_bytes = header_for [] 0, unsynced = [Wrote 80 (record_bytes sample_begin)], io_faults = []\<rparr>"
  by (simp_all add: sample_log_def appended_def file_wal_new_eq reopened_def fw_last_lsn_def records_last_lsn_def
      boundaries_of_def sample_record_bytes) (simp_all add: sample_begin_def sample_record_def)

lemma sample_contents: "contents (wal_file sample_log) = header_for [] 0 @ record_bytes sample_begin"
  by (simp add: sample_log_fields contents_def)

lemma sample_run: "file_wal_step\<^sup>*\<^sup>* file_wal_new sample_log" "file_wal_step\<^sup>*\<^sup>* file_wal_new failing_log"
proof -
  have "file_wal_step file_wal_new sample_log"
    by (rule append [OF _ sample_append]) (simp add: sample_begin_def sample_record_def)
  then show run: "file_wal_step\<^sup>*\<^sup>* file_wal_new sample_log" by simp
  show "file_wal_step\<^sup>*\<^sup>* file_wal_new failing_log"
    unfolding failing_log_def by (rule rtranclp.rtrancl_into_rtrancl [OF run]) (rule fault)
qed

lemma flush_ready:
  "separation_validate p0_durable = Inr ()"
  "validate_flush_target 1 0 (Some 1) m m' = Inr (Some 1)"
  by (simp_all add: separation_validate_def preserves_p0_separation_def p0_durable_def validate_flush_target_def)

lemma sample_header_valid: "file_header_validate (file_header_new 1 72 1) = Inr ()"
  by (rule file_header_new_valid) simp_all

lemma sample_flush: "\<exists>w. file_wal_flush_through sample_log 1 = (w, Inr 1)"
  by (simp add: file_wal_flush_through_def sample_log_fields flush_ready file_sync_def write_file_wal_header_def
      sample_header_valid file_seek_def file_write_all_def Let_def)

lemma sample_last: "records_last_lsn [sample_begin] = Some 1"
  by (simp add: records_last_lsn_def sample_begin_def sample_record_def)

lemma failing_flush:
  "\<exists>w e. file_wal_flush_through failing_log 1 = (w, Inl e) \<and> fw_durable_lsn w = 1 \<and> shared_durable_lsn w = 1 \<and>
     flush_separation w = p0_durable \<and> synced_bytes (wal_file w) = header_for [] 0 @ record_bytes sample_begin"
  by (simp add: file_wal_flush_through_def failing_log_def fw_last_lsn_def sample_log_fields sample_last flush_ready
      file_sync_def write_file_wal_header_def sample_header_valid file_seek_def file_write_all_def take_fault_def
      contents_def Let_def)


section \<open>Properties\<close>

text \<open>
  C3. What a successful flush acknowledged is never lost: after the flush through \<open>l\<close> returned, and
  after any further appends, flushes, failing file operations, crashes and reopenings, the durable
  records still start with the same records up to \<open>l\<close>. (Excluded from the steps is one event, a
  flush that fails after it has advanced the durable LSN.)
\<close>

theorem flushed_records_survive:
  assumes "file_wal_step\<^sup>*\<^sup>* file_wal_new w" and "file_wal_flush_through w l = (w1, Inr d)"
    and "file_wal_step\<^sup>*\<^sup>* w1 w2"
  shows "take (unat l) (file_wal_durable_records w2) = take (unat l) (fw_records w) \<and> l \<le> d"
proof -
  obtain n where "file_wal_holds n w" using file_log.reachable_inv [OF assms(1)] by blast
  then obtain m where m: "file_wal_holds m w1" "fw_records w1 = fw_records w" "d = of_nat m" "l \<le> d"
    using file_wal_flush_holds [OF _ assms(2)] by blast
  obtain k where k: "m \<le> k" "file_wal_holds k w2" "take m (fw_records w2) = take m (fw_records w1)"
    using file_wal_run_holds [OF assms(3) m(1)] by blast
  have "m < 2 ^ 64" using m(1) chain_length_bound by (fastforce simp: file_wal_holds_def)
  then have l: "unat l \<le> m" using m(3,4) by (simp add: word_le_nat_alt unat_of_nat)
  have "take (unat l) (take m (fw_records w2)) = take (unat l) (take m (fw_records w1))" using k(3) by simp
  then show ?thesis
    using l k(1) m(2,4) holds_durable_records [OF k(2)] by (simp add: min_def)
qed

theorem flushed_records_survive_witness:
  "\<exists>w1 w2. file_wal_flush_through sample_log 1 = (w1, Inr 1) \<and> file_wal_step w1 w2 \<and>
     take 1 (file_wal_durable_records w2) = [sample_begin]"
proof -
  obtain w1 where w1: "file_wal_flush_through sample_log 1 = (w1, Inr 1)" using sample_flush by blast
  have "file_wal_step w1 (with_flush_separation w1 p0_durable)" by (rule separation)
  moreover from this have "file_wal_step\<^sup>*\<^sup>* w1 (with_flush_separation w1 p0_durable)" by simp
  from flushed_records_survive [OF sample_run(1) w1 this]
  have "take 1 (file_wal_durable_records (with_flush_separation w1 p0_durable)) = [sample_begin]"
    by (simp add: sample_log_fields)
  ultimately show ?thesis using w1 by blast
qed



text \<open>
  C36. The excluded event loses an acknowledged record. A log appends a record; the flush syncs the
  record, advances the durable LSN and the observers' signal to 1, and then fails to write the file
  header. The flush is retried: the durable LSN is already 1, so it returns success without writing
  anything. The file still has the old header, and after a crash that keeps every synced byte the
  reopened log is empty.
\<close>

theorem flush_retry_acknowledges_lost_record:
  "\<exists>w e img d w'. file_wal_step\<^sup>*\<^sup>* file_wal_new failing_log \<and> fw_records failing_log = [sample_begin] \<and>
     file_wal_flush_through failing_log 1 = (w, Inl e) \<and> current_durable_lsn w = 1 \<and>
     file_wal_flush_through w 1 = (w, Inr 1) \<and> crash_image (wal_file w) img \<and>
     file_wal_open (disk_of img) = (d, Inr w') \<and> fw_records w' = []"
proof -
  obtain w e where w: "file_wal_flush_through failing_log 1 = (w, Inl e)" "fw_durable_lsn w = 1"
    "shared_durable_lsn w = 1" "flush_separation w = p0_durable"
    "synced_bytes (wal_file w) = header_for [] 0 @ record_bytes sample_begin"
    using failing_flush by blast
  have retry: "file_wal_flush_through w 1 = (w, Inr 1)"
    using w by (simp add: file_wal_flush_through_def flush_ready validate_flush_target_def)
  have crash: "crash_image (wal_file w) (synced_bytes (wal_file w))" by (simp add: crash_image_def)
  have "file_wal_open (disk_of (synced_bytes (wal_file w))) = (disk_of (header_for [] 0), Inr (reopened []))"
    using file_wal_open_eq [of "[]" "synced_bytes (wal_file w)"] w(5) by simp
  moreover have "fw_records (reopened []) = []" by (simp add: reopened_def)
  moreover have "fw_records failing_log = [sample_begin]" by (simp add: failing_log_def sample_log_fields)
  ultimately show ?thesis
    using sample_run(2) w(1,3) retry crash by (auto simp: current_durable_lsn_def)
qed

end
