(* ===== verification/Wal_Segment_Props.thy ===== *)
theory Wal_Segment_Props
  imports File_Wal_Props
begin

text \<open>
  Batches and segments (\<open>record_bounds.rs\<close>, \<open>wal_segment.rs\<close>): the checks made before records are grouped
  count what the codec writes, and a segment descriptor names the LSNs of its records.
\<close>

section \<open>Batches\<close>

lemma of_nat_eq_u64_iff: "k < 2 ^ 64 \<Longrightarrow> (of_nat k :: u64) = n \<longleftrightarrow> unat n = k"
  by (auto simp: unat_of_nat)

lemma validate_record_size_iff:
  assumes "record_validate r = Inr ()" and "length (rec_payload r) < 2 ^ 64"
  shows "validate_record_size r = Inr () \<longleftrightarrow> bounded_record r"
  using assms
  by (auto simp: record_validate_def and_then_eq_Inr_iff validate_record_size_def bounded_record_def Let_def
      WAL_RECORD_SIZE_LIMIT_def word_less_nat_alt unat_of_nat split: if_splits)

lemma encoded_record_size_iff:
  assumes "record_validate r = Inr ()" and "length (rec_payload r) < 2 ^ 64"
  shows "encoded_record_size r = Inr n \<longleftrightarrow> bounded_record r \<and> unat n = length (record_bytes r)"
proof (cases "bounded_record r")
  case True
  have "rec_payload_length (rec_header r) = of_nat (length (rec_payload r))"
    using assms by (auto simp: record_validate_def and_then_eq_Inr_iff split: if_splits)
  moreover have "length (rec_payload r) \<le> 1048576" using True by (simp add: bounded_record_def)
  ultimately have "checked_add WAL_RECORD_HEADER_OVERHEAD (rec_payload_length (rec_header r)) =
      Some (of_nat (length (record_bytes r)))"
    using record_bytes_length [OF True]
    by (simp add: checked_add_def WAL_RECORD_HEADER_OVERHEAD_def unsigned_word_eqI unat_word_ariths unat_of_nat)
  then show ?thesis
    using True record_bytes_length(2) [OF True] validate_record_size_iff [OF assms]
    by (simp add: encoded_record_size_def of_nat_eq_u64_iff)
qed (use validate_record_size_iff [OF assms] in \<open>auto simp: encoded_record_size_def and_then_eq_Inr_iff\<close>)

lemma segment_total_iff:
  assumes "list_all (\<lambda>r. record_validate r = Inr () \<and> length (rec_payload r) < 2 ^ 64) rs"
  shows "segment_total running rs = Inr n \<longleftrightarrow>
    list_all bounded_record rs \<and> unat n = unat running + length (log_bytes rs)"
  using assms
proof (induction running rs rule: segment_total.induct)
  case (2 running r rs)
  show ?case
  proof (cases "bounded_record r")
    case True
    let ?m = "of_nat (length (record_bytes r)) :: u64"
    have m: "unat ?m = length (record_bytes r)" using record_bytes_length(2) [OF True] by (simp add: unat_of_nat)
    then have size: "encoded_record_size r = Inr ?m" using 2 True encoded_record_size_iff by simp
    show ?thesis
    proof (cases "checked_add running ?m")
      case None
      have "unat n < 2 ^ 64" using unsigned_less [of n] by simp
      then have "\<not> unat n = unat running + (length (record_bytes r) + k)" for k
        using m None by (auto simp: checked_add_def split: if_splits)
      with None size show ?thesis by simp
    next
      case (Some running')
      then show ?thesis
        using size 2 m checked_add_Some_unat [OF Some] True by (auto simp: ac_simps)
    qed
  next
    case False
    then show ?thesis using 2 encoded_record_size_iff by (auto simp: and_then_eq_Inr_iff)
  qed
qed (auto dest: unsigned_word_eqI)

lemma validate_segment_boundary_iff:
  assumes "list_all (\<lambda>r. record_validate r = Inr () \<and> length (rec_payload r) < 2 ^ 64) rs"
  shows "validate_segment_boundary rs = Inr n \<longleftrightarrow>
    list_all bounded_record rs \<and> length (log_bytes rs) \<le> 4 * 1024 * 1024 \<and> unat n = length (log_bytes rs)"
proof -
  have "n \<le> WAL_SEGMENT_BOUNDARY \<longleftrightarrow> unat n \<le> 4 * 1024 * 1024"
    by (simp add: WAL_SEGMENT_BOUNDARY_def word_le_nat_alt)
  moreover have "validate_segment_boundary rs = Inr n \<longleftrightarrow> segment_total 0 rs = Inr n \<and> n \<le> WAL_SEGMENT_BOUNDARY"
    by (cases "segment_total 0 rs") (auto simp: validate_segment_boundary_def)
  ultimately show ?thesis using segment_total_iff [OF assms, of 0 n] by auto
qed

lemma validate_lsn_continuity_iff:
  "validate_lsn_continuity base rs = Inr l \<longleftrightarrow> rs \<noteq> [] \<and> record_chain base rs \<and> l = record_lsn (last rs)"
  by (cases rs) (auto simp: validate_lsn_continuity_def lsn_continuity_loop_iff simp del: lsn_continuity_loop.simps)

text \<open>
  C27. Batch bounds are exact. For well-formed records the check of a batch succeeds if and only if the
  batch is not empty, its records continue the log after the given LSN without a gap, each payload has at
  most one MiB and the bytes that the codec writes for the batch fit into a segment of four MiB. The size
  it returns is the number of these bytes, without overflow, and the LSN that of the last record.
\<close>

theorem batch_bounds_exact:
  assumes "list_all (\<lambda>r. record_validate r = Inr () \<and> length (rec_payload r) < 2 ^ 64) rs"
  shows "validate_wal_batch_bounds base rs = Inr (n, l) \<longleftrightarrow>
    rs \<noteq> [] \<and> record_chain base rs \<and> list_all bounded_record rs \<and> length (log_bytes rs) \<le> 4 * 1024 * 1024 \<and>
    unat n = length (log_bytes rs) \<and> l = record_lsn (last rs)"
proof -
  have "validate_wal_batch_bounds base rs = Inr (n, l) \<longleftrightarrow>
      rs \<noteq> [] \<and> validate_segment_boundary rs = Inr n \<and> validate_lsn_continuity base rs = Inr l"
    by (auto simp: validate_wal_batch_bounds_def and_then_eq_Inr_iff)
  then show ?thesis
    unfolding validate_segment_boundary_iff [OF assms] validate_lsn_continuity_iff by blast
qed

theorem batch_bounds_exact_witness:
  "validate_wal_batch_bounds None [sample_begin] = Inr (72, 1)"
proof -
  have "bounded_record sample_begin" "record_chain None [sample_begin]"
    using sample_bounded sample_chain by simp_all
  then show ?thesis
    using batch_bounds_exact [of "[sample_begin]" None 72 1] record_bytes_length [of sample_begin]
    by (simp add: bounded_record_def sample_begin_def sample_record_def)
qed

text \<open>Only row operations count for the limit of a transaction batch.\<close>

lemma validate_transaction_batch_cardinality_iff:
  "validate_transaction_batch_cardinality rs = Inr n \<longleftrightarrow>
     n = length (filter (\<lambda>r. is_transaction_row_operation (rec_kind (rec_header r))) rs) \<and> n \<le> 256"
proof -
  have "k \<le> 256 \<Longrightarrow> batch_cardinality_loop k rs = Inr n \<longleftrightarrow>
      n = k + length (filter (\<lambda>r. is_transaction_row_operation (rec_kind (rec_header r))) rs) \<and> n \<le> 256" for k
    by (induction k rs rule: batch_cardinality_loop.induct) (auto simp: WAL_BATCH_ROW_LIMIT_def)
  from this [of 0] show ?thesis by (simp add: validate_transaction_batch_cardinality_def)
qed

section \<open>Segments\<close>

lemma record_chain_lsns:
  "record_chain (Some l) rs \<Longrightarrow> map (\<lambda>r. unat (record_lsn r)) rs = [Suc (unat l) ..< Suc (unat l) + length rs]"
proof (induction rs arbitrary: l)
  case (Cons r rs)
  then have "lsn_try_next l = Inr (record_lsn r)" by (simp add: try_next_lsn_def)
  then have "unat (record_lsn r) = Suc (unat l)" using checked_add_Some_unat by (fastforce simp: lsn_try_next_iff)
  with Cons.IH [of "record_lsn r"] Cons.prems show ?case by (simp add: upt_conv_Cons del: upt_Suc)
qed simp

text \<open>
  C28. Descriptors are well formed. A descriptor made for a list of records is valid by itself, accepts these
  records, and its fields fit together: the records have exactly the LSNs from the first to the last of
  the descriptor, one each and in order, so their number is the recorded one, and the first of them links to
  the base of the segment.
\<close>

theorem segment_descriptor_well_formed:
  assumes "descriptor_for_records i base rs = Inr d"
  shows "descriptor_validate d = Inr () \<and> descriptor_validate_records d rs = Inr () \<and>
    map (\<lambda>r. unat (record_lsn r)) rs = [unat (seg_first_lsn d) ..< Suc (unat (seg_last_lsn d))] \<and>
    unat (seg_last_lsn d) = unat (seg_first_lsn d) + seg_record_count d - 1 \<and>
    rec_previous_lsn (rec_header (hd rs)) = base \<and> (\<forall>p. base = Some p \<longrightarrow> unat (seg_first_lsn d) = unat p + 1)"
proof -
  have d: "rs \<noteq> []" "descriptor_validate_records d rs = Inr ()" "seg_base_previous_lsn d = base"
    using assms by (auto simp: descriptor_for_records_def Let_def and_then_eq_Inr_iff split: if_splits)
  then have valid: "descriptor_validate d = Inr ()" "length rs = seg_record_count d" "record_lsn (hd rs) = seg_first_lsn d"
      "record_lsn (last rs) = seg_last_lsn d" "segment_chain (seg_first_lsn d) base rs = Inr ()"
    by (auto simp: descriptor_validate_records_def and_then_eq_Inr_iff split: if_splits)
  obtain r rs' where rs: "rs = r # rs'" using d(1) by (cases rs) auto
  have chain: "record_chain (Some (record_lsn r)) rs'" "rec_previous_lsn (rec_header r) = base"
    using valid(5) rs by (auto simp: segment_chain_iff simp del: segment_chain.simps)
  have lsns: "map (\<lambda>r. unat (record_lsn r)) rs = [unat (record_lsn r) ..< unat (record_lsn r) + length rs]"
    using record_chain_lsns [OF chain(1)] rs by (simp add: upt_conv_Cons del: upt_Suc)
  then have "last (map (\<lambda>r. unat (record_lsn r)) rs) = unat (record_lsn r) + length rs - 1" using rs by simp
  then have count: "unat (seg_last_lsn d) = unat (record_lsn r) + length rs - 1" using d(1) valid(4) by (simp add: last_map)
  have "\<forall>p. base = Some p \<longrightarrow> unat (seg_first_lsn d) = unat p + 1"
    using valid(1) d(3) checked_add_Some_unat
    by (fastforce simp: descriptor_validate_def and_then_eq_Inr_iff lsn_try_next_iff split: if_splits)
  with d valid rs chain lsns count show ?thesis by simp
qed

theorem segment_descriptor_well_formed_witness:
  "\<exists>d. descriptor_for_records 1 None [sample_begin] = Inr d \<and> descriptor_validate d = Inr () \<and>
     unat (seg_last_lsn d) = unat (seg_first_lsn d) + seg_record_count d - 1"
proof -
  have "record_validate sample_begin = Inr ()" using sample_bounded by (simp add: bounded_record_def)
  then obtain d where "descriptor_for_records 1 None [sample_begin] = Inr d"
    by (auto simp: descriptor_for_records_def descriptor_validate_records_def descriptor_validate_def Let_def
        sample_begin_def sample_record_def)
  with segment_descriptor_well_formed [OF this] show ?thesis by blast
qed

end
