(* ===== verification/Commit_Log.thy ===== *)
theory Commit_Log
  imports File_Wal_Props Mvcc_Status
begin

text \<open>
  The commit log (\<open>andromeda-transaction-log\<close>: \<open>entry.rs\<close>, \<open>rollback.rs\<close>, \<open>wal.rs\<close>, \<open>manager.rs\<close>,
  \<open>manager/validation.rs\<close>, \<open>manager/recovery.rs\<close>, \<open>replay.rs\<close>, \<open>status_rebuild.rs\<close>): the boundary at which a
  transaction becomes visible, after the flush of its terminal record and never before. The log below it is
  the file log, reached through \<open>CommitLogInvocationWal\<close> of \<open>andromeda-recovery\<close>; the status table above
  it is the one of the MVCC crate, reached through the adapter in \<open>andromeda-transaction/src/commit_log.rs\<close>.
  Recording holds the life cycle lock from its first check to its last write, so it is one step. The
  time of an entry is an argument.
\<close>

section \<open>Entries and payloads\<close>

datatype isolation_level = Snapshot | Serializable

record commit_log_entry =
  commit_tx_id :: u64
  commit_lsn :: lsn
  commit_durable_lsn :: lsn
  commit_timestamp :: u64
  row_count_affected :: u64
  commit_isolation :: isolation_level

record rollback_log_entry =
  rollback_tx_id :: u64
  rollback_lsn :: lsn
  rollback_durable_lsn :: lsn
  rollback_timestamp :: u64
  rollback_parameter_hash :: u64

definition commit_entry_validate :: "commit_log_entry \<Rightarrow> unit andromeda_result" where
  "commit_entry_validate e =
     (if commit_tx_id e = 0 then Inl (transaction_error ''commit log entry transaction id must not be zero'')
      else if commit_lsn e = 0 then Inl (transaction_error ''commit log entry commit LSN must not be zero'')
      else if commit_durable_lsn e < commit_lsn e
      then Inl (storage_error (''durable WAL flush ended before commit LSN: durable='' @
        u64_string (commit_durable_lsn e) @ '', commit='' @ u64_string (commit_lsn e)))
      else Inr ())"

definition rollback_entry_validate :: "rollback_log_entry \<Rightarrow> unit andromeda_result" where
  "rollback_entry_validate e =
     (if rollback_tx_id e = 0 then Inl (transaction_error ''rollback log entry transaction id must not be zero'')
      else if rollback_lsn e = 0 then Inl (transaction_error ''rollback log entry rollback LSN must not be zero'')
      else if rollback_durable_lsn e < rollback_lsn e
      then Inl (storage_error (''durable WAL flush ended before rollback LSN: durable='' @
        u64_string (rollback_durable_lsn e) @ '', rollback='' @ u64_string (rollback_lsn e)))
      else Inr ())"

definition commit_from_durable_wal ::
    "u64 \<Rightarrow> lsn \<Rightarrow> lsn \<Rightarrow> u64 \<Rightarrow> u64 \<Rightarrow> isolation_level \<Rightarrow> commit_log_entry andromeda_result" where
  "commit_from_durable_wal tx terminal_lsn durable now rows isolation =
     (let e = \<lparr>commit_tx_id = tx, commit_lsn = terminal_lsn, commit_durable_lsn = durable, commit_timestamp = now,
               row_count_affected = rows, commit_isolation = isolation\<rparr> in
      and_then (commit_entry_validate e) (\<lambda>_. Inr e))"

definition rollback_from_durable_wal ::
    "u64 \<Rightarrow> lsn \<Rightarrow> lsn \<Rightarrow> u64 \<Rightarrow> u64 \<Rightarrow> rollback_log_entry andromeda_result" where
  "rollback_from_durable_wal tx terminal_lsn durable now parameter_hash =
     (let e = \<lparr>rollback_tx_id = tx, rollback_lsn = terminal_lsn, rollback_durable_lsn = durable,
               rollback_timestamp = now, rollback_parameter_hash = parameter_hash\<rparr> in
      and_then (rollback_entry_validate e) (\<lambda>_. Inr e))"

definition encode_commit_payload :: "isolation_level \<Rightarrow> u64 \<Rightarrow> u64 \<Rightarrow> u8 list" where
  "encode_commit_payload isolation affected_rows parameter_hash =
     [case isolation of Snapshot \<Rightarrow> 1 | Serializable \<Rightarrow> 2] @
     le_bytes 8 affected_rows @ le_bytes 8 parameter_hash @ le_bytes 8 (0 :: u64)"

definition encode_rollback_payload :: "u64 \<Rightarrow> u8 list" where
  "encode_rollback_payload parameter_hash = le_bytes 8 parameter_hash @ le_bytes 8 (0 :: u64)"

section \<open>The manager\<close>

text \<open>The two \<open>DashMap\<close>s are association lists. \<open>TransactionLogStatus\<close> is \<open>TransactionStatus\<close> case by case.\<close>

record commit_log =
  log_wal :: file_wal
  log_status :: status_table
  commit_entries :: "(u64 \<times> commit_log_entry) list"
  rollback_entries :: "(u64 \<times> rollback_log_entry) list"

definition commit_log_new :: "file_wal \<Rightarrow> status_table \<Rightarrow> commit_log" where
  "commit_log_new w t = \<lparr>log_wal = w, log_status = t, commit_entries = [], rollback_entries = []\<rparr>"

definition validate_log_transaction_id :: "u64 \<Rightarrow> string \<Rightarrow> unit andromeda_result" where
  "validate_log_transaction_id tx message = (if tx = 0 then Inl (transaction_error message) else Inr ())"

definition validate_durable_flush_covers_record :: "lsn \<Rightarrow> lsn \<Rightarrow> string \<Rightarrow> unit andromeda_result" where
  "validate_durable_flush_covers_record durable terminal_lsn record_name =
     (if durable < terminal_lsn
      then Inl (storage_error (''durable WAL flush ended before '' @ record_name @ '' LSN: durable='' @
        u64_string durable @ '', record='' @ u64_string terminal_lsn))
      else Inr ())"

definition conflicting_terminal_record :: andromeda_error where
  "conflicting_terminal_record = transaction_error ''conflicting transaction terminal durability records''"

definition validate_terminal_status_compatible ::
    "status_table \<Rightarrow> u64 \<Rightarrow> transaction_status \<Rightarrow> unit andromeda_result" where
  "validate_terminal_status_compatible t tx replay_status =
     (case status t tx of
        Some existing \<Rightarrow>
          if existing = replay_status \<or> existing = InFlight then Inr () else Inl conflicting_terminal_record
      | None \<Rightarrow> Inr ())"

text \<open>\<open>CommitLogInvocationWal\<close>: both calls take the log's mutex and pass on to the file log.\<close>

definition append_tx_begin :: "file_wal \<Rightarrow> u64 \<Rightarrow> file_wal \<times> lsn andromeda_result" where
  "append_tx_begin w tx = file_wal_append_payload w TxBegin (Some tx) []"

definition append_and_flush_terminal_record ::
    "file_wal \<Rightarrow> wal_record_kind \<Rightarrow> u64 \<Rightarrow> u8 list \<Rightarrow> string \<Rightarrow> file_wal \<times> (lsn \<times> lsn) andromeda_result" where
  "append_and_flush_terminal_record w kind tx payload record_name =
     io_then (file_wal_append_payload w kind (Some tx) payload) (\<lambda>w terminal_lsn.
     io_then (file_wal_flush_through w terminal_lsn) (\<lambda>w durable.
     or_return w (validate_durable_flush_covers_record durable terminal_lsn record_name) (\<lambda>_.
       (w, Inr (terminal_lsn, durable)))))"

definition restore_commit_status_from_entry ::
    "commit_log \<Rightarrow> commit_log_entry \<Rightarrow> commit_log \<times> unit andromeda_result" where
  "restore_commit_status_from_entry l e =
     or_return l (commit_entry_validate e) (\<lambda>_.
       let (t, res) = record_committed_after_durable_wal (log_status l) (commit_tx_id e) (commit_lsn e)
                        (commit_durable_lsn e) in
       (l\<lparr>log_status := t\<rparr>, res))"

definition restore_rollback_status_from_entry ::
    "commit_log \<Rightarrow> rollback_log_entry \<Rightarrow> commit_log \<times> unit andromeda_result" where
  "restore_rollback_status_from_entry l e =
     or_return l (rollback_entry_validate e) (\<lambda>_.
       let (t, res) = record_rolled_back_after_durable_wal (log_status l) (rollback_tx_id e) (rollback_lsn e)
                        (rollback_durable_lsn e) in
       (l\<lparr>log_status := t\<rparr>, res))"

definition existing_commit_entry :: "commit_log \<Rightarrow> u64 \<Rightarrow> commit_log_entry option andromeda_result" where
  "existing_commit_entry l tx =
     (case map_of (commit_entries l) tx of
        None \<Rightarrow> Inr None
      | Some e \<Rightarrow> and_then (commit_entry_validate e) (\<lambda>_. Inr (Some e)))"

definition existing_rollback_entry :: "commit_log \<Rightarrow> u64 \<Rightarrow> rollback_log_entry option andromeda_result" where
  "existing_rollback_entry l tx =
     (case map_of (rollback_entries l) tx of
        None \<Rightarrow> Inr None
      | Some e \<Rightarrow> and_then (rollback_entry_validate e) (\<lambda>_. Inr (Some e)))"

definition reject_commit_after_rollback :: "commit_log \<Rightarrow> u64 \<Rightarrow> unit andromeda_result" where
  "reject_commit_after_rollback l tx =
     (if map_of (rollback_entries l) tx \<noteq> None \<or> status (log_status l) tx = Some RolledBack
      then Inl (transaction_error ''cannot commit a transaction with durable rollback evidence'')
      else Inr ())"

definition reject_rollback_after_commit :: "commit_log \<Rightarrow> u64 \<Rightarrow> unit andromeda_result" where
  "reject_rollback_after_commit l tx =
     (if map_of (commit_entries l) tx \<noteq> None \<or> status (log_status l) tx = Some Committed
      then Inl (transaction_error ''cannot rollback a transaction with durable commit evidence'')
      else Inr ())"

definition record_commit ::
    "commit_log \<Rightarrow> u64 \<Rightarrow> isolation_level \<Rightarrow> u64 \<Rightarrow> u64 \<Rightarrow> u64 \<Rightarrow>
     commit_log \<times> commit_log_entry andromeda_result" where
  "record_commit l tx isolation affected_rows parameter_hash now =
     or_return l (validate_log_transaction_id tx ''cannot commit transaction with zero ID'') (\<lambda>_.
     or_return l (existing_commit_entry l tx) (\<lambda>found.
       case found of
         Some existing \<Rightarrow>
           io_then (restore_commit_status_from_entry l existing) (\<lambda>l _. (l, Inr existing))
       | None \<Rightarrow>
           or_return l (reject_commit_after_rollback l tx) (\<lambda>_.
             let payload = encode_commit_payload isolation affected_rows parameter_hash;
                 (w, res) = append_and_flush_terminal_record (log_wal l) TxCommit tx payload ''commit'';
                 l = l\<lparr>log_wal := w\<rparr> in
             or_return l res (\<lambda>(terminal_lsn, durable).
             or_return l (commit_from_durable_wal tx terminal_lsn durable now affected_rows isolation) (\<lambda>e.
               let l = l\<lparr>commit_entries := AList.update tx e (commit_entries l)\<rparr> in
               io_then (restore_commit_status_from_entry l e) (\<lambda>l _. (l, Inr e)))))))"

definition record_rollback ::
    "commit_log \<Rightarrow> u64 \<Rightarrow> u64 \<Rightarrow> u64 \<Rightarrow> commit_log \<times> rollback_log_entry andromeda_result" where
  "record_rollback l tx parameter_hash now =
     or_return l (validate_log_transaction_id tx ''cannot rollback transaction with zero ID'') (\<lambda>_.
     or_return l (existing_rollback_entry l tx) (\<lambda>found.
       case found of
         Some existing \<Rightarrow>
           io_then (restore_rollback_status_from_entry l existing) (\<lambda>l _. (l, Inr existing))
       | None \<Rightarrow>
           or_return l (reject_rollback_after_commit l tx) (\<lambda>_.
             let payload = encode_rollback_payload parameter_hash;
                 (w, res) = append_and_flush_terminal_record (log_wal l) TxRollback tx payload ''rollback'';
                 l = l\<lparr>log_wal := w\<rparr> in
             or_return l res (\<lambda>(terminal_lsn, durable).
             or_return l (rollback_from_durable_wal tx terminal_lsn durable now parameter_hash) (\<lambda>e.
               let l = l\<lparr>rollback_entries := AList.update tx e (rollback_entries l)\<rparr> in
               io_then (restore_rollback_status_from_entry l e) (\<lambda>l _. (l, Inr e)))))))"

definition valid_commit_entry :: "commit_log \<Rightarrow> u64 \<Rightarrow> commit_log_entry option" where
  "valid_commit_entry l tx =
     (case map_of (commit_entries l) tx of
        Some e \<Rightarrow> (case commit_entry_validate e of Inr _ \<Rightarrow> Some e | Inl _ \<Rightarrow> None)
      | None \<Rightarrow> None)"

definition valid_rollback_entry :: "commit_log \<Rightarrow> u64 \<Rightarrow> rollback_log_entry option" where
  "valid_rollback_entry l tx =
     (case map_of (rollback_entries l) tx of
        Some e \<Rightarrow> (case rollback_entry_validate e of Inr _ \<Rightarrow> Some e | Inl _ \<Rightarrow> None)
      | None \<Rightarrow> None)"

definition rebuild_status_for_transaction :: "commit_log \<Rightarrow> u64 \<Rightarrow> commit_log" where
  "rebuild_status_for_transaction l tx =
     (if status (log_status l) tx \<noteq> None then l
      else
        (case valid_commit_entry l tx of
           Some e \<Rightarrow>
             if map_of (rollback_entries l) tx = None then fst (restore_commit_status_from_entry l e) else l
         | None \<Rightarrow>
             if map_of (commit_entries l) tx = None
             then
               (case valid_rollback_entry l tx of
                  Some e \<Rightarrow> fst (restore_rollback_status_from_entry l e)
                | None \<Rightarrow> l)
             else l))"

definition log_is_committed :: "commit_log \<Rightarrow> u64 \<Rightarrow> commit_log \<times> bool" where
  "log_is_committed l tx =
     (let l = rebuild_status_for_transaction l tx in
      (l, valid_commit_entry l tx \<noteq> None \<and> status (log_status l) tx = Some Committed))"

definition log_is_rolled_back :: "commit_log \<Rightarrow> u64 \<Rightarrow> commit_log \<times> bool" where
  "log_is_rolled_back l tx =
     (let l = rebuild_status_for_transaction l tx in
      (l, valid_rollback_entry l tx \<noteq> None \<and> status (log_status l) tx = Some RolledBack))"

definition gc_candidates :: "commit_log \<Rightarrow> lsn \<Rightarrow> u64 list" where
  "gc_candidates l min_active_snapshot_lsn =
     map (\<lambda>(_, e). commit_tx_id e)
       (filter (\<lambda>(_, e). commit_entry_validate e = Inr () \<and> commit_lsn e < min_active_snapshot_lsn)
          (commit_entries l))"

fun gc_remove :: "commit_log \<Rightarrow> u64 list \<Rightarrow> commit_log \<times> nat" where
  "gc_remove l [] = (l, 0)"
| "gc_remove l (tx # txs) =
     (let removed = (if map_of (commit_entries l) tx \<noteq> None then 1 else 0);
          (l, n) = gc_remove (l\<lparr>commit_entries := AList.delete tx (commit_entries l)\<rparr>) txs in
      (l, removed + n))"

definition restore_commit_entry :: "commit_log \<Rightarrow> commit_log_entry \<Rightarrow> commit_log \<times> unit andromeda_result" where
  "restore_commit_entry l e =
     or_return l (validate_log_transaction_id (commit_tx_id e) ''cannot restore commit entry with zero ID'') (\<lambda>_.
     or_return l (commit_entry_validate e) (\<lambda>_.
       if map_of (rollback_entries l) (commit_tx_id e) \<noteq> None then (l, Inl conflicting_terminal_record)
       else
         or_return l (validate_terminal_status_compatible (log_status l) (commit_tx_id e) Committed) (\<lambda>_.
           case map_of (commit_entries l) (commit_tx_id e) of
             Some existing \<Rightarrow>
               if existing \<noteq> e then (l, Inl conflicting_terminal_record)
               else restore_commit_status_from_entry l e
           | None \<Rightarrow>
               restore_commit_status_from_entry
                 (l\<lparr>commit_entries := AList.update (commit_tx_id e) e (commit_entries l)\<rparr>) e)))"

definition restore_rollback_entry :: "commit_log \<Rightarrow> rollback_log_entry \<Rightarrow> commit_log \<times> unit andromeda_result" where
  "restore_rollback_entry l e =
     or_return l (validate_log_transaction_id (rollback_tx_id e) ''cannot restore rollback entry with zero ID'') (\<lambda>_.
     or_return l (rollback_entry_validate e) (\<lambda>_.
       if map_of (commit_entries l) (rollback_tx_id e) \<noteq> None then (l, Inl conflicting_terminal_record)
       else
         or_return l (validate_terminal_status_compatible (log_status l) (rollback_tx_id e) RolledBack) (\<lambda>_.
           case map_of (rollback_entries l) (rollback_tx_id e) of
             Some existing \<Rightarrow>
               if existing \<noteq> e then (l, Inl conflicting_terminal_record)
               else restore_rollback_status_from_entry l e
           | None \<Rightarrow>
               restore_rollback_status_from_entry
                 (l\<lparr>rollback_entries := AList.update (rollback_tx_id e) e (rollback_entries l)\<rparr>) e)))"

section \<open>Replay\<close>

datatype tx_wal_replay_record =
    ReplayCommit commit_log_entry
  | ReplayRollback rollback_log_entry
  | ReplayIncomplete u64 lsn

fun replay_lsn :: "tx_wal_replay_record \<Rightarrow> lsn" where
  "replay_lsn (ReplayCommit e) = commit_lsn e"
| "replay_lsn (ReplayRollback e) = rollback_lsn e"
| "replay_lsn (ReplayIncomplete tx last_lsn) = last_lsn"

datatype tx_wal_replay_action =
    CommitRestored | RollbackRestored | DuplicateCommit | DuplicateRollback | IncompleteIgnored

record tx_wal_replay_summary =
  commits_restored :: nat
  rollbacks_restored :: nat
  duplicate_commits :: nat
  duplicate_rollbacks :: nat
  incomplete_transactions :: nat

fun summary_record_action :: "tx_wal_replay_summary \<Rightarrow> tx_wal_replay_action \<Rightarrow> tx_wal_replay_summary" where
  "summary_record_action s CommitRestored = s\<lparr>commits_restored := commits_restored s + 1\<rparr>"
| "summary_record_action s RollbackRestored = s\<lparr>rollbacks_restored := rollbacks_restored s + 1\<rparr>"
| "summary_record_action s DuplicateCommit = s\<lparr>duplicate_commits := duplicate_commits s + 1\<rparr>"
| "summary_record_action s DuplicateRollback = s\<lparr>duplicate_rollbacks := duplicate_rollbacks s + 1\<rparr>"
| "summary_record_action s IncompleteIgnored = s\<lparr>incomplete_transactions := incomplete_transactions s + 1\<rparr>"

definition validate_incomplete_replay_record :: "u64 \<Rightarrow> lsn \<Rightarrow> unit andromeda_result" where
  "validate_incomplete_replay_record tx last_lsn =
     and_then (validate_log_transaction_id tx ''cannot replay incomplete transaction with zero ID'') (\<lambda>_.
       if last_lsn = 0 then Inl (transaction_error ''cannot replay incomplete transaction with zero LSN'')
       else Inr ())"

definition replay_commit_record ::
    "commit_log \<Rightarrow> commit_log_entry \<Rightarrow> commit_log \<times> tx_wal_replay_action andromeda_result" where
  "replay_commit_record l e =
     or_return l (validate_log_transaction_id (commit_tx_id e) ''cannot replay commit entry with zero ID'') (\<lambda>_.
     or_return l (commit_entry_validate e) (\<lambda>_.
       if map_of (rollback_entries l) (commit_tx_id e) \<noteq> None then (l, Inl conflicting_terminal_record)
       else
         or_return l (validate_terminal_status_compatible (log_status l) (commit_tx_id e) Committed) (\<lambda>_.
         io_then
           (case map_of (commit_entries l) (commit_tx_id e) of
              Some existing \<Rightarrow> (l, if existing \<noteq> e then Inl conflicting_terminal_record else Inr DuplicateCommit)
            | None \<Rightarrow>
                (l\<lparr>commit_entries := AList.update (commit_tx_id e) e (commit_entries l)\<rparr>, Inr CommitRestored))
           (\<lambda>l action.
             let (t, res) = restore_terminal_from_validated_replay (log_status l) (commit_tx_id e) Committed;
                 l = l\<lparr>log_status := t\<rparr> in
             or_return l res (\<lambda>_. (l, Inr action))))))"

definition replay_rollback_record ::
    "commit_log \<Rightarrow> rollback_log_entry \<Rightarrow> commit_log \<times> tx_wal_replay_action andromeda_result" where
  "replay_rollback_record l e =
     or_return l (validate_log_transaction_id (rollback_tx_id e) ''cannot replay rollback entry with zero ID'') (\<lambda>_.
     or_return l (rollback_entry_validate e) (\<lambda>_.
       if map_of (commit_entries l) (rollback_tx_id e) \<noteq> None then (l, Inl conflicting_terminal_record)
       else
         or_return l (validate_terminal_status_compatible (log_status l) (rollback_tx_id e) RolledBack) (\<lambda>_.
         io_then
           (case map_of (rollback_entries l) (rollback_tx_id e) of
              Some existing \<Rightarrow> (l, if existing \<noteq> e then Inl conflicting_terminal_record else Inr DuplicateRollback)
            | None \<Rightarrow>
                (l\<lparr>rollback_entries := AList.update (rollback_tx_id e) e (rollback_entries l)\<rparr>, Inr RollbackRestored))
           (\<lambda>l action.
             let (t, res) = restore_terminal_from_validated_replay (log_status l) (rollback_tx_id e) RolledBack;
                 l = l\<lparr>log_status := t\<rparr> in
             or_return l res (\<lambda>_. (l, Inr action))))))"

fun replay_tx_wal_record ::
    "commit_log \<Rightarrow> tx_wal_replay_record \<Rightarrow> commit_log \<times> tx_wal_replay_action andromeda_result" where
  "replay_tx_wal_record l (ReplayCommit e) = replay_commit_record l e"
| "replay_tx_wal_record l (ReplayRollback e) = replay_rollback_record l e"
| "replay_tx_wal_record l (ReplayIncomplete tx last_lsn) =
     or_return l (validate_incomplete_replay_record tx last_lsn) (\<lambda>_. (l, Inr IncompleteIgnored))"

definition validate_replay_lsn_progression ::
    "tx_wal_replay_record option \<Rightarrow> tx_wal_replay_record \<Rightarrow> unit andromeda_result" where
  "validate_replay_lsn_progression previous r =
     (case previous of
        None \<Rightarrow> Inr ()
      | Some p \<Rightarrow>
          if replay_lsn r < replay_lsn p
          then Inl (transaction_error (''transaction WAL replay LSN order regressed: previous='' @
            u64_string (replay_lsn p) @ '', current='' @ u64_string (replay_lsn r)))
          else if replay_lsn r = replay_lsn p \<and> r \<noteq> p
          then Inl (transaction_error (''transaction WAL replay LSN reused by distinct records: lsn='' @
            u64_string (replay_lsn r)))
          else Inr ())"

text \<open>The two staging maps of the batch check are passed along; the result is the map it updates.\<close>

definition validate_replay_commit_candidate ::
    "commit_log \<Rightarrow> commit_log_entry \<Rightarrow> (u64 \<times> commit_log_entry) list \<Rightarrow> (u64 \<times> rollback_log_entry) list \<Rightarrow>
     (u64 \<times> commit_log_entry) list andromeda_result" where
  "validate_replay_commit_candidate l e staged_commits staged_rollbacks =
     and_then (validate_log_transaction_id (commit_tx_id e) ''cannot replay commit entry with zero ID'') (\<lambda>_.
     and_then (commit_entry_validate e) (\<lambda>_.
       if map_of (rollback_entries l) (commit_tx_id e) \<noteq> None \<or> map_of staged_rollbacks (commit_tx_id e) \<noteq> None
       then Inl conflicting_terminal_record
       else
         and_then (validate_terminal_status_compatible (log_status l) (commit_tx_id e) Committed) (\<lambda>_.
           case map_of (commit_entries l) (commit_tx_id e) of
             Some existing \<Rightarrow> if existing \<noteq> e then Inl conflicting_terminal_record else Inr staged_commits
           | None \<Rightarrow>
               (case map_of staged_commits (commit_tx_id e) of
                  Some existing \<Rightarrow> if existing = e then Inr staged_commits else Inl conflicting_terminal_record
                | None \<Rightarrow> Inr (btree_insert (commit_tx_id e) e staged_commits)))))"

definition validate_replay_rollback_candidate ::
    "commit_log \<Rightarrow> rollback_log_entry \<Rightarrow> (u64 \<times> commit_log_entry) list \<Rightarrow> (u64 \<times> rollback_log_entry) list \<Rightarrow>
     (u64 \<times> rollback_log_entry) list andromeda_result" where
  "validate_replay_rollback_candidate l e staged_commits staged_rollbacks =
     and_then (validate_log_transaction_id (rollback_tx_id e) ''cannot replay rollback entry with zero ID'') (\<lambda>_.
     and_then (rollback_entry_validate e) (\<lambda>_.
       if map_of (commit_entries l) (rollback_tx_id e) \<noteq> None \<or> map_of staged_commits (rollback_tx_id e) \<noteq> None
       then Inl conflicting_terminal_record
       else
         and_then (validate_terminal_status_compatible (log_status l) (rollback_tx_id e) RolledBack) (\<lambda>_.
           case map_of (rollback_entries l) (rollback_tx_id e) of
             Some existing \<Rightarrow> if existing \<noteq> e then Inl conflicting_terminal_record else Inr staged_rollbacks
           | None \<Rightarrow>
               (case map_of staged_rollbacks (rollback_tx_id e) of
                  Some existing \<Rightarrow> if existing = e then Inr staged_rollbacks else Inl conflicting_terminal_record
                | None \<Rightarrow> Inr (btree_insert (rollback_tx_id e) e staged_rollbacks)))))"

fun validate_replay_batch_from ::
    "commit_log \<Rightarrow> tx_wal_replay_record option \<Rightarrow> (u64 \<times> commit_log_entry) list \<Rightarrow>
     (u64 \<times> rollback_log_entry) list \<Rightarrow> tx_wal_replay_record list \<Rightarrow> unit andromeda_result" where
  "validate_replay_batch_from l previous commits rollbacks [] = Inr ()"
| "validate_replay_batch_from l previous commits rollbacks (r # rs) =
     and_then (validate_replay_lsn_progression previous r) (\<lambda>_.
       case r of
         ReplayCommit e \<Rightarrow>
           and_then (validate_replay_commit_candidate l e commits rollbacks) (\<lambda>commits.
             validate_replay_batch_from l (Some r) commits rollbacks rs)
       | ReplayRollback e \<Rightarrow>
           and_then (validate_replay_rollback_candidate l e commits rollbacks) (\<lambda>rollbacks.
             validate_replay_batch_from l (Some r) commits rollbacks rs)
       | ReplayIncomplete tx last_lsn \<Rightarrow>
           and_then (validate_incomplete_replay_record tx last_lsn) (\<lambda>_.
             validate_replay_batch_from l (Some r) commits rollbacks rs))"

definition validate_tx_wal_replay_batch :: "commit_log \<Rightarrow> tx_wal_replay_record list \<Rightarrow> unit andromeda_result" where
  "validate_tx_wal_replay_batch l records = validate_replay_batch_from l None [] [] records"

fun replay_records_from ::
    "commit_log \<Rightarrow> tx_wal_replay_summary \<Rightarrow> tx_wal_replay_record list \<Rightarrow>
     commit_log \<times> tx_wal_replay_summary andromeda_result" where
  "replay_records_from l s [] = (l, Inr s)"
| "replay_records_from l s (r # rs) =
     io_then (replay_tx_wal_record l r) (\<lambda>l action. replay_records_from l (summary_record_action s action) rs)"

definition reconstruct_from_tx_wal_replay ::
    "commit_log \<Rightarrow> tx_wal_replay_record list \<Rightarrow> commit_log \<times> tx_wal_replay_summary andromeda_result" where
  "reconstruct_from_tx_wal_replay l records =
     or_return l (validate_tx_wal_replay_batch l records) (\<lambda>_.
       replay_records_from l
         \<lparr>commits_restored = 0, rollbacks_restored = 0, duplicate_commits = 0, duplicate_rollbacks = 0,
          incomplete_transactions = 0\<rparr> records)"

section \<open>Rebuilding the status table\<close>

record transaction_status_rebuild =
  committed_restored :: nat
  rolled_back_restored :: nat
  already_present :: nat

fun rebuild_commits ::
    "commit_log \<Rightarrow> transaction_status_rebuild \<Rightarrow> (u64 \<times> commit_log_entry) list \<Rightarrow>
     commit_log \<times> transaction_status_rebuild andromeda_result" where
  "rebuild_commits l s [] = (l, Inr s)"
| "rebuild_commits l s ((tx, e) # es) =
     or_return l (commit_entry_validate e) (\<lambda>_.
       if map_of (rollback_entries l) tx \<noteq> None then (l, Inl conflicting_terminal_record)
       else
         (case status (log_status l) tx of
            Some Committed \<Rightarrow> rebuild_commits l (s\<lparr>already_present := already_present s + 1\<rparr>) es
          | Some _ \<Rightarrow> (l, Inl conflicting_terminal_record)
          | None \<Rightarrow>
              let (t, res) = record_committed_after_durable_wal (log_status l) tx (commit_lsn e) (commit_durable_lsn e);
                  l = l\<lparr>log_status := t\<rparr> in
              or_return l res (\<lambda>_.
                rebuild_commits l (s\<lparr>committed_restored := committed_restored s + 1\<rparr>) es)))"

fun rebuild_rollbacks ::
    "commit_log \<Rightarrow> transaction_status_rebuild \<Rightarrow> (u64 \<times> rollback_log_entry) list \<Rightarrow>
     commit_log \<times> transaction_status_rebuild andromeda_result" where
  "rebuild_rollbacks l s [] = (l, Inr s)"
| "rebuild_rollbacks l s ((tx, e) # es) =
     or_return l (rollback_entry_validate e) (\<lambda>_.
       if map_of (commit_entries l) tx \<noteq> None then (l, Inl conflicting_terminal_record)
       else
         (case status (log_status l) tx of
            Some RolledBack \<Rightarrow> rebuild_rollbacks l (s\<lparr>already_present := already_present s + 1\<rparr>) es
          | Some _ \<Rightarrow> (l, Inl conflicting_terminal_record)
          | None \<Rightarrow>
              let (t, res) =
                    record_rolled_back_after_durable_wal (log_status l) tx (rollback_lsn e) (rollback_durable_lsn e);
                  l = l\<lparr>log_status := t\<rparr> in
              or_return l res (\<lambda>_.
                rebuild_rollbacks l (s\<lparr>rolled_back_restored := rolled_back_restored s + 1\<rparr>) es)))"

definition rebuild_status_from_records ::
    "commit_log \<Rightarrow> commit_log \<times> transaction_status_rebuild andromeda_result" where
  "rebuild_status_from_records l =
     io_then (rebuild_commits l \<lparr>committed_restored = 0, rolled_back_restored = 0, already_present = 0\<rparr>
         (commit_entries l))
       (\<lambda>l s. rebuild_rollbacks l s (rollback_entries l))"

end
