(* ===== verification/Tx_Replay.thy ===== *)
theory Tx_Replay
  imports Commit_Log
begin

text \<open>
  From durable log records to transaction outcomes: the storage independent replay of
  \<open>andromeda-transaction-log/src/adapter_replay.rs\<close> and the bridge that feeds it with the records of a
  log, \<open>andromeda-recovery/src/transaction_wal_bridge.rs\<close>.
\<close>

section \<open>Adapter records\<close>

datatype tx_wal_adapter_replay_kind = AdapterBegin | AdapterCommit | AdapterRollback | AdapterOther

record tx_wal_adapter_replay_record =
  adapter_kind :: tx_wal_adapter_replay_kind
  adapter_lsn :: lsn
  adapter_durable_lsn :: lsn
  adapter_tx_id :: "u64 option"
  adapter_timestamp :: u64
  adapter_rows :: u64
  adapter_isolation :: isolation_level
  adapter_parameter_hash :: u64

definition adapter_boundary ::
    "tx_wal_adapter_replay_kind \<Rightarrow> u64 \<Rightarrow> lsn \<Rightarrow> tx_wal_adapter_replay_record" where
  "adapter_boundary kind tx l =
     \<lparr>adapter_kind = kind, adapter_lsn = l, adapter_durable_lsn = l, adapter_tx_id = Some tx,
      adapter_timestamp = 0, adapter_rows = 0, adapter_isolation = Snapshot, adapter_parameter_hash = 0\<rparr>"

definition adapter_terminal ::
    "tx_wal_adapter_replay_kind \<Rightarrow> u64 \<Rightarrow> lsn \<Rightarrow> u64 \<Rightarrow> tx_wal_adapter_replay_record" where
  "adapter_terminal kind tx l now = (adapter_boundary kind tx l)\<lparr>adapter_timestamp := now\<rparr>"

definition adapter_other :: "lsn \<Rightarrow> u64 option \<Rightarrow> tx_wal_adapter_replay_record" where
  "adapter_other l tx =
     \<lparr>adapter_kind = AdapterOther, adapter_lsn = l, adapter_durable_lsn = l, adapter_tx_id = tx,
      adapter_timestamp = 0, adapter_rows = 0, adapter_isolation = Snapshot, adapter_parameter_hash = 0\<rparr>"

definition with_commit_metadata ::
    "tx_wal_adapter_replay_record \<Rightarrow> u64 \<Rightarrow> isolation_level \<Rightarrow> u64 \<Rightarrow> tx_wal_adapter_replay_record" where
  "with_commit_metadata r rows isolation parameter_hash =
     r\<lparr>adapter_rows := rows, adapter_isolation := isolation, adapter_parameter_hash := parameter_hash\<rparr>"

definition with_parameter_hash :: "tx_wal_adapter_replay_record \<Rightarrow> u64 \<Rightarrow> tx_wal_adapter_replay_record" where
  "with_parameter_hash r parameter_hash = r\<lparr>adapter_parameter_hash := parameter_hash\<rparr>"

section \<open>Replay of adapter records\<close>

record replay_state =
  state_last_lsn :: lsn
  state_terminal :: "tx_wal_adapter_replay_record option"

definition replay_tx_id :: "tx_wal_adapter_replay_record \<Rightarrow> u64 andromeda_result" where
  "replay_tx_id r =
     (case adapter_tx_id r of
        Some tx \<Rightarrow> Inr tx
      | None \<Rightarrow> Inl (transaction_error ''transaction WAL replay boundary record is missing transaction id''))"

definition validate_replay_lsn_order :: "replay_state \<Rightarrow> lsn \<Rightarrow> replay_state andromeda_result" where
  "validate_replay_lsn_order s l =
     (if l < state_last_lsn s then Inl (transaction_error ''transaction WAL replay LSN order regressed'')
      else Inr (s\<lparr>state_last_lsn := l\<rparr>))"

definition validate_terminal_durable_coverage :: "tx_wal_adapter_replay_record \<Rightarrow> unit andromeda_result" where
  "validate_terminal_durable_coverage r =
     (if adapter_durable_lsn r < adapter_lsn r
      then Inl (storage_error ''durable WAL replay coverage ended before terminal LSN'')
      else Inr ())"

definition validate_global_replay_lsn_order ::
    "tx_wal_adapter_replay_record option \<Rightarrow> tx_wal_adapter_replay_record \<Rightarrow> unit andromeda_result" where
  "validate_global_replay_lsn_order previous r =
     (case previous of
        None \<Rightarrow> Inr ()
      | Some p \<Rightarrow>
          if adapter_lsn r < adapter_lsn p \<or> adapter_lsn r = adapter_lsn p \<and> r \<noteq> p
          then Inl (transaction_error ''transaction WAL replay LSN order regressed'')
          else Inr ())"

text \<open>The body of the loop over the records, on the map of transactions.\<close>

definition replay_adapter_record ::
    "(u64 \<times> replay_state) list \<Rightarrow> tx_wal_adapter_replay_record \<Rightarrow> (u64 \<times> replay_state) list andromeda_result" where
  "replay_adapter_record states r =
     (case adapter_kind r of
        AdapterBegin \<Rightarrow>
          and_then (replay_tx_id r) (\<lambda>tx.
            if map_of states tx \<noteq> None
            then Inl (transaction_error ''transaction WAL replay saw duplicate TxBegin'')
            else Inr (btree_insert tx \<lparr>state_last_lsn = adapter_lsn r, state_terminal = None\<rparr> states))
      | AdapterOther \<Rightarrow>
          (case adapter_tx_id r of
             None \<Rightarrow> Inr states
           | Some tx \<Rightarrow>
               (case map_of states tx of
                  None \<Rightarrow> Inl (transaction_error ''transaction WAL replay record has no TxBegin'')
                | Some s \<Rightarrow>
                    if state_terminal s \<noteq> None
                    then Inl (transaction_error ''transaction WAL replay saw record after terminal boundary'')
                    else and_then (validate_replay_lsn_order s (adapter_lsn r)) (\<lambda>s. Inr (btree_insert tx s states))))
      | _ \<Rightarrow>
          and_then (replay_tx_id r) (\<lambda>tx.
            case map_of states tx of
              None \<Rightarrow> Inl (transaction_error ''transaction WAL replay record has no TxBegin'')
            | Some s \<Rightarrow>
                and_then (validate_replay_lsn_order s (adapter_lsn r)) (\<lambda>s.
                and_then (validate_terminal_durable_coverage r) (\<lambda>_.
                  case state_terminal s of
                    Some existing \<Rightarrow>
                      if existing \<noteq> r
                      then Inl (transaction_error ''transaction WAL replay saw conflicting terminal records'')
                      else Inr (btree_insert tx s states)
                  | None \<Rightarrow> Inr (btree_insert tx (s\<lparr>state_terminal := Some r\<rparr>) states)))))"

fun replay_adapter_records ::
    "(u64 \<times> replay_state) list \<Rightarrow> tx_wal_adapter_replay_record option \<Rightarrow> tx_wal_adapter_replay_record list \<Rightarrow>
     (u64 \<times> replay_state) list andromeda_result" where
  "replay_adapter_records states previous [] = Inr states"
| "replay_adapter_records states previous (r # rs) =
     and_then (validate_global_replay_lsn_order previous r) (\<lambda>_.
     and_then (replay_adapter_record states r) (\<lambda>states. replay_adapter_records states (Some r) rs))"

definition replay_outcome :: "u64 \<times> replay_state \<Rightarrow> tx_wal_replay_record andromeda_result" where
  "replay_outcome tx_state =
     (let (tx, s) = tx_state in
      case state_terminal s of
        None \<Rightarrow> Inr (ReplayIncomplete tx (state_last_lsn s))
      | Some r \<Rightarrow>
          (case adapter_kind r of
             AdapterCommit \<Rightarrow>
               Inr (ReplayCommit
                 \<lparr>commit_tx_id = tx, commit_lsn = adapter_lsn r, commit_durable_lsn = adapter_durable_lsn r,
                  commit_timestamp = adapter_timestamp r, row_count_affected = adapter_rows r,
                  commit_isolation = adapter_isolation r\<rparr>)
           | AdapterRollback \<Rightarrow>
               Inr (ReplayRollback
                 \<lparr>rollback_tx_id = tx, rollback_lsn = adapter_lsn r, rollback_durable_lsn = adapter_durable_lsn r,
                  rollback_timestamp = adapter_timestamp r, rollback_parameter_hash = adapter_parameter_hash r\<rparr>)
           | _ \<Rightarrow> Inl (AndromedaError Internal ''TxWalAdapter invariant violation'')))"

fun replay_outcomes :: "(u64 \<times> replay_state) list \<Rightarrow> tx_wal_replay_record list andromeda_result" where
  "replay_outcomes [] = Inr []"
| "replay_outcomes (s # ss) =
     and_then (replay_outcome s) (\<lambda>r. and_then (replay_outcomes ss) (\<lambda>rs. Inr (r # rs)))"

definition map_tx_wal_replay_records ::
    "tx_wal_adapter_replay_record list \<Rightarrow> tx_wal_replay_record list andromeda_result" where
  "map_tx_wal_replay_records records =
     and_then (replay_adapter_records [] None records) (\<lambda>states.
     and_then (replay_outcomes states) (\<lambda>replay_records. Inr (sort_key replay_lsn replay_records)))"

section \<open>The bridge from a log\<close>

definition required_tx_id :: "wal_record \<Rightarrow> u64 andromeda_result" where
  "required_tx_id r =
     (case rec_transaction_id (rec_header r) of
        None \<Rightarrow> Inl (transaction_error ''transaction WAL replay evidence is missing transaction id'')
      | Some tx \<Rightarrow>
          if tx = 0 then Inl (transaction_error ''transaction WAL replay evidence contains zero transaction id'')
          else Inr tx)"

definition read_u64_le :: "u8 list \<Rightarrow> nat \<Rightarrow> u64 andromeda_result" where
  "read_u64_le payload offset =
     (case get_range payload offset 8 of
        None \<Rightarrow>
          Inl (transaction_error (''transaction WAL payload is truncated at u64 offset '' @ nat_string offset))
      | Some bytes \<Rightarrow> Inr (of_le_bytes bytes))"

definition decode_commit_payload :: "u8 list \<Rightarrow> (isolation_level \<times> u64 \<times> u64) andromeda_result" where
  "decode_commit_payload payload =
     (if length payload \<noteq> 25
      then Inl (transaction_error
        (''transaction commit WAL payload has unsupported length: expected 25 bytes, got '' @
         nat_string (length payload) @ '' bytes''))
      else
        and_then
          (if payload ! 0 = 1 then Inr Snapshot
           else if payload ! 0 = 2 then Inr Serializable
           else Inl (transaction_error
             (''transaction commit WAL payload has unknown isolation level code '' @ nat_string (unat (payload ! 0)))))
          (\<lambda>isolation.
            and_then (read_u64_le payload 1) (\<lambda>rows.
            and_then (read_u64_le payload 9) (\<lambda>parameter_hash. Inr (isolation, rows, parameter_hash)))))"

definition decode_rollback_payload :: "u8 list \<Rightarrow> u64 andromeda_result" where
  "decode_rollback_payload payload =
     (if length payload \<noteq> 16
      then Inl (transaction_error
        (''transaction rollback WAL payload has unsupported length: expected 16 bytes, got '' @
         nat_string (length payload) @ '' bytes''))
      else read_u64_le payload 0)"

text \<open>The adapter record of a log record; records of no transaction have none.\<close>

definition adapter_record_of :: "wal_record \<Rightarrow> tx_wal_adapter_replay_record option andromeda_result" where
  "adapter_record_of r =
     (case rec_kind (rec_header r) of
        TxBegin \<Rightarrow>
          and_then (required_tx_id r) (\<lambda>tx. Inr (Some (adapter_boundary AdapterBegin tx (record_lsn r))))
      | TxCommit \<Rightarrow>
          and_then (decode_commit_payload (rec_payload r)) (\<lambda>(isolation, rows, parameter_hash).
          and_then (required_tx_id r) (\<lambda>tx.
            Inr (Some (with_commit_metadata (adapter_terminal AdapterCommit tx (record_lsn r) 0)
              rows isolation parameter_hash))))
      | TxRollback \<Rightarrow>
          and_then (decode_rollback_payload (rec_payload r)) (\<lambda>parameter_hash.
          and_then (required_tx_id r) (\<lambda>tx.
            Inr (Some (with_parameter_hash (adapter_terminal AdapterRollback tx (record_lsn r) 0) parameter_hash))))
      | _ \<Rightarrow>
          Inr (if rec_transaction_id (rec_header r) \<noteq> None
               then Some (adapter_other (record_lsn r) (rec_transaction_id (rec_header r))) else None))"

fun adapter_records_of ::
    "lsn list \<Rightarrow> wal_record list \<Rightarrow> tx_wal_adapter_replay_record list andromeda_result" where
  "adapter_records_of seen_lsns [] = Inr []"
| "adapter_records_of seen_lsns (r # rs) =
     and_then (record_validate r) (\<lambda>_.
       if record_lsn r \<in> set seen_lsns
       then Inl (storage_error ''transaction WAL replay evidence contains duplicate source LSN'')
       else
         and_then (adapter_record_of r) (\<lambda>a.
         and_then (adapter_records_of (record_lsn r # seen_lsns) rs) (\<lambda>as.
           Inr (case a of None \<Rightarrow> as | Some a \<Rightarrow> a # as))))"

record tx_replay_bridge_evidence =
  source_records :: nat
  adapter_records :: nat
  replayed_commits :: nat
  replayed_rollbacks :: nat
  replayed_incomplete :: nat

definition map_checked_wal_evidence_to_tx_replay ::
    "wal_record list \<Rightarrow> (tx_wal_replay_record list \<times> tx_replay_bridge_evidence) andromeda_result" where
  "map_checked_wal_evidence_to_tx_replay records =
     and_then (adapter_records_of [] records) (\<lambda>as.
     and_then (map_tx_wal_replay_records (sort_key adapter_lsn as)) (\<lambda>replay_records.
       Inr (replay_records,
         \<lparr>source_records = length records, adapter_records = length as,
          replayed_commits = length (filter (\<lambda>r. case r of ReplayCommit _ \<Rightarrow> True | _ \<Rightarrow> False) replay_records),
          replayed_rollbacks = length (filter (\<lambda>r. case r of ReplayRollback _ \<Rightarrow> True | _ \<Rightarrow> False) replay_records),
          replayed_incomplete =
            length (filter (\<lambda>r. case r of ReplayIncomplete _ _ \<Rightarrow> True | _ \<Rightarrow> False) replay_records)\<rparr>)))"

text \<open>\<open>DurableTransactionWalPrefix::new\<close>: every record is valid and within the durable prefix.\<close>

fun durable_prefix_new :: "wal_record list \<Rightarrow> lsn \<Rightarrow> unit andromeda_result" where
  "durable_prefix_new [] durable = Inr ()"
| "durable_prefix_new (r # rs) durable =
     and_then (record_validate r) (\<lambda>_.
       if record_lsn r > durable
       then Inl (storage_error ''transaction WAL replay evidence contains a non-durable source record'')
       else durable_prefix_new rs durable)"

definition tx_replay_from_file_wal ::
    "file_wal \<Rightarrow> (tx_wal_replay_record list \<times> tx_replay_bridge_evidence) andromeda_result" where
  "tx_replay_from_file_wal w =
     and_then (durable_prefix_new (file_wal_durable_records w) (fw_durable_lsn w)) (\<lambda>_.
       map_checked_wal_evidence_to_tx_replay (file_wal_durable_records w))"

end
