(* ===== verification/Tx_Replay_Props.thy ===== *)
theory Tx_Replay_Props
  imports Tx_Replay
begin

text \<open>
  What the replay of a log returns. A log is orderly when every transaction begins once, before its
  other records, and has at most one terminal record, its last one. The replay accepts exactly the orderly
  logs, and rebuilds from them exactly the outcomes that their terminal records state.
\<close>

section \<open>Orderly logs\<close>

abbreviation rec_tx :: "wal_record \<Rightarrow> u64 option" where
  "rec_tx r \<equiv> rec_transaction_id (rec_header r)"

abbreviation kind_of :: "wal_record \<Rightarrow> wal_record_kind" where
  "kind_of r \<equiv> rec_kind (rec_header r)"

definition terminal_kind :: "wal_record_kind \<Rightarrow> bool" where
  "terminal_kind k \<longleftrightarrow> k = TxCommit \<or> k = TxRollback"

fun last_record :: "u64 \<Rightarrow> wal_record list \<Rightarrow> wal_record option" where
  "last_record tx [] = None"
| "last_record tx (r # rs) =
     (case last_record tx rs of Some s \<Rightarrow> Some s | None \<Rightarrow> if rec_tx r = Some tx then Some r else None)"

definition open_in :: "u64 \<Rightarrow> wal_record list \<Rightarrow> bool" where
  "open_in tx rs \<longleftrightarrow> (case last_record tx rs of None \<Rightarrow> False | Some r \<Rightarrow> \<not> terminal_kind (kind_of r))"

text \<open>The payload of a terminal record has the length and the isolation code that the bridge expects.\<close>

definition payload_readable :: "wal_record \<Rightarrow> bool" where
  "payload_readable r \<longleftrightarrow>
     (kind_of r = TxCommit \<longrightarrow> length (rec_payload r) = 25 \<and> rec_payload r ! 0 \<in> {1, 2}) \<and>
     (kind_of r = TxRollback \<longrightarrow> length (rec_payload r) = 16)"

definition admissible :: "wal_record list \<Rightarrow> wal_record \<Rightarrow> bool" where
  "admissible rs r \<longleftrightarrow>
     payload_readable r \<and>
     (case rec_tx r of
        None \<Rightarrow> kind_of r \<noteq> TxBegin \<and> \<not> terminal_kind (kind_of r)
      | Some tx \<Rightarrow> tx \<noteq> 0 \<and> (if kind_of r = TxBegin then last_record tx rs = None else open_in tx rs))"

fun orderly_after :: "wal_record list \<Rightarrow> wal_record list \<Rightarrow> bool" where
  "orderly_after pre [] \<longleftrightarrow> True"
| "orderly_after pre (r # rs) \<longleftrightarrow> admissible pre r \<and> orderly_after (pre @ [r]) rs"

abbreviation orderly :: "wal_record list \<Rightarrow> bool" where
  "orderly rs \<equiv> orderly_after [] rs"

lemma orderly_after_append [simp]:
  "orderly_after pre (rs @ rs') \<longleftrightarrow> orderly_after pre rs \<and> orderly_after (pre @ rs) rs'"
  by (induction rs arbitrary: pre) auto

lemma orderly_take: "orderly rs \<Longrightarrow> orderly (take n rs)"
  by (metis append_take_drop_id orderly_after_append)

lemma last_record_snoc [simp]:
  "last_record tx (rs @ [r]) = (if rec_tx r = Some tx then Some r else last_record tx rs)"
  by (induction rs) (auto split: option.splits)

lemma last_record_in: "last_record tx rs = Some r \<Longrightarrow> r \<in> set rs \<and> rec_tx r = Some tx"
  by (induction rs) (auto split: option.splits if_splits)

lemma last_record_None: "last_record tx rs = None \<longleftrightarrow> \<not> mentions_transaction tx rs"
  by (induction rs) (auto simp: mentions_transaction_def is_for_transaction_def split: option.splits)

text \<open>In an orderly log the terminal record of a transaction is its last record.\<close>

lemma orderly_terminal:
  assumes "orderly rs" and "terminal_kind k"
  shows "has_kind tx k rs \<longleftrightarrow> (\<exists>r. last_record tx rs = Some r \<and> kind_of r = k)"
  using assms(1)
proof (induction rs rule: rev_induct)
  case (snoc r rs)
  then have IH: "has_kind tx k rs \<longleftrightarrow> (\<exists>s. last_record tx rs = Some s \<and> kind_of s = k)"
    and adm: "admissible rs r" by simp_all
  have snoc_kind: "has_kind tx k (rs @ [r]) \<longleftrightarrow> has_kind tx k rs \<or> rec_tx r = Some tx \<and> kind_of r = k"
    by (auto simp: has_kind_def is_for_transaction_def)
  show ?case
  proof (cases "rec_tx r = Some tx")
    case True
    with adm have "last_record tx rs = None \<or> open_in tx rs" by (auto simp: admissible_def split: if_splits)
    then have "\<not> has_kind tx k rs" using IH assms(2) by (auto simp: open_in_def split: option.splits)
    then show ?thesis using True snoc_kind by simp
  qed (use IH snoc_kind in simp)
qed (simp add: has_kind_def)

section \<open>Adapter records\<close>

lemma adapter_record_of_cases:
  "adapter_record_of r =
     (if kind_of r = TxBegin
      then and_then (required_tx_id r) (\<lambda>tx. Inr (Some (adapter_boundary AdapterBegin tx (record_lsn r))))
      else if kind_of r = TxCommit
      then and_then (decode_commit_payload (rec_payload r)) (\<lambda>(isolation, rows, h).
          and_then (required_tx_id r) (\<lambda>tx.
            Inr (Some (with_commit_metadata (adapter_terminal AdapterCommit tx (record_lsn r) 0) rows isolation h))))
      else if kind_of r = TxRollback
      then and_then (decode_rollback_payload (rec_payload r)) (\<lambda>h.
          and_then (required_tx_id r) (\<lambda>tx.
            Inr (Some (with_parameter_hash (adapter_terminal AdapterRollback tx (record_lsn r) 0) h))))
      else Inr (if rec_tx r \<noteq> None then Some (adapter_other (record_lsn r) (rec_tx r)) else None))"
  by (cases "kind_of r") (simp_all add: adapter_record_of_def)

lemma required_tx_id_iff: "required_tx_id r = Inr tx \<longleftrightarrow> rec_tx r = Some tx \<and> tx \<noteq> 0"
  by (auto simp: required_tx_id_def split: option.splits if_splits)

lemma read_u64_le_within: "offset + 8 \<le> length payload \<Longrightarrow> \<exists>v. read_u64_le payload offset = Inr v"
  by (simp add: read_u64_le_def get_range_def)

lemma decode_commit_payload_iff:
  "(\<exists>v. decode_commit_payload p = Inr v) \<longleftrightarrow> length p = 25 \<and> p ! 0 \<in> {1, 2}"
  using read_u64_le_within [of 1 p] read_u64_le_within [of 9 p]
  by (auto simp: decode_commit_payload_def)

lemma decode_rollback_payload_iff: "(\<exists>v. decode_rollback_payload p = Inr v) \<longleftrightarrow> length p = 16"
  using read_u64_le_within [of 0 p] by (auto simp: decode_rollback_payload_def)

text \<open>What the state of a transaction is after its last record.\<close>

definition state_of :: "wal_record \<Rightarrow> replay_state" where
  "state_of r =
     \<lparr>state_last_lsn = record_lsn r,
      state_terminal = (if terminal_kind (kind_of r) then projr (adapter_record_of r) else None)\<rparr>"

definition states_match :: "wal_record list \<Rightarrow> (u64 \<times> replay_state) list \<Rightarrow> bool" where
  "states_match rs states \<longleftrightarrow>
     btree_inv states \<and> (\<forall>tx. map_of states tx = map_option state_of (last_record tx rs)) \<and>
     (\<forall>tx r. last_record tx rs = Some r \<longrightarrow> tx \<noteq> 0 \<and> payload_readable r)"

definition replay_log_record :: "(u64 \<times> replay_state) list \<Rightarrow> wal_record \<Rightarrow> (u64 \<times> replay_state) list andromeda_result" where
  "replay_log_record states r =
     and_then (adapter_record_of r) (\<lambda>a.
       case a of None \<Rightarrow> Inr states | Some a \<Rightarrow> replay_adapter_record states a)"

lemma states_match_insert:
  assumes "states_match rs states" and "rec_tx r = Some tx" and "tx \<noteq> 0" and "payload_readable r" and "s = state_of r"
  shows "states_match (rs @ [r]) (btree_insert tx s states)"
  using assms by (auto simp: states_match_def btree_map.get_put btree_map.invar_put)

lemma states_match_skip:
  "states_match rs states \<Longrightarrow> rec_tx r = None \<Longrightarrow> states_match (rs @ [r]) states"
  by (simp add: states_match_def)

lemma states_match_get: "states_match rs states \<Longrightarrow> map_of states tx = map_option state_of (last_record tx rs)"
  by (simp add: states_match_def)

lemma terminal_adapter:
  assumes "terminal_kind (kind_of r)" and "adapter_record_of r = Inr a'"
  shows "\<exists>a tx. a' = Some a \<and> adapter_kind a = (if kind_of r = TxCommit then AdapterCommit else AdapterRollback) \<and>
    adapter_tx_id a = Some tx \<and> rec_tx r = Some tx \<and> tx \<noteq> 0 \<and> adapter_lsn a = record_lsn r \<and>
    adapter_durable_lsn a = record_lsn r \<and> adapter_timestamp a = 0 \<and> payload_readable r"
  using assms decode_commit_payload_iff [of "rec_payload r"] decode_rollback_payload_iff [of "rec_payload r"]
  by (auto simp: adapter_record_of_cases terminal_kind_def and_then_eq_Inr_iff required_tx_id_iff with_commit_metadata_def
      with_parameter_hash_def adapter_terminal_def adapter_boundary_def payload_readable_def split: if_splits prod.splits)

lemma readable_adapter:
  assumes "payload_readable r" and "rec_tx r = Some tx" and "tx \<noteq> 0"
  shows "\<exists>a. adapter_record_of r = Inr a"
proof -
  have "required_tx_id r = Inr tx" using assms(2,3) by (simp add: required_tx_id_iff)
  then show ?thesis
    using assms(1) decode_commit_payload_iff [of "rec_payload r"] decode_rollback_payload_iff [of "rec_payload r"]
    by (auto simp: payload_readable_def adapter_record_of_cases)
qed

section \<open>One record\<close>

definition step_agrees :: "wal_record list \<Rightarrow> (u64 \<times> replay_state) list \<Rightarrow> wal_record \<Rightarrow> bool" where
  "step_agrees rs states r \<longleftrightarrow>
     (if admissible rs r then \<exists>st. replay_log_record states r = Inr st \<and> states_match (rs @ [r]) st
      else \<exists>e. replay_log_record states r = Inl e)"

lemma step_agrees_begin:
  assumes "states_match rs states" and "kind_of r = TxBegin"
  shows "step_agrees rs states r"
proof (cases "required_tx_id r")
  case (Inl e)
  then have "\<not> admissible rs r" using assms(2) required_tx_id_iff [of r]
    by (auto simp: admissible_def split: option.splits)
  then show ?thesis using Inl assms(2) by (simp add: step_agrees_def replay_log_record_def adapter_record_of_cases)
next
  case (Inr tx)
  then have tx: "rec_tx r = Some tx" "tx \<noteq> 0" by (simp_all add: required_tx_id_iff)
  have "admissible rs r \<longleftrightarrow> map_of states tx = None"
    using tx assms by (simp add: admissible_def payload_readable_def states_match_get)
  moreover have "states_match (rs @ [r]) (btree_insert tx \<lparr>state_last_lsn = record_lsn r, state_terminal = None\<rparr> states)"
    using assms tx by (intro states_match_insert) (simp_all add: state_of_def terminal_kind_def payload_readable_def)
  ultimately show ?thesis
    using Inr assms(2)
    by (simp add: step_agrees_def replay_log_record_def adapter_record_of_cases replay_adapter_record_def
        adapter_boundary_def replay_tx_id_def)
qed

lemma unreadable_terminal_refused:
  assumes "terminal_kind (kind_of r)" and "adapter_record_of r = Inl e"
  shows "step_agrees rs states r"
proof -
  have "\<not> admissible rs r"
  proof
    assume "admissible rs r"
    then have "payload_readable r" "\<exists>tx. rec_tx r = Some tx \<and> tx \<noteq> 0"
      using assms(1) by (auto simp: admissible_def split: option.splits)
    then show False using readable_adapter assms(2) by fastforce
  qed
  then show ?thesis using assms(2) by (simp add: step_agrees_def replay_log_record_def)
qed

lemma replay_terminal_record:
  assumes "adapter_record_of r = Inr (Some a)" and "adapter_tx_id a = Some tx"
    and "adapter_kind a = AdapterCommit \<or> adapter_kind a = AdapterRollback"
    and "adapter_lsn a = record_lsn r" and "adapter_durable_lsn a = record_lsn r"
  shows "replay_log_record states r =
      (case map_of states tx of
         None \<Rightarrow> Inl (transaction_error ''transaction WAL replay record has no TxBegin'')
       | Some s \<Rightarrow>
           and_then (validate_replay_lsn_order s (record_lsn r)) (\<lambda>s.
             case state_terminal s of
               Some existing \<Rightarrow>
                 if existing \<noteq> a
                 then Inl (transaction_error ''transaction WAL replay saw conflicting terminal records'')
                 else Inr (btree_insert tx s states)
             | None \<Rightarrow> Inr (btree_insert tx (s\<lparr>state_terminal := Some a\<rparr>) states)))"
  using assms by (cases "map_of states tx") (auto simp: replay_log_record_def replay_adapter_record_def
      replay_tx_id_def validate_terminal_durable_coverage_def)

lemma step_agrees_terminal:
  assumes "states_match rs states" and "terminal_kind (kind_of r)" and "\<forall>s \<in> set rs. record_lsn s < record_lsn r"
  shows "step_agrees rs states r"
proof (cases "adapter_record_of r")
  case (Inl e)
  then show ?thesis by (rule unreadable_terminal_refused [OF assms(2)])
next
  case (Inr a')
  from terminal_adapter [OF assms(2) Inr] obtain a tx where a: "a' = Some a"
      "adapter_kind a = (if kind_of r = TxCommit then AdapterCommit else AdapterRollback)" "adapter_tx_id a = Some tx"
      "rec_tx r = Some tx" "tx \<noteq> 0" "adapter_lsn a = record_lsn r" "adapter_durable_lsn a = record_lsn r"
      and readable: "payload_readable r" by blast
  have body: "adapter_record_of r = Inr (Some a)" "adapter_kind a = AdapterCommit \<or> adapter_kind a = AdapterRollback"
    using Inr a(1,2) by simp_all
  note body = replay_terminal_record [OF body(1) a(3) body(2) a(6,7), of states]
  have kind: "kind_of r \<noteq> TxBegin" using assms(2) by (auto simp: terminal_kind_def)
  show ?thesis
  proof (cases "last_record tx rs")
    case None
    then have "\<not> admissible rs r" using a kind by (simp add: admissible_def open_in_def)
    then show ?thesis using None assms(1) body by (simp add: step_agrees_def states_match_get)
  next
    case (Some s)
    then have less: "record_lsn s < record_lsn r" using last_record_in assms(3) by blast
    have state: "map_of states tx = Some (state_of s)" using Some assms(1) by (simp add: states_match_get)
    have order: "validate_replay_lsn_order (state_of s) (record_lsn r) = Inr ((state_of s)\<lparr>state_last_lsn := record_lsn r\<rparr>)"
      using less by (simp add: validate_replay_lsn_order_def state_of_def)
    have adm: "admissible rs r \<longleftrightarrow> \<not> terminal_kind (kind_of s)"
      using a kind readable Some by (simp add: admissible_def open_in_def)
    show ?thesis
    proof (cases "terminal_kind (kind_of s)")
      case False
      have "states_match (rs @ [r]) (btree_insert tx \<lparr>state_last_lsn = record_lsn r, state_terminal = Some a\<rparr> states)"
        using assms(1,2) a Inr readable by (intro states_match_insert) (simp_all add: state_of_def)
      with False adm body state order show ?thesis by (simp add: step_agrees_def state_of_def)
    next
      case True
      have "rec_tx s = Some tx" "payload_readable s" using Some last_record_in assms(1) by (auto simp: states_match_def)
      then obtain b' where b': "adapter_record_of s = Inr b'" using readable_adapter a(5) by blast
      then obtain b where "state_terminal (state_of s) = Some b" "adapter_lsn b = record_lsn s"
        using True terminal_adapter [OF True b'] by (auto simp: state_of_def)
      moreover from this less a(6) have "b \<noteq> a" by auto
      ultimately show ?thesis using True adm body state order by (simp add: step_agrees_def)
    qed
  qed
qed

lemma step_agrees_other:
  assumes "states_match rs states" and "kind_of r \<noteq> TxBegin" and "\<not> terminal_kind (kind_of r)"
    and "\<forall>s \<in> set rs. record_lsn s < record_lsn r"
  shows "step_agrees rs states r"
proof (cases "rec_tx r")
  case None
  then show ?thesis
    using assms states_match_skip
    by (simp add: step_agrees_def replay_log_record_def adapter_record_of_cases admissible_def payload_readable_def
        terminal_kind_def)
next
  case (Some tx)
  have body: "replay_log_record states r = replay_adapter_record states (adapter_other (record_lsn r) (Some tx))"
    using assms(2,3) Some by (simp add: replay_log_record_def adapter_record_of_cases terminal_kind_def)
  have readable: "payload_readable r" using assms(3) by (simp add: payload_readable_def terminal_kind_def)
  show ?thesis
  proof (cases "last_record tx rs")
    case None
    then show ?thesis
      using assms(1,2) Some
      by (simp add: step_agrees_def body replay_adapter_record_def adapter_other_def states_match_get admissible_def open_in_def)
  next
    case (Some s)
    then have s: "record_lsn s < record_lsn r" "rec_tx s = Some tx" "payload_readable s" "tx \<noteq> 0"
      using last_record_in assms(1,4) by (auto simp: states_match_def)
    have state: "map_of states tx = Some (state_of s)" using Some assms(1) by (simp add: states_match_get)
    have terminal: "state_terminal (state_of s) = None \<longleftrightarrow> \<not> terminal_kind (kind_of s)"
      using readable_adapter [OF s(3,2,4)] terminal_adapter [of s] by (auto simp: state_of_def)
    have "states_match (rs @ [r]) (btree_insert tx ((state_of s)\<lparr>state_last_lsn := record_lsn r\<rparr>) states)"
      if "\<not> terminal_kind (kind_of s)"
      using that assms(1,3) \<open>rec_tx r = Some tx\<close> s(4) readable by (intro states_match_insert) (simp_all add: state_of_def)
    moreover have "admissible rs r \<longleftrightarrow> \<not> terminal_kind (kind_of s)"
      using assms(2) \<open>rec_tx r = Some tx\<close> s(4) readable Some by (simp add: admissible_def open_in_def)
    moreover have "validate_replay_lsn_order (state_of s) (record_lsn r) = Inr ((state_of s)\<lparr>state_last_lsn := record_lsn r\<rparr>)"
      using s(1) by (simp add: validate_replay_lsn_order_def state_of_def)
    ultimately show ?thesis
      using state terminal by (simp add: step_agrees_def body replay_adapter_record_def adapter_other_def)
  qed
qed

lemma step_agrees:
  "states_match rs states \<Longrightarrow> \<forall>s \<in> set rs. record_lsn s < record_lsn r \<Longrightarrow> step_agrees rs states r"
  using step_agrees_begin step_agrees_terminal step_agrees_other by blast

section \<open>The whole log\<close>

definition lsn_sorted :: "wal_record list \<Rightarrow> bool" where
  "lsn_sorted rs \<longleftrightarrow> sorted_wrt (\<lambda>r s. record_lsn r < record_lsn s) rs"

lemma record_chain_sorted: "record_chain None rs \<Longrightarrow> lsn_sorted rs"
  by (auto simp: lsn_sorted_def sorted_wrt_iff_nth_less word_less_nat_alt record_chain_lsn)

lemma lsn_sorted_inj: "lsn_sorted rs \<Longrightarrow> inj_on record_lsn (set rs)"
proof (induction rs)
  case (Cons r rs)
  then have "inj_on record_lsn (set rs)" "record_lsn r \<notin> record_lsn ` set rs" by (auto simp: lsn_sorted_def)
  then show ?case by (auto simp: inj_on_insert)
qed simp

lemma adapter_lsn_of: "adapter_record_of r = Inr (Some a) \<Longrightarrow> adapter_lsn a = record_lsn r"
  by (auto simp: adapter_record_of_cases and_then_eq_Inr_iff with_commit_metadata_def with_parameter_hash_def
      adapter_terminal_def adapter_boundary_def adapter_other_def split: if_splits)

lemma adapter_records_lsns:
  "adapter_records_of seen rs = Inr as \<Longrightarrow> adapter_lsn ` set as \<subseteq> record_lsn ` set rs"
  by (induction rs arbitrary: seen as)
    (auto simp: and_then_eq_Inr_iff adapter_lsn_of split: if_splits option.splits, blast+)

lemma adapter_records_sorted:
  "adapter_records_of seen rs = Inr as \<Longrightarrow> lsn_sorted rs \<Longrightarrow> sorted (map adapter_lsn as)"
proof (induction rs arbitrary: seen as)
  case (Cons r rs)
  then obtain a as' where a: "adapter_record_of r = Inr a" "adapter_records_of (record_lsn r # seen) rs = Inr as'"
      "as = (case a of None \<Rightarrow> as' | Some a \<Rightarrow> a # as')"
    by (auto simp: and_then_eq_Inr_iff split: if_splits)
  have "sorted (map adapter_lsn as')" using Cons a(2) by (simp add: lsn_sorted_def)
  moreover have "record_lsn r \<le> adapter_lsn b" if "b \<in> set as'" for b
    using that adapter_records_lsns [OF a(2)] Cons.prems(2) by (fastforce simp: lsn_sorted_def)
  ultimately show ?case using a by (auto simp: adapter_lsn_of split: option.splits)
qed simp

lemma adapter_records_total:
  assumes "orderly_after pre rs" and "list_all (\<lambda>r. record_validate r = Inr ()) rs" and "lsn_sorted rs"
    and "\<forall>r \<in> set rs. record_lsn r \<notin> set seen"
  shows "\<exists>as. adapter_records_of seen rs = Inr as"
  using assms
proof (induction rs arbitrary: pre seen)
  case (Cons r rs)
  have "\<exists>a. adapter_record_of r = Inr a"
  proof (cases "rec_tx r")
    case None
    then show ?thesis using Cons.prems(1) by (simp add: admissible_def adapter_record_of_cases terminal_kind_def)
  next
    case (Some tx)
    then show ?thesis using Cons.prems(1) readable_adapter by (auto simp: admissible_def)
  qed
  moreover have "\<exists>as. adapter_records_of (record_lsn r # seen) rs = Inr as"
    using Cons.prems by (intro Cons.IH) (auto simp: lsn_sorted_def)
  ultimately show ?case using Cons.prems by auto
qed simp

lemma replay_records_agree:
  assumes "adapter_records_of seen rs = Inr as" and "states_match pre states" and "lsn_sorted (pre @ rs)"
    and "\<And>p r. previous = Some p \<Longrightarrow> r \<in> set rs \<Longrightarrow> adapter_lsn p < record_lsn r"
  shows "if orderly_after pre rs then \<exists>st. replay_adapter_records states previous as = Inr st \<and> states_match (pre @ rs) st
    else \<exists>e. replay_adapter_records states previous as = Inl e"
  using assms
proof (induction rs arbitrary: seen as pre states previous)
  case (Cons r rs)
  then obtain a as' where a: "adapter_record_of r = Inr a" "adapter_records_of (record_lsn r # seen) rs = Inr as'"
      "as = (case a of None \<Rightarrow> as' | Some a \<Rightarrow> a # as')"
    by (auto simp: and_then_eq_Inr_iff split: if_splits)
  have less: "\<forall>s \<in> set pre. record_lsn s < record_lsn r" "\<forall>s \<in> set rs. record_lsn r < record_lsn s"
    using Cons.prems(3) by (auto simp: lsn_sorted_def sorted_wrt_append)
  have agrees: "step_agrees pre states r" using Cons.prems(2) less(1) by (rule step_agrees)
  have order: "validate_global_replay_lsn_order previous b = Inr ()" if "a = Some b" for b
    using that Cons.prems(4) adapter_lsn_of a(1) by (fastforce simp: validate_global_replay_lsn_order_def split: option.splits)
  define q where "q = (if a = None then previous else a)"
  have step: "replay_adapter_records states previous as =
      and_then (replay_log_record states r) (\<lambda>st. replay_adapter_records st q as')"
    using a order by (cases a) (simp_all add: replay_log_record_def q_def)
  show ?case
  proof (cases "admissible pre r")
    case True
    then obtain st where st: "replay_log_record states r = Inr st" "states_match (pre @ [r]) st"
      using agrees by (auto simp: step_agrees_def)
    have "if orderly_after (pre @ [r]) rs
      then \<exists>st'. replay_adapter_records st q as' = Inr st' \<and> states_match ((pre @ [r]) @ rs) st'
      else \<exists>e. replay_adapter_records st q as' = Inl e"
      using a(1) Cons.prems(3,4) less(2)
      by (intro Cons.IH [OF a(2) st(2)]) (auto simp: adapter_lsn_of q_def split: if_splits)
    with True step st(1) show ?thesis by (auto split: if_splits)
  qed (use agrees step in \<open>auto simp: step_agrees_def\<close>)
qed simp

section \<open>Outcomes\<close>

fun replay_tx :: "tx_wal_replay_record \<Rightarrow> u64" where
  "replay_tx (ReplayCommit e) = commit_tx_id e"
| "replay_tx (ReplayRollback e) = rollback_tx_id e"
| "replay_tx (ReplayIncomplete tx last_lsn) = tx"

fun replay_status :: "tx_wal_replay_record \<Rightarrow> transaction_status option" where
  "replay_status (ReplayCommit e) = Some Committed"
| "replay_status (ReplayRollback e) = Some RolledBack"
| "replay_status (ReplayIncomplete tx last_lsn) = None"

fun replay_valid :: "tx_wal_replay_record \<Rightarrow> bool" where
  "replay_valid (ReplayCommit e) \<longleftrightarrow> commit_entry_validate e = Inr ()"
| "replay_valid (ReplayRollback e) \<longleftrightarrow> rollback_entry_validate e = Inr ()"
| "replay_valid (ReplayIncomplete tx last_lsn) \<longleftrightarrow> tx \<noteq> 0 \<and> last_lsn \<noteq> 0"

text \<open>The status that the last record of a transaction states.\<close>

definition stated_status :: "wal_record \<Rightarrow> transaction_status option" where
  "stated_status r =
     (if kind_of r = TxCommit then Some Committed else if kind_of r = TxRollback then Some RolledBack else None)"

lemma replay_outcome_of:
  assumes "rec_tx r = Some tx" and "tx \<noteq> 0" and "payload_readable r" and "record_lsn r \<noteq> 0"
  shows "\<exists>out. replay_outcome (tx, state_of r) = Inr out \<and> replay_tx out = tx \<and> replay_lsn out = record_lsn r \<and>
    replay_status out = stated_status r \<and> replay_valid out"
proof (cases "terminal_kind (kind_of r)")
  case True
  obtain a' where a': "adapter_record_of r = Inr a'" using readable_adapter assms by blast
  from terminal_adapter [OF True a'] obtain a where a: "a' = Some a"
      "adapter_kind a = (if kind_of r = TxCommit then AdapterCommit else AdapterRollback)"
      "adapter_lsn a = record_lsn r" "adapter_durable_lsn a = record_lsn r" by blast
  have "state_terminal (state_of r) = Some a" using True a' a(1) by (simp add: state_of_def)
  with True a assms show ?thesis
    by (auto simp: replay_outcome_def terminal_kind_def stated_status_def commit_entry_validate_def rollback_entry_validate_def)
next
  case False
  then have "state_terminal (state_of r) = None" "stated_status r = None"
    by (auto simp: state_of_def terminal_kind_def stated_status_def)
  with assms show ?thesis by (simp add: replay_outcome_def state_of_def)
qed

lemma replay_outcomes_map:
  "\<forall>s \<in> set ss. \<exists>r. replay_outcome s = Inr r \<Longrightarrow> replay_outcomes ss = Inr (map (projr \<circ> replay_outcome) ss)"
  by (induction ss) auto

text \<open>What the replay of an orderly log returns: one valid outcome for every transaction, in order.\<close>

definition states_outcomes :: "wal_record list \<Rightarrow> tx_wal_replay_record list \<Rightarrow> bool" where
  "states_outcomes rs out \<longleftrightarrow>
     sorted_wrt (<) (map replay_lsn out) \<and> distinct (map replay_tx out) \<and> list_all replay_valid out \<and>
     (\<forall>tx st. (\<exists>o' \<in> set out. replay_tx o' = tx \<and> replay_status o' = st) \<longleftrightarrow>
        (\<exists>r. last_record tx rs = Some r \<and> stated_status r = st))"

lemma sort_key_distinct:
  fixes g :: "'a \<Rightarrow> 'b :: linorder"
  assumes "distinct (map f xs)" and "inj_on g (set xs)"
  shows "sorted_wrt (<) (map g (sort_key g xs))" and "distinct (map f (sort_key g xs))"
proof -
  have "distinct (map g (sort_key g xs))" using assms by (simp add: distinct_map)
  then show "sorted_wrt (<) (map g (sort_key g xs))" by (simp add: strict_sorted_iff)
  show "distinct (map f (sort_key g xs))" using assms(1) by (simp add: distinct_map)
qed

definition outcome_of :: "u64 \<times> replay_state \<Rightarrow> tx_wal_replay_record" where
  "outcome_of p = projr (replay_outcome p)"

text \<open>Every state of the map is the one of the last record of its transaction, and its outcome says what that record says.\<close>

lemma state_outcome:
  assumes "states_match rs states" and "\<forall>r \<in> set rs. record_lsn r \<noteq> 0" and "p \<in> set states"
  shows "replay_outcome p = Inr (outcome_of p) \<and> replay_tx (outcome_of p) = fst p \<and> replay_valid (outcome_of p) \<and>
    (\<exists>r. last_record (fst p) rs = Some r \<and> snd p = state_of r \<and> replay_lsn (outcome_of p) = record_lsn r \<and>
       replay_status (outcome_of p) = stated_status r)"
proof -
  obtain tx s where p: "p = (tx, s)" by (cases p)
  have "map_of states tx = Some s"
    using assms(1,3) btree_inv_distinct [of states] map_of_is_SomeI [of states tx s] p by (simp add: states_match_def)
  then obtain r where r: "last_record tx rs = Some r" "s = state_of r"
    using assms(1) by (auto simp: states_match_def)
  then show ?thesis
    using replay_outcome_of [of r tx] last_record_in [OF r(1)] assms(1,2) p by (fastforce simp: states_match_def outcome_of_def)
qed

lemma state_outcomes_inj:
  assumes "states_match rs states" and "\<forall>r \<in> set rs. record_lsn r \<noteq> 0" and "lsn_sorted rs"
  shows "inj_on replay_lsn (set (map outcome_of states))"
proof -
  have "p = q" if pq: "p \<in> set states" "q \<in> set states" "replay_lsn (outcome_of p) = replay_lsn (outcome_of q)" for p q
  proof -
    obtain r where r: "last_record (fst p) rs = Some r" "snd p = state_of r" "replay_lsn (outcome_of p) = record_lsn r"
      using state_outcome [OF assms(1,2) pq(1)] by blast
    obtain s where s: "last_record (fst q) rs = Some s" "snd q = state_of s" "replay_lsn (outcome_of q) = record_lsn s"
      using state_outcome [OF assms(1,2) pq(2)] by blast
    have in_log: "r \<in> set rs" "rec_tx r = Some (fst p)" "s \<in> set rs" "rec_tx s = Some (fst q)"
      using last_record_in [OF r(1)] last_record_in [OF s(1)] by auto
    then have "r = s" using lsn_sorted_inj [OF assms(3)] pq(3) r(3) s(3) by (auto dest: inj_onD)
    then show ?thesis using r(2) s(2) in_log by (simp add: prod_eq_iff)
  qed
  then show ?thesis by (auto simp: inj_on_def)
qed

lemma state_outcomes_complete:
  assumes "states_match rs states" and "\<forall>r \<in> set rs. record_lsn r \<noteq> 0"
  shows "(\<exists>p \<in> set states. replay_tx (outcome_of p) = tx \<and> replay_status (outcome_of p) = st) \<longleftrightarrow>
    (\<exists>r. last_record tx rs = Some r \<and> stated_status r = st)" (is "?l \<longleftrightarrow> ?r")
proof
  assume ?l
  then obtain p where p: "p \<in> set states" "replay_tx (outcome_of p) = tx" "replay_status (outcome_of p) = st" by blast
  from state_outcome [OF assms p(1)] p(2,3) show ?r by metis
next
  assume ?r
  then obtain r where r: "last_record tx rs = Some r" "stated_status r = st" by blast
  have "(tx, state_of r) \<in> set states" using r(1) assms(1) by (intro map_of_SomeD) (simp add: states_match_def)
  with state_outcome [OF assms this] r show ?l by force
qed

lemma outcomes_of_states:
  assumes "states_match rs states" and "lsn_sorted rs" and "\<forall>r \<in> set rs. record_lsn r \<noteq> 0"
  shows "\<exists>out. replay_outcomes states = Inr out \<and> states_outcomes rs (sort_key replay_lsn out)"
proof -
  let ?out = "map outcome_of states"
  note outcome = state_outcome [OF assms(1,3)]
  have eq: "replay_outcomes states = Inr ?out"
    using replay_outcomes_map [of states] outcome by (fastforce simp: comp_def outcome_of_def)
  have tx: "\<And>p. p \<in> set states \<Longrightarrow> replay_tx (outcome_of p) = fst p" and valid: "list_all replay_valid ?out"
    using outcome by (blast, simp add: list_all_iff)
  have "map replay_tx ?out = map fst states" using tx by simp
  then have "distinct (map replay_tx ?out)" using assms(1) by (simp only: states_match_def btree_inv_distinct)
  note sorted = sort_key_distinct [OF this state_outcomes_inj [OF assms(1,3,2)]]
  have "states_outcomes rs (sort_key replay_lsn ?out)"
    unfolding states_outcomes_def using sorted valid state_outcomes_complete [OF assms(1,3)]
    by (simp add: list_all_iff)
  with eq show ?thesis by blast
qed

section \<open>Reconstruction\<close>

definition unknown_to :: "commit_log \<Rightarrow> u64 \<Rightarrow> bool" where
  "unknown_to l tx \<longleftrightarrow>
     map_of (commit_entries l) tx = None \<and> map_of (rollback_entries l) tx = None \<and> status (log_status l) tx = None"

lemma compatible_unknown: "unknown_to l tx \<Longrightarrow> validate_terminal_status_compatible (log_status l) tx st = Inr ()"
  by (simp add: unknown_to_def validate_terminal_status_compatible_def)

lemma entry_tx_nonzero:
  "commit_entry_validate e = Inr () \<Longrightarrow> commit_tx_id e \<noteq> 0" "rollback_entry_validate f = Inr () \<Longrightarrow> rollback_tx_id f \<noteq> 0"
  by (auto simp: commit_entry_validate_def rollback_entry_validate_def split: if_splits)

lemma commit_candidate_unknown:
  assumes "unknown_to l (commit_tx_id e)" and "commit_entry_validate e = Inr ()"
    and "map_of commits (commit_tx_id e) = None" and "map_of rollbacks (commit_tx_id e) = None"
  shows "validate_replay_commit_candidate l e commits rollbacks = Inr (btree_insert (commit_tx_id e) e commits)"
  using assms compatible_unknown [OF assms(1)] entry_tx_nonzero(1) [OF assms(2)]
  by (simp add: validate_replay_commit_candidate_def validate_log_transaction_id_def unknown_to_def)

lemma rollback_candidate_unknown:
  assumes "unknown_to l (rollback_tx_id e)" and "rollback_entry_validate e = Inr ()"
    and "map_of commits (rollback_tx_id e) = None" and "map_of rollbacks (rollback_tx_id e) = None"
  shows "validate_replay_rollback_candidate l e commits rollbacks = Inr (btree_insert (rollback_tx_id e) e rollbacks)"
  using assms compatible_unknown [OF assms(1)] entry_tx_nonzero(2) [OF assms(2)]
  by (simp add: validate_replay_rollback_candidate_def validate_log_transaction_id_def unknown_to_def)

lemma distinct_map_other: "distinct (map f (x # xs)) \<Longrightarrow> y \<in> set xs \<Longrightarrow> f y \<noteq> f x"
  by (auto simp: image_iff)

lemma validate_batch_unknown:
  assumes "sorted_wrt (<) (map replay_lsn out)" and "distinct (map replay_tx out)" and "list_all replay_valid out"
    and "\<And>o'. o' \<in> set out \<Longrightarrow> unknown_to l (replay_tx o')"
    and "\<And>o'. o' \<in> set out \<Longrightarrow> map_of commits (replay_tx o') = None \<and> map_of rollbacks (replay_tx o') = None"
    and "\<And>p o'. previous = Some p \<Longrightarrow> o' \<in> set out \<Longrightarrow> replay_lsn p < replay_lsn o'"
  shows "validate_replay_batch_from l previous commits rollbacks out = Inr ()"
  using assms
proof (induction out arbitrary: previous commits rollbacks)
  case (Cons o' out)
  have order: "validate_replay_lsn_progression previous o' = Inr ()"
    using Cons.prems(6) [of _ o'] by (auto simp: validate_replay_lsn_progression_def split: option.splits)
  have IH: "validate_replay_batch_from l (Some o') commits' rollbacks' out = Inr ()"
    if "\<And>q. q \<in> set out \<Longrightarrow> map_of commits' (replay_tx q) = None \<and> map_of rollbacks' (replay_tx q) = None"
    for commits' rollbacks'
    using that Cons.prems by (intro Cons.IH) auto
  have other: "replay_tx q \<noteq> replay_tx o'" if "q \<in> set out" for q
    using Cons.prems(2) that by (rule distinct_map_other)
  show ?case
  proof (cases o')
    case (ReplayCommit e)
    then show ?thesis
      using order other Cons.prems(3) Cons.prems(4,5) [of o'] Cons.prems(5)
      by (auto simp: commit_candidate_unknown map_of_btree_insert intro!: IH [unfolded ReplayCommit])
  next
    case (ReplayRollback e)
    then show ?thesis
      using order other Cons.prems(3) Cons.prems(4,5) [of o'] Cons.prems(5)
      by (auto simp: rollback_candidate_unknown map_of_btree_insert intro!: IH [unfolded ReplayRollback])
  next
    case (ReplayIncomplete tx last_lsn)
    then show ?thesis
      using order Cons.prems(3,5)
      by (auto simp: validate_incomplete_replay_record_def validate_log_transaction_id_def
          intro!: IH [unfolded ReplayIncomplete])
  qed
qed simp

text \<open>What the replay of an outcome does to a log that does not know the transaction.\<close>

fun apply_outcome :: "tx_wal_replay_record \<Rightarrow> commit_log \<Rightarrow> commit_log" where
  "apply_outcome (ReplayCommit e) l =
     l\<lparr>commit_entries := AList.update (commit_tx_id e) e (commit_entries l),
       log_status := btree_insert (commit_tx_id e) Committed (log_status l)\<rparr>"
| "apply_outcome (ReplayRollback e) l =
     l\<lparr>rollback_entries := AList.update (rollback_tx_id e) e (rollback_entries l),
       log_status := btree_insert (rollback_tx_id e) RolledBack (log_status l)\<rparr>"
| "apply_outcome (ReplayIncomplete tx last_lsn) l = l"

fun outcome_action :: "tx_wal_replay_record \<Rightarrow> tx_wal_replay_action" where
  "outcome_action (ReplayCommit e) = CommitRestored"
| "outcome_action (ReplayRollback e) = RollbackRestored"
| "outcome_action (ReplayIncomplete tx last_lsn) = IncompleteIgnored"

lemma replay_unknown:
  assumes "unknown_to l (replay_tx o')" and "replay_valid o'"
  shows "replay_tx_wal_record l o' = (apply_outcome o' l, Inr (outcome_action o'))"
proof (cases o')
  case (ReplayCommit e)
  then show ?thesis
    using assms entry_tx_nonzero(1) [of e] compatible_unknown [OF assms(1)]
    by (simp add: replay_commit_record_def validate_log_transaction_id_def unknown_to_def
        restore_terminal_from_validated_replay_def validate_status_transaction_id_def is_terminal_def
        record_validated_terminal_status_def validate_terminal_status_def)
next
  case (ReplayRollback e)
  then show ?thesis
    using assms entry_tx_nonzero(2) [of e] compatible_unknown [OF assms(1)]
    by (simp add: replay_rollback_record_def validate_log_transaction_id_def unknown_to_def
        restore_terminal_from_validated_replay_def validate_status_transaction_id_def is_terminal_def
        record_validated_terminal_status_def validate_terminal_status_def)
next
  case (ReplayIncomplete tx last_lsn)
  then show ?thesis
    using assms by (simp add: validate_incomplete_replay_record_def validate_log_transaction_id_def)
qed

lemma apply_outcome_unknown:
  "unknown_to l tx \<Longrightarrow> tx \<noteq> replay_tx o' \<Longrightarrow> unknown_to (apply_outcome o' l) tx"
  by (cases o') (auto simp: unknown_to_def status_def map_of_btree_insert update_conv')

lemma replay_records_unknown:
  assumes "distinct (map replay_tx out)" and "list_all replay_valid out"
    and "\<And>o'. o' \<in> set out \<Longrightarrow> unknown_to l (replay_tx o')"
  shows "replay_records_from l s out =
    (fold apply_outcome out l, Inr (fold (\<lambda>o' s. summary_record_action s (outcome_action o')) out s))"
  using assms
proof (induction out arbitrary: l s)
  case (Cons o' out)
  have "unknown_to (apply_outcome o' l) (replay_tx q)" if "q \<in> set out" for q
    using that Cons.prems(3) distinct_map_other [OF Cons.prems(1) that] by (simp add: apply_outcome_unknown)
  then show ?case using Cons by (simp add: replay_unknown)
qed simp

lemma apply_outcome_status:
  assumes "btree_inv (log_status l)"
  shows "btree_inv (log_status (apply_outcome o' l))"
    and "status (log_status (apply_outcome o' l)) tx =
      (if tx = replay_tx o' \<and> replay_status o' \<noteq> None then replay_status o' else status (log_status l) tx)"
  using assms by (cases o'; simp add: btree_map.invar_put)+

lemma fold_outcome_status:
  assumes "btree_inv (log_status l)" and "distinct (map replay_tx out)"
  shows "btree_inv (log_status (fold apply_outcome out l)) \<and>
    (\<forall>tx. tx \<notin> replay_tx ` set out \<longrightarrow> status (log_status (fold apply_outcome out l)) tx = status (log_status l) tx) \<and>
    (\<forall>o' \<in> set out. status (log_status l) (replay_tx o') = None \<longrightarrow>
       status (log_status (fold apply_outcome out l)) (replay_tx o') = replay_status o')"
  using assms
proof (induction out arbitrary: l)
  case (Cons o' out)
  have inv: "btree_inv (log_status (apply_outcome o' l))" using Cons.prems(1) by (rule apply_outcome_status)
  have new: "replay_tx q \<noteq> replay_tx o'" if "q \<in> set out" for q
    using Cons.prems(2) that by (rule distinct_map_other)
  from Cons.IH [OF inv] Cons.prems(2) new show ?case
    by (auto simp: apply_outcome_status [OF Cons.prems(1)])
qed simp

lemma fold_outcome_entries:
  "map_of (commit_entries (fold apply_outcome out l)) tx = Some e \<Longrightarrow>
     map_of (commit_entries l) tx = Some e \<or> ReplayCommit e \<in> set out \<and> commit_tx_id e = tx"
  "map_of (rollback_entries (fold apply_outcome out l)) tx = Some f \<Longrightarrow>
     map_of (rollback_entries l) tx = Some f \<or> ReplayRollback f \<in> set out \<and> rollback_tx_id f = tx"
  "log_wal (fold apply_outcome out l) = log_wal l"
proof -
  show "map_of (commit_entries (fold apply_outcome out l)) tx = Some e \<Longrightarrow>
     map_of (commit_entries l) tx = Some e \<or> ReplayCommit e \<in> set out \<and> commit_tx_id e = tx"
  proof (induction out arbitrary: l)
    case (Cons o' out)
    then show ?case by (cases o') (fastforce simp: update_conv' split: if_splits)+
  qed simp
  show "map_of (rollback_entries (fold apply_outcome out l)) tx = Some f \<Longrightarrow>
     map_of (rollback_entries l) tx = Some f \<or> ReplayRollback f \<in> set out \<and> rollback_tx_id f = tx"
  proof (induction out arbitrary: l)
    case (Cons o' out)
    then show ?case by (cases o') (fastforce simp: update_conv' split: if_splits)+
  qed simp
  show "log_wal (fold apply_outcome out l) = log_wal l"
  proof (induction out arbitrary: l)
    case (Cons o' out)
    then show ?case by (cases o') simp_all
  qed simp
qed

definition outcome_counts :: "tx_wal_replay_record list \<Rightarrow> tx_wal_replay_summary" where
  "outcome_counts out =
     \<lparr>commits_restored = length (filter (\<lambda>r. case r of ReplayCommit _ \<Rightarrow> True | _ \<Rightarrow> False) out),
      rollbacks_restored = length (filter (\<lambda>r. case r of ReplayRollback _ \<Rightarrow> True | _ \<Rightarrow> False) out),
      duplicate_commits = 0, duplicate_rollbacks = 0,
      incomplete_transactions = length (filter (\<lambda>r. case r of ReplayIncomplete _ _ \<Rightarrow> True | _ \<Rightarrow> False) out)\<rparr>"

lemma fold_outcome_summary:
  "fold (\<lambda>o' s. summary_record_action s (outcome_action o')) out s =
     (let c = outcome_counts out in
      \<lparr>commits_restored = commits_restored s + commits_restored c,
       rollbacks_restored = rollbacks_restored s + rollbacks_restored c,
       duplicate_commits = duplicate_commits s, duplicate_rollbacks = duplicate_rollbacks s,
       incomplete_transactions = incomplete_transactions s + incomplete_transactions c\<rparr>)"
proof (induction out arbitrary: s)
  case (Cons o' out)
  then show ?case by (cases o') (simp_all add: outcome_counts_def Let_def)
qed (simp add: outcome_counts_def)

lemma reconstruct_unknown:
  assumes "states_outcomes rs out" and "\<And>tx. unknown_to l tx"
  shows "reconstruct_from_tx_wal_replay l out = (fold apply_outcome out l, Inr (outcome_counts out))"
proof -
  have "validate_tx_wal_replay_batch l out = Inr ()"
    unfolding validate_tx_wal_replay_batch_def
    using assms by (intro validate_batch_unknown) (auto simp: states_outcomes_def)
  moreover have "replay_records_from l s out =
      (fold apply_outcome out l, Inr (fold (\<lambda>o' s. summary_record_action s (outcome_action o')) out s))" for s
    using assms by (intro replay_records_unknown) (auto simp: states_outcomes_def)
  ultimately show ?thesis
    by (simp add: reconstruct_from_tx_wal_replay_def fold_outcome_summary Let_def outcome_counts_def)
qed

lemma evidence_exact:
  assumes "record_chain None rs" and "list_all (\<lambda>r. record_validate r = Inr ()) rs"
  shows "if orderly rs
    then \<exists>out ev. map_checked_wal_evidence_to_tx_replay rs = Inr (out, ev) \<and> states_outcomes rs out \<and>
      source_records ev = length rs \<and> replayed_commits ev = commits_restored (outcome_counts out) \<and>
      replayed_rollbacks ev = rollbacks_restored (outcome_counts out) \<and>
      replayed_incomplete ev = incomplete_transactions (outcome_counts out)
    else \<exists>e. map_checked_wal_evidence_to_tx_replay rs = Inl e"
proof -
  have lsns: "lsn_sorted rs" using assms(1) by (rule record_chain_sorted)
  have nonzero: "\<forall>r \<in> set rs. record_lsn r \<noteq> 0"
    using assms(2) by (auto simp: list_all_iff record_validate_def record_header_validate_def split: if_splits)
  show ?thesis
  proof (cases "adapter_records_of [] rs")
    case (Inl e)
    then have "\<not> orderly rs" using adapter_records_total [of "[]" rs "[]"] assms(2) lsns by auto
    then show ?thesis using Inl by (simp add: map_checked_wal_evidence_to_tx_replay_def)
  next
    case (Inr as)
    have "sorted (map adapter_lsn as)" using Inr lsns by (rule adapter_records_sorted)
    then have sort: "sort_key adapter_lsn as = as" by (rule sort_key_id_if_sorted)
    have "states_match [] []" by (simp add: states_match_def btree_inv_def)
    then have agree: "if orderly rs then \<exists>st. replay_adapter_records [] None as = Inr st \<and> states_match rs st
        else \<exists>e. replay_adapter_records [] None as = Inl e"
      using replay_records_agree [OF Inr, of "[]" "[]" None, unfolded append_Nil] lsns by simp
    show ?thesis
    proof (cases "orderly rs")
      case True
      then obtain st where st: "replay_adapter_records [] None as = Inr st" "states_match rs st" using agree by auto
      obtain out where "replay_outcomes st = Inr out" "states_outcomes rs (sort_key replay_lsn out)"
        using outcomes_of_states [OF st(2) lsns nonzero] by blast
      then show ?thesis using True Inr sort st(1)
        by (simp add: map_checked_wal_evidence_to_tx_replay_def map_tx_wal_replay_records_def outcome_counts_def)
    next
      case False
      then show ?thesis using agree Inr sort
        by (auto simp: map_checked_wal_evidence_to_tx_replay_def map_tx_wal_replay_records_def)
    qed
  qed
qed

lemma fresh_unknown: "unknown_to (commit_log_new w status_table_new) tx"
  by (simp add: unknown_to_def commit_log_new_def)

lemma rebuilt_status:
  assumes "states_outcomes rs out" and "orderly rs"
  shows "status (log_status (fold apply_outcome out (commit_log_new w status_table_new))) tx =
    (if has_kind tx TxCommit rs then Some Committed else if has_kind tx TxRollback rs then Some RolledBack else None)"
proof -
  let ?l = "commit_log_new w status_table_new"
  have distinct: "distinct (map replay_tx out)" using assms(1) by (simp add: states_outcomes_def)
  have inv: "btree_inv (log_status ?l)" by (simp add: commit_log_new_def status_table_new_def btree_inv_def)
  note fold = fold_outcome_status [OF inv distinct]
  have none: "status (log_status ?l) tx = None" for tx using fresh_unknown by (simp add: unknown_to_def)
  have kinds: "has_kind tx k rs \<longleftrightarrow> (\<exists>r. last_record tx rs = Some r \<and> kind_of r = k)"
    if "k = TxCommit \<or> k = TxRollback" for k
    using orderly_terminal [OF assms(2)] that by (simp add: terminal_kind_def)
  show ?thesis
  proof (cases "last_record tx rs")
    case None
    then have "\<not> (\<exists>o' \<in> set out. replay_tx o' = tx)"
      using assms(1) unfolding states_outcomes_def by (metis option.distinct(1))
    then show ?thesis using fold none kinds None by force
  next
    case (Some r)
    then obtain o' where "o' \<in> set out" "replay_tx o' = tx" "replay_status o' = stated_status r"
      using assms(1) unfolding states_outcomes_def by metis
    with fold none Some kinds show ?thesis by (auto simp: stated_status_def)
  qed
qed

section \<open>Properties\<close>

text \<open>
  C4. Recovery of transaction outcomes is exact. On the records of a log the bridge answers if and only if
  the log is orderly. Then the reconstruction into an empty commit log succeeds, its counts are those of the
  bridge, and the status table says committed exactly of the transactions with a commit record, rolled back
  exactly of those with a rollback record, and nothing of all others.
\<close>

theorem replay_rebuilds_outcomes:
  assumes "record_chain None rs" and "list_all (\<lambda>r. record_validate r = Inr ()) rs"
  shows "if orderly rs
    then \<exists>out ev l s. map_checked_wal_evidence_to_tx_replay rs = Inr (out, ev) \<and>
      reconstruct_from_tx_wal_replay (commit_log_new w status_table_new) out = (l, Inr s) \<and>
      commits_restored s = replayed_commits ev \<and> rollbacks_restored s = replayed_rollbacks ev \<and>
      incomplete_transactions s = replayed_incomplete ev \<and> duplicate_commits s = 0 \<and> duplicate_rollbacks s = 0 \<and>
      (\<forall>tx. status (log_status l) tx =
         (if has_kind tx TxCommit rs then Some Committed
          else if has_kind tx TxRollback rs then Some RolledBack else None))
    else \<exists>e. map_checked_wal_evidence_to_tx_replay rs = Inl e"
proof (cases "orderly rs")
  case True
  then obtain out ev where ev: "map_checked_wal_evidence_to_tx_replay rs = Inr (out, ev)" "states_outcomes rs out"
      "replayed_commits ev = commits_restored (outcome_counts out)"
      "replayed_rollbacks ev = rollbacks_restored (outcome_counts out)"
      "replayed_incomplete ev = incomplete_transactions (outcome_counts out)"
    using evidence_exact [OF assms] by auto
  have "duplicate_commits (outcome_counts out) = 0" "duplicate_rollbacks (outcome_counts out) = 0"
    by (simp_all add: outcome_counts_def)
  with True ev reconstruct_unknown [OF ev(2) fresh_unknown] rebuilt_status [OF ev(2) True] show ?thesis by simp
qed (use evidence_exact [OF assms] in simp)

text \<open>A log of one transaction that commits.\<close>

definition committed_log :: "wal_record list" where
  "committed_log = [sample_begin, sample_record TxCommit 2 (Some 1) (Some 7) (encode_commit_payload Snapshot 3 4)]"

lemma committed_log_chain:
  "record_chain None committed_log" "list_all (\<lambda>r. record_validate r = Inr ()) committed_log"
proof -
  show "record_chain None committed_log"
    by (simp add: committed_log_def sample_begin_def sample_record_def try_next_lsn_def lsn_try_next_def
        lsn_checked_next_def)
  show "list_all (\<lambda>r. record_validate r = Inr ()) committed_log"
    by (simp add: committed_log_def sample_begin_def sample_record_def record_validate_def record_header_validate_def
        requires_transaction_id_def wal_record_checksum_pos word_le_nat_alt)
qed

lemma committed_log_orderly: "orderly committed_log"
  by (simp add: committed_log_def sample_begin_def sample_record_def admissible_def payload_readable_def
      encode_commit_payload_def terminal_kind_def open_in_def)

theorem replay_rebuilds_outcomes_witness:
  "\<exists>out ev l s. map_checked_wal_evidence_to_tx_replay committed_log = Inr (out, ev) \<and>
     reconstruct_from_tx_wal_replay (commit_log_new file_wal_new status_table_new) out = (l, Inr s) \<and>
     status (log_status l) 7 = Some Committed \<and> status (log_status l) 8 = None"
proof -
  have "has_kind 7 TxCommit committed_log" "\<not> has_kind 8 TxCommit committed_log" "\<not> has_kind 8 TxRollback committed_log"
    by (simp_all add: has_kind_def committed_log_def is_for_transaction_def sample_begin_def sample_record_def)
  then show ?thesis
    using replay_rebuilds_outcomes [OF committed_log_chain, of file_wal_new] committed_log_orderly by auto
qed

end
