(* ===== verification/File_Wal_Progress.thy ===== *)
theory File_Wal_Progress
  imports File_Wal_Props
begin

text \<open>
  The calls on the file log that succeed: an append whose file operations do not fail, and a flush on a
  file without pending failures. The log is well formed and shorter than \<open>2 ^ 62\<close> bytes, so that no offset
  overflows.
\<close>

definition writable :: "nat \<Rightarrow> file_wal \<Rightarrow> bool" where
  "writable n w \<longleftrightarrow> file_wal_holds n w \<and> flush_separation w = p0_durable \<and> length (log_bytes (fw_records w)) < 2 ^ 62"

lemma writable_holds: "writable n w \<Longrightarrow> file_wal_holds n w"
  by (simp add: writable_def)

lemma payload_record_appendable:
  assumes "payload_record kind tail tx payload = Inr r" and "length payload \<le> 1048576"
  shows "validate_append_record r tail m m' = Inr ()" and "bounded_record r"
proof -
  have r: "record_validate r = Inr ()" "try_next_lsn tail = Inr (record_lsn r)" "rec_previous_lsn (rec_header r) = tail"
      "rec_payload r = payload" "rec_payload_length (rec_header r) = of_nat (length payload)"
    using assms(1) by (auto simp: payload_record_def from_parts_def wal_record_new_def and_then_eq_Inr_iff Let_def)
  show "bounded_record r" using r assms(2) by (simp add: bounded_record_def)
  have "unat (of_nat (length payload) :: u64) = length payload" using assms(2) by (simp add: unat_of_nat)
  then have "\<not> WAL_RECORD_SIZE_LIMIT < (of_nat (length payload) :: u64)"
    using assms(2) by (simp add: word_less_nat_alt WAL_RECORD_SIZE_LIMIT_def)
  then show "validate_append_record r tail m m' = Inr ()"
    using r by (simp add: validate_append_record_Inr validate_wal_record_bounds_def validate_record_size_def Let_def)
qed

lemma append_io_ok:
  assumes "io_faults d = [] \<or> (\<exists>fs. io_faults d = None # None # fs)"
  shows "\<exists>d'. append_io d offset bs = (d', Inr ()) \<and> io_faults d' = drop 2 (io_faults d)"
  using assms by (auto simp: append_io_def file_seek_def file_write_all_def take_fault_def split: list.splits)

lemma append_payload_ok:
  assumes "writable n w" and "payload_record kind (fw_last_lsn w) tx payload = Inr r" and "length payload \<le> 1048576"
    and "io_faults (wal_file w) = [] \<or> (\<exists>fs. io_faults (wal_file w) = None # None # fs)"
  shows "\<exists>w'. file_wal_append_payload w kind tx payload = (w', Inr (record_lsn r)) \<and> fw_records w' = fw_records w @ [r] \<and>
    io_faults (wal_file w') = drop 2 (io_faults (wal_file w)) \<and> flush_separation w' = flush_separation w \<and>
    file_wal_holds n w'"
proof -
  note ok = payload_record_appendable [OF assms(2,3)]
  have payload: "rec_payload r = payload"
    using assms(2) from_parts_payload by (auto simp: payload_record_def and_then_eq_Inr_iff)
  have w: "file_wal_holds n w" "unat (fw_append_bytes w) = length (log_bytes (fw_records w))"
      "length (log_bytes (fw_records w)) < 2 ^ 62"
    using assms(1) by (auto simp: writable_def file_wal_holds_def)
  have len: "length (record_bytes r) \<le> 72 + 1048576" using record_bytes_length(1) [OF ok(2)] payload assms(3) by simp
  obtain offset where offset: "file_offset_for_wal_bytes (fw_append_bytes w) = Inr offset"
    using w(2,3) by (simp add: file_offset_for_wal_bytes_def checked_add_def FILE_WAL_HEADER_LEN_def del: length_concat)
  have "unat (of_nat (length (record_bytes r)) :: u64) = length (record_bytes r)" using len by (simp add: unat_of_nat)
  then obtain k where k: "checked_add (fw_append_bytes w) (of_nat (length (record_bytes r))) = Some k"
    using w(2,3) len by (simp add: checked_add_def del: length_concat)
  obtain d where io: "append_io (wal_file w) offset (record_bytes r) = (d, Inr ())"
      "io_faults d = drop 2 (io_faults (wal_file w))" using append_io_ok [OF assms(4)] by blast
  have call: "file_wal_append w r = (appended w r d k, Inr (record_lsn r))"
    using ok offset k io(1) encode_record_bytes [OF ok(2)]
    by (simp add: file_wal_append_def append_io_def appended_def Let_def)
  moreover have "file_wal_holds n (appended w r d k)"
    using file_wal_append_holds [OF w(1) _ call] payload assms(3) by simp
  ultimately show ?thesis
    using assms(2) io(2) by (auto simp: file_wal_append_payload_def appended_def)
qed

lemma last_position:
  assumes "record_chain None (rs @ [r])"
  shows "position (\<lambda>b. boundary_lsn b = record_lsn r) (boundaries_of (rs @ [r])) = Some (length rs)"
proof -
  have "\<exists>b \<in> set (boundaries_of (rs @ [r])). boundary_lsn b = record_lsn r"
    by (auto simp: boundaries_of_def nth_append)
  then obtain i where i: "position (\<lambda>b. boundary_lsn b = record_lsn r) (boundaries_of (rs @ [r])) = Some i"
    using position_None_iff by fastforce
  moreover have "unat (record_lsn r) = Suc (length rs)" using record_chain_last [OF assms] by simp
  ultimately show ?thesis using position_boundary(2) [OF assms i] by simp
qed

lemma flush_target_last:
  assumes "file_wal_holds n w" and "fw_records w = rs @ [r]" and "n \<le> length rs"
  shows "fw_last_lsn w = Some (record_lsn r)" "validate_flush_target (record_lsn r) (fw_durable_lsn w) (fw_last_lsn w) m m' = Inr (Some (record_lsn r))"
    "position (\<lambda>b. boundary_lsn b = record_lsn r) (record_boundaries w) = Some (length rs)"
proof -
  have chain: "record_chain None (rs @ [r])" "fw_durable_lsn w = of_nat n" "record_boundaries w = boundaries_of (rs @ [r])"
    using assms(1,2) by (auto simp: file_wal_holds_def)
  have lsn: "unat (record_lsn r) = Suc (length rs)" using record_chain_last [OF chain(1)] by simp
  have "n < 2 ^ 64" using chain_length_bound [OF chain(1)] assms(3) by simp
  then have less: "fw_durable_lsn w < record_lsn r" using lsn chain(2) assms(3) by (simp add: word_less_nat_alt unat_of_nat)
  show last: "fw_last_lsn w = Some (record_lsn r)" using assms(2) by (simp add: fw_last_lsn_def records_last_lsn_def)
  show "validate_flush_target (record_lsn r) (fw_durable_lsn w) (fw_last_lsn w) m m' = Inr (Some (record_lsn r))"
    using less lsn last by (auto simp: validate_flush_target_def)
  show "position (\<lambda>b. boundary_lsn b = record_lsn r) (record_boundaries w) = Some (length rs)"
    using last_position [OF chain(1)] chain(3) by simp
qed

lemma flush_last_ok:
  assumes holds: "file_wal_holds n w" and sep: "flush_separation w = p0_durable" and "fw_records w = rs @ [r]" and "n \<le> length rs" and "io_faults (wal_file w) = []"
  shows "\<exists>w'. file_wal_flush_through w (record_lsn r) = (w', Inr (record_lsn r)) \<and> fw_records w' = fw_records w \<and>
    unat (fw_durable_bytes w') = length (log_bytes (fw_records w)) \<and> unsynced (wal_file w') = []"
proof -
  note target = flush_target_last [OF holds assms(3,4)]
  have chain: "record_chain None (rs @ [r])" "record_boundaries w = boundaries_of (rs @ [r])"
    using holds assms(3) by (auto simp: file_wal_holds_def)
  have bytes: "end_bytes (record_boundaries w ! length rs) = of_nat (length (log_bytes (take (Suc (length rs)) (rs @ [r]))))"
    using position_boundary(3) [OF chain(1) last_position [OF chain(1)]] chain(2) by simp
  have count: "unat (record_lsn r) = Suc (length rs)" using record_chain_last [OF chain(1)] by simp
  have "record_lsn r = of_nat (unat (record_lsn r))" by simp
  then have lsn: "record_lsn r = of_nat (Suc (length rs))" by (simp only: count)
  have valid: "file_header_validate (file_header_new (record_lsn r) (end_bytes (record_boundaries w ! length rs))
      (of_nat (length rs + 1))) = Inr ()"
    using header_for_valid [of "rs @ [r]" "Suc (length rs)"] chain_length_bound [OF chain(1)] bytes lsn by simp
  have "unat (end_bytes (record_boundaries w ! length rs)) = length (log_bytes (fw_records w))"
    using durable_bytes_fit [OF holds, of "Suc (length rs)"] bytes assms(3) by simp
  then show ?thesis
    using target valid sep assms(5) flush_ready(1)
    by (simp add: file_wal_flush_through_def file_sync_def write_file_wal_header_def file_seek_def file_write_all_def Let_def)
qed

lemma flush_last_faulty:
  assumes holds: "file_wal_holds n w" and sep: "flush_separation w = p0_durable" and "fw_records w = rs @ [r]" and "n \<le> length rs" and "io_faults (wal_file w) = [Some (k, e)]"
  shows "\<exists>err. file_wal_flush_through w (record_lsn r) = (w\<lparr>wal_file := (wal_file w)\<lparr>io_faults := []\<rparr>\<rparr>, Inl err)"
  using flush_target_last [OF holds assms(3,4)] sep assms(5) flush_ready(1)
  by (simp add: file_wal_flush_through_def file_sync_def take_fault_def Let_def)

text \<open>A record for an open position: the next LSN exists because every record takes at least 72 bytes.\<close>

lemma records_below_bytes: "list_all bounded_record rs \<Longrightarrow> length rs \<le> length (log_bytes rs)"
  by (induction rs) (auto simp: record_bytes_length)

lemma payload_record_ok:
  assumes "writable n w"
  shows "\<exists>r. payload_record kind (fw_last_lsn w) (Some tx) payload = Inr r"
proof -
  let ?rs = "fw_records w"
  have w: "record_chain None ?rs" "list_all bounded_record ?rs" "length (log_bytes ?rs) < 2 ^ 62"
    using assms by (auto simp: writable_def file_wal_holds_def)
  have short: "length ?rs < 2 ^ 62" using records_below_bytes [OF w(2)] w(3) by simp
  have "\<exists>l. try_next_lsn (fw_last_lsn w) = Inr l \<and> l \<noteq> 0 \<and> (\<forall>p. fw_last_lsn w = Some p \<longrightarrow> p < l)"
  proof (cases "?rs = []")
    case False
    then have "unat (record_lsn (last ?rs)) < 2 ^ 62" using record_chain_last [OF w(1)] short by simp
    then obtain l where "checked_add (record_lsn (last ?rs)) 1 = Some l" by (simp add: checked_add_def)
    then show ?thesis
      using False checked_add_one_less checked_add_one_pos
      by (fastforce simp: fw_last_lsn_def records_last_lsn_def try_next_lsn_def lsn_try_next_iff)
  qed (simp add: fw_last_lsn_def records_last_lsn_def try_next_lsn_def)
  then show ?thesis
    by (auto simp: payload_record_def from_parts_def wal_record_new_def record_validate_def record_header_validate_def
        wal_record_checksum_pos Let_def not_le split: option.splits)
qed

end
