(* ===== verification/Commit_Log_Props.thy ===== *)
theory Commit_Log_Props
  imports Tx_Replay_Props File_Wal_Progress
begin

text \<open>
  The commit log along runs with failing file operations and restarts: outcomes are visible only when
  their records are durable, and what was acknowledged is rebuilt after every crash. The runs follow the
  protocol of the callers: a transaction id begins once, and a terminal record is tried once, unless the
  manager already has the entry. The last property shows why the second rule is needed.
\<close>

section \<open>Appending through the bridge\<close>

lemma payload_record_fields:
  "payload_record kind tail tx payload = Inr r \<Longrightarrow> kind_of r = kind \<and> rec_tx r = tx \<and> rec_payload r = payload"
  by (auto simp: payload_record_def from_parts_def wal_record_new_def and_then_eq_Inr_iff Let_def)

lemma append_payload_holds:
  assumes "file_wal_holds n w" and "length payload < 2 ^ 64" and "file_wal_append_payload w kind tx payload = (w', res)"
  shows "file_wal_holds n w' \<and> fw_durable_lsn w' = fw_durable_lsn w \<and>
    (fw_records w' = fw_records w \<and> (\<exists>e. res = Inl e) \<or>
     (\<exists>r. fw_records w' = fw_records w @ [r] \<and> kind_of r = kind \<and> rec_tx r = tx \<and> rec_payload r = payload \<and>
        res = Inr (record_lsn r)))"
proof (cases "payload_record kind (fw_last_lsn w) tx payload")
  case (Inr r)
  note r = payload_record_fields [OF Inr]
  have append: "file_wal_append w r = (w', res)" using assms(3) Inr by (simp add: file_wal_append_payload_def)
  have "file_wal_holds n w'" using file_wal_append_holds [OF assms(1) _ append] r assms(2) by simp
  with file_wal_append_outcome [OF append] r show ?thesis
    by (elim disjE exE conjE) (auto simp: appended_def)
qed (use assms in \<open>auto simp: file_wal_append_payload_def\<close>)

lemma snoc_chain_lsn: "file_wal_holds n w \<Longrightarrow> fw_records w = rs @ [r] \<Longrightarrow> unat (record_lsn r) = Suc (length rs)"
  using record_chain_last [of "rs @ [r]"] by (simp add: file_wal_holds_def)

lemma terminal_record_holds:
  assumes "file_wal_holds n w" and "length payload < 2 ^ 64"
    and "append_and_flush_terminal_record w kind tx payload name = (w', res)"
    and "(\<exists>p. res = Inr p) \<or> fw_durable_lsn w' = fw_durable_lsn w"
  shows "\<exists>m. n \<le> m \<and> file_wal_holds m w' \<and>
    (fw_records w' = fw_records w \<and> (\<exists>e. res = Inl e) \<or>
     (\<exists>r. fw_records w' = fw_records w @ [r] \<and> kind_of r = kind \<and> rec_tx r = Some tx \<and> rec_payload r = payload \<and>
        (\<forall>l d. res = Inr (l, d) \<longrightarrow> l = record_lsn r \<and> d = of_nat m \<and> length (fw_records w) < m \<and> l \<le> d)))"
proof -
  obtain w1 r1 where append: "file_wal_append_payload w kind (Some tx) payload = (w1, r1)" by fastforce
  note one = append_payload_holds [OF assms(1,2) append]
  show ?thesis
  proof (cases r1)
    case (Inl e)
    then show ?thesis using one append assms(3) by (auto simp: append_and_flush_terminal_record_def)
  next
    case (Inr l)
    then obtain r where r: "fw_records w1 = fw_records w @ [r]" "kind_of r = kind" "rec_tx r = Some tx"
        "rec_payload r = payload" "l = record_lsn r" using one by auto
    obtain w2 r2 where flush: "file_wal_flush_through w1 l = (w2, r2)" by fastforce
    have res: "w' = w2" "(\<exists>e. res = Inl e) \<or> (\<exists>d. r2 = Inr d \<and> res = Inr (l, d))"
      "\<And>d. r2 = Inr d \<Longrightarrow> l \<le> d \<Longrightarrow> res = Inr (l, d)" "\<And>e. r2 = Inl e \<Longrightarrow> res = Inl e"
      using assms(3) append Inr flush
      by (cases r2; auto simp: append_and_flush_terminal_record_def validate_durable_flush_covers_record_def
          split: if_splits)+
    have "(\<exists>d. r2 = Inr d) \<or> fw_durable_lsn w2 = fw_durable_lsn w1"
      using assms(4) res one by (cases r2) auto
    then obtain m where m: "n \<le> m" "file_wal_holds m w2" "fw_records w2 = fw_records w1"
        "\<forall>d. r2 = Inr d \<longrightarrow> d = of_nat m \<and> l \<le> d"
      using file_wal_flush_holds [OF _ flush] one by blast
    have "length (fw_records w) < m" if "l \<le> of_nat m"
    proof -
      have "m < 2 ^ 64" using m(2) chain_length_bound by (fastforce simp: file_wal_holds_def)
      then have "unat l \<le> m" using that by (simp add: word_le_nat_alt unat_of_nat)
      then show ?thesis using snoc_chain_lsn [OF m(2), of "fw_records w" r] m(3) r by simp
    qed
    then show ?thesis using m r res by (intro exI [of _ m]) auto
  qed
qed

section \<open>The invariant\<close>

definition records_of :: "commit_log \<Rightarrow> wal_record list" where
  "records_of l = fw_records (log_wal l)"

text \<open>The first \<open>n\<close> records are durable, and every outcome the commit log knows is among them.\<close>

definition log_backed :: "nat \<Rightarrow> commit_log \<Rightarrow> bool" where
  "log_backed n l \<longleftrightarrow>
     file_wal_holds n (log_wal l) \<and> orderly (records_of l) \<and> btree_inv (log_status l) \<and>
     hash_inv (commit_entries l) \<and> hash_inv (rollback_entries l) \<and>
     (\<forall>tx. status (log_status l) tx = Some Committed \<longrightarrow> has_kind tx TxCommit (take n (records_of l))) \<and>
     (\<forall>tx. status (log_status l) tx = Some RolledBack \<longrightarrow> has_kind tx TxRollback (take n (records_of l))) \<and>
     (\<forall>tx e. map_of (commit_entries l) tx = Some e \<longrightarrow>
        commit_tx_id e = tx \<and> commit_entry_validate e = Inr () \<and> has_kind tx TxCommit (take n (records_of l))) \<and>
     (\<forall>tx e. map_of (rollback_entries l) tx = Some e \<longrightarrow>
        rollback_tx_id e = tx \<and> rollback_entry_validate e = Inr () \<and> has_kind tx TxRollback (take n (records_of l)))"

lemma has_kind_grows:
  assumes "has_kind tx k (take n rs)" and "n \<le> m" and "take n rs' = take n rs"
  shows "has_kind tx k (take m rs')"
proof -
  have "set (take n rs) \<subseteq> set (take m rs')" using assms(2,3) set_take_subset_set_take by metis
  with assms(1) show ?thesis by (auto simp: has_kind_def list_ex_iff)
qed

text \<open>A new log under the same entries and statuses.\<close>

lemma log_backed_wal:
  assumes "log_backed n l" and "n \<le> m" and "file_wal_holds m w" and "orderly (fw_records w)"
    and "take n (fw_records w) = take n (records_of l)"
  shows "log_backed m (l\<lparr>log_wal := w\<rparr>)"
proof -
  have grows: "has_kind tx k (take m (fw_records w))" if "has_kind tx k (take n (records_of l))" for tx k
    using has_kind_grows [OF that assms(2,5)] .
  show ?thesis using assms(1,3,4) grows by (auto simp: log_backed_def records_of_def)
qed

lemma log_backed_prefix: "log_backed n l \<Longrightarrow> n \<le> length (records_of l)"
  by (simp add: log_backed_def file_wal_holds_def records_of_def)

lemma log_backed_status_commit:
  assumes "log_backed n l" and "has_kind tx TxCommit (take n (records_of l))"
  shows "log_backed n (l\<lparr>log_status := fst (record_committed_after_durable_wal (log_status l) tx c d)\<rparr>)"
  using assms
  by (auto simp: log_backed_def records_of_def status_operations btree_map.invar_put split: sum.splits option.splits if_splits)

lemma log_backed_status_rollback:
  assumes "log_backed n l" and "has_kind tx TxRollback (take n (records_of l))"
  shows "log_backed n (l\<lparr>log_status := fst (record_rolled_back_after_durable_wal (log_status l) tx c d)\<rparr>)"
  using assms
  by (auto simp: log_backed_def records_of_def status_operations btree_map.invar_put split: sum.splits option.splits if_splits)

lemma restore_commit_status_fst:
  "fst (restore_commit_status_from_entry l e) = l \<or>
   fst (restore_commit_status_from_entry l e) =
     l\<lparr>log_status := fst (record_committed_after_durable_wal (log_status l) (commit_tx_id e) (commit_lsn e) (commit_durable_lsn e))\<rparr>"
  by (cases "commit_entry_validate e") (auto simp: restore_commit_status_from_entry_def split: prod.splits)

lemma restore_rollback_status_fst:
  "fst (restore_rollback_status_from_entry l e) = l \<or>
   fst (restore_rollback_status_from_entry l e) =
     l\<lparr>log_status := fst (record_rolled_back_after_durable_wal (log_status l) (rollback_tx_id e) (rollback_lsn e) (rollback_durable_lsn e))\<rparr>"
  by (cases "rollback_entry_validate e") (auto simp: restore_rollback_status_from_entry_def split: prod.splits)

lemma restore_commit_backed:
  "log_backed n l \<Longrightarrow> has_kind (commit_tx_id e) TxCommit (take n (records_of l)) \<Longrightarrow>
     log_backed n (fst (restore_commit_status_from_entry l e)) \<and>
     log_wal (fst (restore_commit_status_from_entry l e)) = log_wal l"
  using restore_commit_status_fst [of l e] log_backed_status_commit by (elim disjE) (auto simp del: fst_conv)

lemma restore_rollback_backed:
  "log_backed n l \<Longrightarrow> has_kind (rollback_tx_id e) TxRollback (take n (records_of l)) \<Longrightarrow>
     log_backed n (fst (restore_rollback_status_from_entry l e)) \<and>
     log_wal (fst (restore_rollback_status_from_entry l e)) = log_wal l"
  using restore_rollback_status_fst [of l e] log_backed_status_rollback by (elim disjE) (auto simp del: fst_conv)

section \<open>Recording\<close>

definition commit_ready :: "commit_log \<Rightarrow> u64 \<Rightarrow> bool" where
  "commit_ready l tx \<longleftrightarrow> map_of (commit_entries l) tx \<noteq> None \<or> open_in tx (records_of l)"

definition rollback_ready :: "commit_log \<Rightarrow> u64 \<Rightarrow> bool" where
  "rollback_ready l tx \<longleftrightarrow> map_of (rollback_entries l) tx \<noteq> None \<or> open_in tx (records_of l)"

text \<open>
  A flush may fail after it has advanced the durable LSN in memory, see \<open>File_Wal_Props\<close>. The runs here
  are those in which a call that fails leaves the durable LSN as it was.
\<close>

definition durable_kept :: "commit_log \<Rightarrow> commit_log \<Rightarrow> 'a andromeda_result \<Rightarrow> bool" where
  "durable_kept l l' res \<longleftrightarrow> (\<exists>v. res = Inr v) \<or> fw_durable_lsn (log_wal l') = fw_durable_lsn (log_wal l)"

lemma payload_shapes [simp]:
  "length (encode_commit_payload isolation rows h) = 25" "encode_commit_payload isolation rows h ! 0 = 1 \<or> encode_commit_payload isolation rows h ! 0 = 2"
  "length (encode_rollback_payload h) = 16"
  by (auto simp: encode_commit_payload_def encode_rollback_payload_def split: isolation_level.splits)

lemma admissible_terminal:
  assumes "open_in tx rs" and "tx \<noteq> 0" and "rec_tx r = Some tx" and "payload_readable r" and "kind_of r \<noteq> TxBegin"
  shows "admissible rs r"
  using assms by (simp add: admissible_def)

lemma terminal_backed:
  assumes backed: "log_backed n l" and ready: "open_in tx (records_of l)" and "tx \<noteq> 0"
    and io: "append_and_flush_terminal_record (log_wal l) kind tx payload name = (w, res)"
    and kept: "(\<exists>p. res = Inr p) \<or> fw_durable_lsn w = fw_durable_lsn (log_wal l)"
    and kind: "kind = TxCommit \<and> length payload = 25 \<and> payload ! 0 \<in> {1, 2} \<or> kind = TxRollback \<and> length payload = 16"
  shows "\<exists>m. n \<le> m \<and> log_backed m (l\<lparr>log_wal := w\<rparr>) \<and> take n (fw_records w) = take n (records_of l) \<and>
    (\<forall>c d. res = Inr (c, d) \<longrightarrow> has_kind tx kind (take m (fw_records w)) \<and> c \<noteq> 0 \<and> c \<le> d)"
proof -
  have holds: "file_wal_holds n (log_wal l)" and orderly: "orderly (records_of l)"
    using backed by (auto simp: log_backed_def)
  have "length payload < 2 ^ 64" using kind by auto
  then obtain m where m: "n \<le> m" "file_wal_holds m w" and records: "fw_records w = records_of l \<and> (\<exists>e. res = Inl e) \<or>
     (\<exists>r. fw_records w = records_of l @ [r] \<and> kind_of r = kind \<and> rec_tx r = Some tx \<and> rec_payload r = payload \<and>
        (\<forall>c d. res = Inr (c, d) \<longrightarrow> c = record_lsn r \<and> d = of_nat m \<and> length (records_of l) < m \<and> c \<le> d))"
    using terminal_record_holds [OF holds _ io kept] unfolding records_of_def by blast
  from records show ?thesis
  proof (elim disjE exE conjE)
    fix e assume same: "fw_records w = records_of l" and "res = Inl e"
    then show ?thesis using m log_backed_wal [OF backed m] orderly by auto
  next
    fix r assume r: "fw_records w = records_of l @ [r]" "kind_of r = kind" "rec_tx r = Some tx" "rec_payload r = payload"
      and res: "\<forall>c d. res = Inr (c, d) \<longrightarrow> c = record_lsn r \<and> d = of_nat m \<and> length (records_of l) < m \<and> c \<le> d"
    have "payload_readable r" "kind_of r \<noteq> TxBegin" using r kind by (auto simp: payload_readable_def)
    then have "orderly (fw_records w)" using r orderly ready assms(3) admissible_terminal by simp
    moreover have "take n (fw_records w) = take n (records_of l)" using r(1) log_backed_prefix [OF backed] by simp
    moreover have "has_kind tx kind (take m (fw_records w)) \<and> c \<noteq> 0 \<and> c \<le> d" if "res = Inr (c, d)" for c d
    proof -
      have "length (fw_records w) \<le> m" using res that r(1) by auto
      then have "take m (fw_records w) = fw_records w" by simp
      moreover have "has_kind tx kind (records_of l @ [r])" using r by (simp add: has_kind_def is_for_transaction_def)
      moreover have "c \<noteq> 0" using res that snoc_chain_lsn [OF m(2) r(1)] by auto
      ultimately show ?thesis using res that r(1) by auto
    qed
    ultimately show ?thesis using m log_backed_wal [OF backed m] by auto
  qed
qed

lemma log_backed_commit_entry:
  assumes "log_backed m l" and "commit_entry_validate e = Inr ()" and "commit_tx_id e = tx"
    and "has_kind tx TxCommit (take m (records_of l))"
  shows "log_backed m (l\<lparr>commit_entries := AList.update tx e (commit_entries l)\<rparr>)"
  using assms by (auto simp: log_backed_def records_of_def hash_map.get_put hash_map.invar_put split: if_splits)

lemma log_backed_rollback_entry:
  assumes "log_backed m l" and "rollback_entry_validate e = Inr ()" and "rollback_tx_id e = tx"
    and "has_kind tx TxRollback (take m (records_of l))"
  shows "log_backed m (l\<lparr>rollback_entries := AList.update tx e (rollback_entries l)\<rparr>)"
  using assms by (auto simp: log_backed_def records_of_def hash_map.get_put hash_map.invar_put split: if_splits)

lemma io_then_const:
  "io_then r (\<lambda>l _. (l, Inr v)) = (fst r, case snd r of Inl e \<Rightarrow> Inl e | Inr _ \<Rightarrow> Inr v)"
  by (cases r; cases "snd r") (auto simp: io_then_def)

lemma commit_entry_new:
  assumes "commit_from_durable_wal tx c d now rows isolation = Inr e"
  shows "commit_tx_id e = tx" "commit_entry_validate e = Inr ()"
  using assms by (auto simp: commit_from_durable_wal_def Let_def and_then_eq_Inr_iff)

lemma rollback_entry_new:
  assumes "rollback_from_durable_wal tx c d now h = Inr e"
  shows "rollback_tx_id e = tx" "rollback_entry_validate e = Inr ()"
  using assms by (auto simp: rollback_from_durable_wal_def Let_def and_then_eq_Inr_iff)

text \<open>What one call on the commit log keeps and gains.\<close>

definition grows_to :: "nat \<Rightarrow> commit_log \<Rightarrow> nat \<Rightarrow> commit_log \<Rightarrow> bool" where
  "grows_to n l m l' \<longleftrightarrow> n \<le> m \<and> log_backed m l' \<and> take n (records_of l') = take n (records_of l)"

lemma record_commit_fresh:
  assumes backed: "log_backed n l" and call: "record_commit l tx isolation rows h now = (l', res)"
    and none: "map_of (commit_entries l) tx = None" and open': "open_in tx (records_of l)"
    and kept: "durable_kept l l' res" and ok: "tx \<noteq> 0" "reject_commit_after_rollback l tx = Inr ()"
  shows "\<exists>m. grows_to n l m l' \<and> (\<forall>e. res = Inr e \<longrightarrow> has_kind tx TxCommit (take m (records_of l')))"
proof -
  obtain w r where io: "append_and_flush_terminal_record (log_wal l) TxCommit tx
      (encode_commit_payload isolation rows h) ''commit'' = (w, r)" by fastforce
  let ?l = "l\<lparr>log_wal := w\<rparr>"
  let ?l2 = "\<lambda>e. ?l\<lparr>commit_entries := AList.update tx e (commit_entries l)\<rparr>"
  have body: "(l', res) = or_return ?l r (\<lambda>(c, d). or_return ?l (commit_from_durable_wal tx c d now rows isolation) (\<lambda>e.
      io_then (restore_commit_status_from_entry (?l2 e) e) (\<lambda>l _. (l, Inr e))))"
    using call none ok io
    by (simp add: record_commit_def validate_log_transaction_id_def existing_commit_entry_def Let_def)
  have w: "(\<exists>p. r = Inr p) \<or> fw_durable_lsn w = fw_durable_lsn (log_wal l)"
    using body kept by (cases r) (auto simp: durable_kept_def)
  obtain m where m: "n \<le> m" "log_backed m ?l" "take n (fw_records w) = take n (records_of l)"
      "\<forall>c d. r = Inr (c, d) \<longrightarrow> has_kind tx TxCommit (take m (fw_records w)) \<and> c \<noteq> 0 \<and> c \<le> d"
    using terminal_backed [OF backed open' ok(1) io w] by auto
  have unpublished: ?thesis if "l' = ?l" "\<exists>e. res = Inl e"
    using that m by (auto simp: grows_to_def records_of_def)
  show ?thesis
  proof (cases r)
    case (Inr p)
    obtain c d where p: "p = (c, d)" by fastforce
    have kind: "has_kind tx TxCommit (take m (records_of ?l))" using m(4) Inr p by (simp add: records_of_def)
    show ?thesis
    proof (cases "commit_from_durable_wal tx c d now rows isolation")
      case (Inr e)
      note e = commit_entry_new [OF Inr]
      have backed2: "log_backed m (?l2 e)" using log_backed_commit_entry [OF m(2) e(2,1) kind] by simp
      have "l' = fst (restore_commit_status_from_entry (?l2 e) e)" using body Inr \<open>r = Inr p\<close> p by (simp add: io_then_const)
      then show ?thesis
        using restore_commit_backed [OF backed2, of e] kind e(1) m(1,3) by (auto simp: grows_to_def records_of_def)
    qed (use body Inr p unpublished in simp)
  qed (use body unpublished in simp)
qed

lemma record_commit_backed:
  assumes backed: "log_backed n l" and call: "record_commit l tx isolation rows h now = (l', res)"
    and ready: "commit_ready l tx" and kept: "durable_kept l l' res"
  shows "\<exists>m. grows_to n l m l' \<and> (\<forall>e. res = Inr e \<longrightarrow> has_kind tx TxCommit (take m (records_of l')))"
proof (cases "tx = 0 \<or> map_of (commit_entries l) tx = None \<and> reject_commit_after_rollback l tx \<noteq> Inr ()")
  case True
  then have "l' = l" "\<exists>e. res = Inl e"
    using call by (auto simp: record_commit_def validate_log_transaction_id_def existing_commit_entry_def
        reject_commit_after_rollback_def split: if_splits)
  then show ?thesis using backed by (auto simp: grows_to_def)
next
  case False
  show ?thesis
  proof (cases "map_of (commit_entries l) tx")
    case (Some e)
    then have e: "commit_tx_id e = tx" "commit_entry_validate e = Inr ()" "has_kind tx TxCommit (take n (records_of l))"
      using backed by (auto simp: log_backed_def)
    have "l' = fst (restore_commit_status_from_entry l e)"
      using call Some e(2) False
      by (simp add: record_commit_def validate_log_transaction_id_def existing_commit_entry_def io_then_const)
    then show ?thesis using restore_commit_backed [OF backed, of e] e by (auto simp: grows_to_def records_of_def)
  next
    case None
    then show ?thesis
      using record_commit_fresh [OF backed call None _ kept] ready False by (simp add: commit_ready_def)
  qed
qed

lemma record_rollback_fresh:
  assumes backed: "log_backed n l" and call: "record_rollback l tx h now = (l', res)"
    and none: "map_of (rollback_entries l) tx = None" and open': "open_in tx (records_of l)"
    and kept: "durable_kept l l' res" and ok: "tx \<noteq> 0" "reject_rollback_after_commit l tx = Inr ()"
  shows "\<exists>m. grows_to n l m l' \<and> (\<forall>e. res = Inr e \<longrightarrow> has_kind tx TxRollback (take m (records_of l')))"
proof -
  obtain w r where io: "append_and_flush_terminal_record (log_wal l) TxRollback tx
      (encode_rollback_payload h) ''rollback'' = (w, r)" by fastforce
  let ?l = "l\<lparr>log_wal := w\<rparr>"
  let ?l2 = "\<lambda>e. ?l\<lparr>rollback_entries := AList.update tx e (rollback_entries l)\<rparr>"
  have body: "(l', res) = or_return ?l r (\<lambda>(c, d). or_return ?l (rollback_from_durable_wal tx c d now h) (\<lambda>e.
      io_then (restore_rollback_status_from_entry (?l2 e) e) (\<lambda>l _. (l, Inr e))))"
    using call none ok io
    by (simp add: record_rollback_def validate_log_transaction_id_def existing_rollback_entry_def Let_def)
  have w: "(\<exists>p. r = Inr p) \<or> fw_durable_lsn w = fw_durable_lsn (log_wal l)"
    using body kept by (cases r) (auto simp: durable_kept_def)
  obtain m where m: "n \<le> m" "log_backed m ?l" "take n (fw_records w) = take n (records_of l)"
      "\<forall>c d. r = Inr (c, d) \<longrightarrow> has_kind tx TxRollback (take m (fw_records w)) \<and> c \<noteq> 0 \<and> c \<le> d"
    using terminal_backed [OF backed open' ok(1) io w] by auto
  have unpublished: ?thesis if "l' = ?l" "\<exists>e. res = Inl e"
    using that m by (auto simp: grows_to_def records_of_def)
  show ?thesis
  proof (cases r)
    case (Inr p)
    obtain c d where p: "p = (c, d)" by fastforce
    have kind: "has_kind tx TxRollback (take m (records_of ?l))" using m(4) Inr p by (simp add: records_of_def)
    show ?thesis
    proof (cases "rollback_from_durable_wal tx c d now h")
      case (Inr e)
      note e = rollback_entry_new [OF Inr]
      have backed2: "log_backed m (?l2 e)" using log_backed_rollback_entry [OF m(2) e(2,1) kind] by simp
      have "l' = fst (restore_rollback_status_from_entry (?l2 e) e)" using body Inr \<open>r = Inr p\<close> p by (simp add: io_then_const)
      then show ?thesis
        using restore_rollback_backed [OF backed2, of e] kind e(1) m(1,3) by (auto simp: grows_to_def records_of_def)
    qed (use body Inr p unpublished in simp)
  qed (use body unpublished in simp)
qed

lemma record_rollback_backed:
  assumes backed: "log_backed n l" and call: "record_rollback l tx h now = (l', res)"
    and ready: "rollback_ready l tx" and kept: "durable_kept l l' res"
  shows "\<exists>m. grows_to n l m l' \<and> (\<forall>e. res = Inr e \<longrightarrow> has_kind tx TxRollback (take m (records_of l')))"
proof (cases "tx = 0 \<or> map_of (rollback_entries l) tx = None \<and> reject_rollback_after_commit l tx \<noteq> Inr ()")
  case True
  then have "l' = l" "\<exists>e. res = Inl e"
    using call by (auto simp: record_rollback_def validate_log_transaction_id_def existing_rollback_entry_def
        reject_rollback_after_commit_def split: if_splits)
  then show ?thesis using backed by (auto simp: grows_to_def)
next
  case False
  show ?thesis
  proof (cases "map_of (rollback_entries l) tx")
    case (Some e)
    then have e: "rollback_tx_id e = tx" "rollback_entry_validate e = Inr ()" "has_kind tx TxRollback (take n (records_of l))"
      using backed by (auto simp: log_backed_def)
    have "l' = fst (restore_rollback_status_from_entry l e)"
      using call Some e(2) False
      by (simp add: record_rollback_def validate_log_transaction_id_def existing_rollback_entry_def io_then_const)
    then show ?thesis using restore_rollback_backed [OF backed, of e] e by (auto simp: grows_to_def records_of_def)
  next
    case None
    then show ?thesis
      using record_rollback_fresh [OF backed call None _ kept] ready False by (simp add: rollback_ready_def)
  qed
qed

section \<open>Restart\<close>

lemma durable_prefix_new_iff:
  "durable_prefix_new rs d = Inr u \<longleftrightarrow> (\<forall>r \<in> set rs. record_validate r = Inr () \<and> record_lsn r \<le> d)"
  by (induction rs) (auto simp: and_then_eq_Inr_iff)

lemma durable_prefix_holds:
  assumes "file_wal_holds n w"
  shows "durable_prefix_new (file_wal_durable_records w) (fw_durable_lsn w) = Inr ()"
proof -
  let ?rs = "fw_records w"
  have w: "record_chain None ?rs" "list_all bounded_record ?rs" "n \<le> length ?rs" "fw_durable_lsn w = of_nat n"
    using assms by (auto simp: file_wal_holds_def)
  have "record_validate r = Inr () \<and> record_lsn r \<le> fw_durable_lsn w" if "r \<in> set (take n ?rs)" for r
  proof -
    obtain i where i: "i < n" "i < length ?rs" "r = ?rs ! i" using \<open>r \<in> set (take n ?rs)\<close> by (auto simp: in_set_conv_nth)
    have "n < 2 ^ 64" using chain_length_bound [OF w(1)] w(3) by simp
    then have "unat (fw_durable_lsn w) = n" using w(4) by (simp add: unat_of_nat)
    moreover have "unat (record_lsn r) = Suc i" using record_chain_lsn [OF w(1) i(2)] i(3) by simp
    moreover have "bounded_record r" using w(2) i by (auto simp: list_all_iff)
    ultimately show ?thesis using i by (simp add: word_le_nat_alt bounded_record_def)
  qed
  then show ?thesis using holds_durable_records [OF assms] by (simp add: durable_prefix_new_iff)
qed

lemma bounded_valid: "list_all bounded_record rs \<Longrightarrow> list_all (\<lambda>r. record_validate r = Inr ()) rs"
  by (auto simp: list_all_iff bounded_record_def)

lemma fold_outcome_hash:
  "hash_inv (commit_entries l) \<Longrightarrow> hash_inv (rollback_entries l) \<Longrightarrow>
     hash_inv (commit_entries (fold apply_outcome out l)) \<and> hash_inv (rollback_entries (fold apply_outcome out l))"
proof (induction out arbitrary: l)
  case (Cons o' out)
  then show ?case by (cases o') (simp_all add: hash_map.invar_put)
qed simp

lemma rebuilt_backed:
  assumes "states_outcomes rs out" and "orderly rs" and "file_wal_holds (length rs) w" and "fw_records w = rs"
  shows "log_backed (length rs) (fold apply_outcome out (commit_log_new w status_table_new))"
proof -
  let ?l = "commit_log_new w status_table_new"
  have distinct: "distinct (map replay_tx out)" and valid: "list_all replay_valid out"
    using assms(1) by (auto simp: states_outcomes_def)
  have inv: "btree_inv (log_status ?l)" by (simp add: commit_log_new_def status_table_new_def btree_inv_def)
  have stated: "\<exists>r. last_record (replay_tx o') rs = Some r \<and> stated_status r = replay_status o'" if "o' \<in> set out" for o'
    using assms(1) that unfolding states_outcomes_def by blast
  have commit: "has_kind (commit_tx_id e) TxCommit rs" if "ReplayCommit e \<in> set out" for e
    using stated [OF that] orderly_terminal [OF assms(2), of TxCommit]
    by (auto simp: stated_status_def terminal_kind_def split: if_splits)
  have rollback: "has_kind (rollback_tx_id e) TxRollback rs" if "ReplayRollback e \<in> set out" for e
    using stated [OF that] orderly_terminal [OF assms(2), of TxRollback]
    by (auto simp: stated_status_def terminal_kind_def split: if_splits)
  have entries: "commit_tx_id e = tx \<and> commit_entry_validate e = Inr () \<and> has_kind tx TxCommit rs"
    if "map_of (commit_entries (fold apply_outcome out ?l)) tx = Some e" for tx e
    using fold_outcome_entries(1) [OF that] commit valid by (auto simp: commit_log_new_def list_all_iff)
  have entries': "rollback_tx_id e = tx \<and> rollback_entry_validate e = Inr () \<and> has_kind tx TxRollback rs"
    if "map_of (rollback_entries (fold apply_outcome out ?l)) tx = Some e" for tx e
    using fold_outcome_entries(2) [OF that] rollback valid by (auto simp: commit_log_new_def list_all_iff)
  have "log_wal (fold apply_outcome out ?l) = w" by (simp add: fold_outcome_entries(3) commit_log_new_def)
  then show ?thesis
    using fold_outcome_status [OF inv distinct] rebuilt_status [OF assms(1,2), of w] entries entries' assms(2-4)
      fold_outcome_hash [of ?l out]
    by (simp add: log_backed_def records_of_def commit_log_new_def hash_inv_def)
qed

lemma restart_backed:
  assumes "log_backed n l" and "crash_image (wal_file (log_wal l)) img" and "unat (fw_durable_bytes (log_wal l)) + 80 < 2 ^ 64"
  shows "\<exists>d w out ev l' s. file_wal_open (disk_of img) = (d, Inr w) \<and> tx_replay_from_file_wal w = Inr (out, ev) \<and>
    reconstruct_from_tx_wal_replay (commit_log_new w status_table_new) out = (l', Inr s) \<and> grows_to n l n l' \<and>
    (\<forall>tx. status (log_status l') tx =
       (if has_kind tx TxCommit (take n (records_of l)) then Some Committed
        else if has_kind tx TxRollback (take n (records_of l)) then Some RolledBack else None))"
proof -
  have holds: "file_wal_holds n (log_wal l)" and orderly: "orderly (take n (records_of l))"
    using assms(1) orderly_take by (auto simp: log_backed_def)
  obtain d w where w: "file_wal_open (disk_of img) = (d, Inr w)" "file_wal_holds n w"
      "fw_records w = take n (records_of l)"
    using file_wal_crash_holds [OF holds assms(2,3)] by (auto simp: records_of_def)
  have n: "length (take n (records_of l)) = n" using log_backed_prefix [OF assms(1)] by simp
  have durable: "file_wal_durable_records w = take n (records_of l)"
    using holds_durable_records [OF w(2)] w(3) by simp
  have "record_chain None (take n (records_of l))" "list_all (\<lambda>r. record_validate r = Inr ()) (take n (records_of l))"
    using w(2,3) bounded_valid by (auto simp: file_wal_holds_def)
  from evidence_exact [OF this] orderly obtain out ev where
    ev: "map_checked_wal_evidence_to_tx_replay (take n (records_of l)) = Inr (out, ev)"
      "states_outcomes (take n (records_of l)) out" by auto
  have bridge: "tx_replay_from_file_wal w = Inr (out, ev)"
    using durable_prefix_holds [OF w(2)] ev(1) durable by (simp add: tx_replay_from_file_wal_def)
  let ?l' = "fold apply_outcome out (commit_log_new w status_table_new)"
  have "log_backed n ?l'" using rebuilt_backed [OF ev(2) orderly, of w] w(2,3) n by simp
  moreover have "records_of ?l' = take n (records_of l)"
    using w(3) by (simp add: records_of_def fold_outcome_entries(3) commit_log_new_def)
  ultimately have "grows_to n l n ?l'" by (simp add: grows_to_def)
  with w(1) bridge reconstruct_unknown [OF ev(2) fresh_unknown, of w] rebuilt_status [OF ev(2) orderly, of w]
  show ?thesis by blast
qed

section \<open>Queries and maintenance\<close>

lemma grows_to_refl: "log_backed n l \<Longrightarrow> grows_to n l n l"
  by (simp add: grows_to_def)

lemma grows_to_same_wal: "log_backed n l' \<Longrightarrow> log_wal l' = log_wal l \<Longrightarrow> grows_to n l n l'"
  by (simp add: grows_to_def records_of_def)

lemma rebuild_status_backed:
  assumes "log_backed n l"
  shows "grows_to n l n (rebuild_status_for_transaction l tx)"
proof -
  have "grows_to n l n (fst (restore_commit_status_from_entry l e))" if "valid_commit_entry l tx = Some e" for e
  proof -
    have "map_of (commit_entries l) tx = Some e" using that by (auto simp: valid_commit_entry_def split: option.splits sum.splits)
    then have "has_kind (commit_tx_id e) TxCommit (take n (records_of l))" using assms by (auto simp: log_backed_def)
    then show ?thesis using restore_commit_backed [OF assms] grows_to_same_wal by blast
  qed
  moreover have "grows_to n l n (fst (restore_rollback_status_from_entry l e))" if "valid_rollback_entry l tx = Some e" for e
  proof -
    have "map_of (rollback_entries l) tx = Some e" using that by (auto simp: valid_rollback_entry_def split: option.splits sum.splits)
    then have "has_kind (rollback_tx_id e) TxRollback (take n (records_of l))" using assms by (auto simp: log_backed_def)
    then show ?thesis using restore_rollback_backed [OF assms] grows_to_same_wal by blast
  qed
  ultimately show ?thesis
    using grows_to_refl [OF assms] by (auto simp: rebuild_status_for_transaction_def split: option.splits)
qed

lemma gc_remove_backed:
  "log_backed n l \<Longrightarrow> grows_to n l n (fst (gc_remove l txs))"
proof (induction txs arbitrary: l)
  case (Cons tx txs)
  let ?l = "l\<lparr>commit_entries := AList.delete tx (commit_entries l)\<rparr>"
  have "log_backed n ?l"
    using Cons.prems by (auto simp: log_backed_def records_of_def hash_map.get_del hash_map.invar_del split: if_splits)
  from Cons.IH [OF this] show ?case by (auto simp: grows_to_def records_of_def split: prod.splits)
qed (simp add: grows_to_refl)

lemma rebuild_commits_step:
  "\<exists>s'. fst (rebuild_commits l s ((tx, e) # es)) \<in>
     (let l' = l\<lparr>log_status := fst (record_committed_after_durable_wal (log_status l) tx (commit_lsn e) (commit_durable_lsn e))\<rparr>
      in {l, l', fst (rebuild_commits l s' es), fst (rebuild_commits l' s' es)})"
  by (auto simp: Let_def or_return_def split: sum.splits option.splits transaction_status.splits prod.splits)

lemma rebuild_commits_backed:
  assumes "log_backed n l" and "\<forall>(tx, e) \<in> set es. has_kind tx TxCommit (take n (records_of l))"
  shows "log_backed n (fst (rebuild_commits l s es)) \<and> log_wal (fst (rebuild_commits l s es)) = log_wal l \<and>
    rollback_entries (fst (rebuild_commits l s es)) = rollback_entries l"
  using assms
proof (induction es arbitrary: l s)
  case (Cons a es)
  obtain tx e where a: "a = (tx, e)" by fastforce
  define l' where "l' = l\<lparr>log_status := fst (record_committed_after_durable_wal (log_status l) tx (commit_lsn e) (commit_durable_lsn e))\<rparr>"
  have l': "log_backed n l'" "log_wal l' = log_wal l" "rollback_entries l' = rollback_entries l"
    using Cons.prems a log_backed_status_commit by (auto simp: l'_def)
  have "\<forall>(tx, e) \<in> set es. has_kind tx TxCommit (take n (records_of l))" using Cons.prems(2) by simp
  moreover from this have "\<forall>(tx, e) \<in> set es. has_kind tx TxCommit (take n (records_of l'))" using l'(2) by (simp add: records_of_def)
  moreover obtain s' where "fst (rebuild_commits l s (a # es)) \<in> {l, l', fst (rebuild_commits l s' es), fst (rebuild_commits l' s' es)}"
    using rebuild_commits_step [of l s tx e es] a by (auto simp: Let_def l'_def)
  ultimately show ?case using Cons.IH [OF Cons.prems(1)] Cons.IH [OF l'(1)] Cons.prems(1) l' by auto
qed simp

lemma rebuild_rollbacks_step:
  "\<exists>s'. fst (rebuild_rollbacks l s ((tx, e) # es)) \<in>
     (let l' = l\<lparr>log_status := fst (record_rolled_back_after_durable_wal (log_status l) tx (rollback_lsn e) (rollback_durable_lsn e))\<rparr>
      in {l, l', fst (rebuild_rollbacks l s' es), fst (rebuild_rollbacks l' s' es)})"
  by (auto simp: Let_def or_return_def split: sum.splits option.splits transaction_status.splits prod.splits)

lemma rebuild_rollbacks_backed:
  assumes "log_backed n l" and "\<forall>(tx, e) \<in> set es. has_kind tx TxRollback (take n (records_of l))"
  shows "log_backed n (fst (rebuild_rollbacks l s es)) \<and> log_wal (fst (rebuild_rollbacks l s es)) = log_wal l"
  using assms
proof (induction es arbitrary: l s)
  case (Cons a es)
  obtain tx e where a: "a = (tx, e)" by fastforce
  define l' where "l' = l\<lparr>log_status := fst (record_rolled_back_after_durable_wal (log_status l) tx (rollback_lsn e) (rollback_durable_lsn e))\<rparr>"
  have l': "log_backed n l'" "log_wal l' = log_wal l"
    using Cons.prems a log_backed_status_rollback by (auto simp: l'_def)
  have "\<forall>(tx, e) \<in> set es. has_kind tx TxRollback (take n (records_of l))" using Cons.prems(2) by simp
  moreover from this have "\<forall>(tx, e) \<in> set es. has_kind tx TxRollback (take n (records_of l'))" using l'(2) by (simp add: records_of_def)
  moreover obtain s' where "fst (rebuild_rollbacks l s (a # es)) \<in> {l, l', fst (rebuild_rollbacks l s' es), fst (rebuild_rollbacks l' s' es)}"
    using rebuild_rollbacks_step [of l s tx e es] a by (auto simp: Let_def l'_def)
  ultimately show ?case using Cons.IH [OF Cons.prems(1)] Cons.IH [OF l'(1)] Cons.prems(1) l' by auto
qed simp

lemma backed_entries:
  assumes "log_backed n l"
  shows "\<forall>(tx, e) \<in> set (commit_entries l). has_kind tx TxCommit (take n (records_of l))"
    and "\<forall>(tx, e) \<in> set (rollback_entries l). has_kind tx TxRollback (take n (records_of l))"
  using assms by (auto simp: log_backed_def hash_inv_def dest: map_of_is_SomeI)

lemma rebuild_all_backed:
  assumes "log_backed n l"
  shows "grows_to n l n (fst (rebuild_status_from_records l))"
proof -
  let ?r = "rebuild_commits l \<lparr>committed_restored = 0, rolled_back_restored = 0, already_present = 0\<rparr> (commit_entries l)"
  have one: "log_backed n (fst ?r)" "log_wal (fst ?r) = log_wal l"
    using rebuild_commits_backed [OF assms backed_entries(1) [OF assms]] by auto
  show ?thesis
  proof (cases ?r)
    case (Pair l1 res)
    then have l1: "log_backed n l1" "log_wal l1 = log_wal l" using one by auto
    have "log_backed n (fst (rebuild_rollbacks l1 s (rollback_entries l1))) \<and>
        log_wal (fst (rebuild_rollbacks l1 s (rollback_entries l1))) = log_wal l1" for s
      using rebuild_rollbacks_backed [OF l1(1) backed_entries(2) [OF l1(1)]] by simp
    then show ?thesis
      using Pair l1 grows_to_same_wal by (cases res) (auto simp: rebuild_status_from_records_def)
  qed
qed

lemma restore_commit_entry_backed:
  assumes "log_backed n l" and "has_kind (commit_tx_id e) TxCommit (take n (records_of l))"
  shows "grows_to n l n (fst (restore_commit_entry l e))"
proof -
  let ?l = "l\<lparr>commit_entries := AList.update (commit_tx_id e) e (commit_entries l)\<rparr>"
  have direct: "grows_to n l n (fst (restore_commit_status_from_entry l e))"
    using restore_commit_backed [OF assms] grows_to_same_wal by blast
  have inserted: "grows_to n l n (fst (restore_commit_status_from_entry ?l e))" if "commit_entry_validate e = Inr ()"
    using restore_commit_backed [OF log_backed_commit_entry [OF assms(1) that refl assms(2)]] assms(2)
    by (simp add: grows_to_same_wal records_of_def)
  show ?thesis
    using grows_to_refl [OF assms(1)] direct inserted
    by (auto simp: restore_commit_entry_def or_return_def split: sum.splits option.splits)
qed

lemma restore_rollback_entry_backed:
  assumes "log_backed n l" and "has_kind (rollback_tx_id e) TxRollback (take n (records_of l))"
  shows "grows_to n l n (fst (restore_rollback_entry l e))"
proof -
  let ?l = "l\<lparr>rollback_entries := AList.update (rollback_tx_id e) e (rollback_entries l)\<rparr>"
  have direct: "grows_to n l n (fst (restore_rollback_status_from_entry l e))"
    using restore_rollback_backed [OF assms] grows_to_same_wal by blast
  have inserted: "grows_to n l n (fst (restore_rollback_status_from_entry ?l e))" if "rollback_entry_validate e = Inr ()"
    using restore_rollback_backed [OF log_backed_rollback_entry [OF assms(1) that refl assms(2)]] assms(2)
    by (simp add: grows_to_same_wal records_of_def)
  show ?thesis
    using grows_to_refl [OF assms(1)] direct inserted
    by (auto simp: restore_rollback_entry_def or_return_def split: sum.splits option.splits)
qed

section \<open>Runs\<close>

definition commit_log_start :: commit_log where
  "commit_log_start = commit_log_new file_wal_new status_table_new"

definition durable_of :: "commit_log \<Rightarrow> wal_record list" where
  "durable_of l = file_wal_durable_records (log_wal l)"

inductive commit_log_step :: "commit_log \<Rightarrow> commit_log \<Rightarrow> bool" where
  begin_record: "tx \<noteq> 0 \<Longrightarrow> \<not> mentions_transaction tx (records_of l) \<Longrightarrow> append_tx_begin (log_wal l) tx = (w, res) \<Longrightarrow>
    commit_log_step l (l\<lparr>log_wal := w\<rparr>)"
| data_record: "kind \<noteq> TxBegin \<Longrightarrow> \<not> terminal_kind kind \<Longrightarrow> (\<And>t. tx = Some t \<Longrightarrow> open_in t (records_of l)) \<Longrightarrow>
    length payload < 2 ^ 64 \<Longrightarrow> file_wal_append_payload (log_wal l) kind tx payload = (w, res) \<Longrightarrow>
    commit_log_step l (l\<lparr>log_wal := w\<rparr>)"
| flush_log: "file_wal_flush_through (log_wal l) x = (w, res) \<Longrightarrow> durable_kept l (l\<lparr>log_wal := w\<rparr>) res \<Longrightarrow>
    commit_log_step l (l\<lparr>log_wal := w\<rparr>)"
| file_faults: "commit_log_step l (l\<lparr>log_wal := (log_wal l)\<lparr>wal_file := (wal_file (log_wal l))\<lparr>io_faults := fs\<rparr>\<rparr>\<rparr>)"
| in_flight: "commit_log_step l (l\<lparr>log_status := fst (record_status (log_status l) tx InFlight)\<rparr>)"
| commit_call: "record_commit l tx isolation rows h now = (l', res) \<Longrightarrow> commit_ready l tx \<Longrightarrow> durable_kept l l' res \<Longrightarrow>
    commit_log_step l l'"
| rollback_call: "record_rollback l tx h now = (l', res) \<Longrightarrow> rollback_ready l tx \<Longrightarrow> durable_kept l l' res \<Longrightarrow>
    commit_log_step l l'"
| committed_query: "commit_log_step l (fst (log_is_committed l tx))"
| rolled_back_query: "commit_log_step l (fst (log_is_rolled_back l tx))"
| collection: "commit_log_step l (fst (gc_remove l txs))"
| rebuild: "commit_log_step l (fst (rebuild_status_from_records l))"
| commit_evidence: "has_kind (commit_tx_id e) TxCommit (durable_of l) \<Longrightarrow> commit_log_step l (fst (restore_commit_entry l e))"
| rollback_evidence: "has_kind (rollback_tx_id f) TxRollback (durable_of l) \<Longrightarrow>
    commit_log_step l (fst (restore_rollback_entry l f))"
| restart: "crash_image (wal_file (log_wal l)) img \<Longrightarrow> unat (fw_durable_bytes (log_wal l)) + 80 < 2 ^ 64 \<Longrightarrow>
    file_wal_open (disk_of img) = (d, Inr w) \<Longrightarrow> tx_replay_from_file_wal w = Inr (out, ev) \<Longrightarrow>
    reconstruct_from_tx_wal_replay (commit_log_new w status_table_new) out = (l', res) \<Longrightarrow> commit_log_step l l'"

lemma durable_of_backed: "log_backed n l \<Longrightarrow> durable_of l = take n (records_of l)"
  by (simp add: durable_of_def records_of_def log_backed_def holds_durable_records)

lemma orderly_nonzero: "orderly rs \<Longrightarrow> last_record tx rs = Some r \<Longrightarrow> tx \<noteq> 0"
  by (induction rs rule: rev_induct) (auto simp: admissible_def split: if_splits)

lemma append_backed:
  assumes "log_backed n l" and "length payload < 2 ^ 64" and "file_wal_append_payload (log_wal l) kind tx payload = (w, res)"
    and "\<And>r. kind_of r = kind \<Longrightarrow> rec_tx r = tx \<Longrightarrow> admissible (records_of l) r"
  shows "grows_to n l n (l\<lparr>log_wal := w\<rparr>)"
proof -
  have holds: "file_wal_holds n (log_wal l)" "orderly (records_of l)" using assms(1) by (auto simp: log_backed_def)
  note out = append_payload_holds [OF holds(1) assms(2,3)]
  have "orderly (fw_records w)" "take n (fw_records w) = take n (records_of l)"
    using out holds assms(4) log_backed_prefix [OF assms(1)] by (auto simp: records_of_def)
  then show ?thesis using log_backed_wal [OF assms(1) order_refl] out by (simp add: grows_to_def records_of_def)
qed

lemma flush_backed:
  assumes "log_backed n l" and "file_wal_flush_through (log_wal l) x = (w, res)" and "durable_kept l (l\<lparr>log_wal := w\<rparr>) res"
  shows "\<exists>m. grows_to n l m (l\<lparr>log_wal := w\<rparr>)"
proof -
  have holds: "file_wal_holds n (log_wal l)" "orderly (records_of l)" using assms(1) by (auto simp: log_backed_def)
  obtain m where m: "n \<le> m" "file_wal_holds m w" "fw_records w = records_of l"
    using file_wal_flush_holds [OF holds(1) assms(2)] assms(3) by (auto simp: durable_kept_def records_of_def)
  have "log_backed m (l\<lparr>log_wal := w\<rparr>)" using log_backed_wal [OF assms(1) m(1,2)] m(3) holds(2) by simp
  then show ?thesis using m by (auto simp: grows_to_def records_of_def)
qed

lemma faults_backed:
  assumes "log_backed n l"
  shows "grows_to n l n (l\<lparr>log_wal := (log_wal l)\<lparr>wal_file := (wal_file (log_wal l))\<lparr>io_faults := fs\<rparr>\<rparr>\<rparr>)"
proof -
  have holds: "file_wal_holds n (log_wal l)" "orderly (records_of l)" using assms(1) by (auto simp: log_backed_def)
  have "same_file (wal_file (log_wal l)) ((wal_file (log_wal l))\<lparr>io_faults := fs\<rparr>)" by (simp add: same_file_def)
  then have "file_wal_holds n ((log_wal l)\<lparr>wal_file := (wal_file (log_wal l))\<lparr>io_faults := fs\<rparr>\<rparr>)"
    using holds(1) disk_holds_same by (auto simp: file_wal_holds_def)
  from log_backed_wal [OF assms order_refl this] holds(2) show ?thesis by (simp add: grows_to_def records_of_def)
qed

lemma in_flight_backed:
  "log_backed n l \<Longrightarrow> grows_to n l n (l\<lparr>log_status := fst (record_status (log_status l) tx InFlight)\<rparr>)"
  by (rule grows_to_same_wal)
    (auto simp: log_backed_def records_of_def record_status_def btree_map.invar_put is_terminal_def
      split: sum.splits option.splits if_splits)

lemma commit_log_step_backed:
  assumes "commit_log_step l l'" and backed: "log_backed n l"
  shows "\<exists>m. grows_to n l m l'"
  using assms(1)
proof cases
  case (begin_record tx w res)
  have "admissible (records_of l) r" if "kind_of r = TxBegin" "rec_tx r = Some tx" for r
    using that begin_record(2,3) by (simp add: admissible_def payload_readable_def last_record_None)
  then show ?thesis using append_backed [OF backed _ begin_record(4) [unfolded append_tx_begin_def]] begin_record(1) by auto
next
  case (data_record kind tx payload w res)
  have "admissible (records_of l) r" if "kind_of r = kind" "rec_tx r = tx" for r
  proof (cases tx)
    case (Some t)
    have "orderly (records_of l)" using backed by (simp add: log_backed_def)
    then have "t \<noteq> 0" using data_record(4) [OF Some] orderly_nonzero by (auto simp: open_in_def split: option.splits)
    then show ?thesis
      using that data_record(2-4) Some by (simp add: admissible_def payload_readable_def terminal_kind_def)
  qed (use that data_record(2,3) in \<open>simp add: admissible_def payload_readable_def terminal_kind_def\<close>)
  then show ?thesis using append_backed [OF backed data_record(5,6)] data_record(1) by auto
next
  case (commit_evidence e)
  then show ?thesis using restore_commit_entry_backed [OF backed] durable_of_backed [OF backed] by auto
next
  case (rollback_evidence e)
  then show ?thesis using restore_rollback_entry_backed [OF backed] durable_of_backed [OF backed] by auto
next
  case (restart img d w out ev res)
  then show ?thesis using restart_backed [OF backed restart(1,2)] by fastforce
next
  case (flush_log x w res)
  then show ?thesis using flush_backed [OF backed] by simp
next
  case (file_faults fs)
  then show ?thesis using faults_backed [OF backed] by blast
next
  case (in_flight tx)
  then show ?thesis using in_flight_backed [OF backed] by blast
next
  case (commit_call tx isolation rows h now res)
  then show ?thesis using record_commit_backed [OF backed] by blast
next
  case (rollback_call tx h now res)
  then show ?thesis using record_rollback_backed [OF backed] by blast
next
  case (committed_query tx)
  then show ?thesis using rebuild_status_backed [OF backed, of tx] by (auto simp: log_is_committed_def Let_def)
next
  case (rolled_back_query tx)
  then show ?thesis using rebuild_status_backed [OF backed, of tx] by (auto simp: log_is_rolled_back_def Let_def)
next
  case (collection txs)
  then show ?thesis using gc_remove_backed [OF backed] by blast
next
  case rebuild
  then show ?thesis using rebuild_all_backed [OF backed] by blast
qed

lemma grows_to_trans:
  assumes "grows_to n l m l'" and "grows_to m l' k l''"
  shows "grows_to n l k l''"
proof -
  have "take n (take m (records_of l'')) = take n (take m (records_of l'))" using assms(2) by (simp add: grows_to_def)
  then show ?thesis using assms by (simp add: grows_to_def min_def)
qed

lemma commit_log_run_backed:
  assumes "commit_log_step\<^sup>*\<^sup>* l l'" and "log_backed n l"
  shows "\<exists>m. grows_to n l m l'"
  using assms(1)
proof (induction rule: rtranclp_induct)
  case base
  then show ?case using grows_to_refl [OF assms(2)] by blast
next
  case (step u v)
  then show ?case using commit_log_step_backed grows_to_trans by (metis grows_to_def)
qed

interpretation commit_logs: invariant_system commit_log_start commit_log_step "\<lambda>l. \<exists>n. log_backed n l"
proof
  obtain n where "file_wal_holds n file_wal_new" using file_log.reachable_inv by blast
  moreover have "fw_records file_wal_new = []" by (simp add: file_wal_new_eq reopened_def)
  ultimately have "log_backed n commit_log_start"
    by (simp add: log_backed_def records_of_def commit_log_start_def commit_log_new_def btree_inv_def hash_inv_def
        status_table_new_def status_def)
  then show "\<exists>n. log_backed n commit_log_start" by blast
qed (use commit_log_step_backed in \<open>unfold grows_to_def, blast\<close>)

section \<open>Progress\<close>

lemma terminal_record_ok:
  assumes "writable n w" and "io_faults (wal_file w) = []" and "length payload \<le> 1048576"
  shows "\<exists>w' r. append_and_flush_terminal_record w kind tx payload name = (w', Inr (record_lsn r, record_lsn r)) \<and>
    fw_records w' = fw_records w @ [r] \<and> kind_of r = kind \<and> rec_tx r = Some tx \<and> record_lsn r \<noteq> 0 \<and>
    unat (fw_durable_bytes w') = length (log_bytes (fw_records w @ [r])) \<and> unsynced (wal_file w') = [] \<and>
    file_wal_holds (length (fw_records w')) w'"
proof -
  obtain r where r: "payload_record kind (fw_last_lsn w) (Some tx) payload = Inr r" using payload_record_ok [OF assms(1)] by blast
  note fields = payload_record_fields [OF r]
  obtain w1 where append: "file_wal_append_payload w kind (Some tx) payload = (w1, Inr (record_lsn r))"
      "fw_records w1 = fw_records w @ [r]" "io_faults (wal_file w1) = []" "flush_separation w1 = p0_durable" "file_wal_holds n w1"
    using append_payload_ok [OF assms(1) r assms(3)] assms(1,2) by (auto simp: writable_def)
  have n: "n \<le> length (fw_records w)" using assms(1) by (simp add: writable_def file_wal_holds_def)
  obtain w2 where flush: "file_wal_flush_through w1 (record_lsn r) = (w2, Inr (record_lsn r))" "fw_records w2 = fw_records w1"
      "unat (fw_durable_bytes w2) = length (log_bytes (fw_records w1))" "unsynced (wal_file w2) = []"
    using flush_last_ok [OF append(5,4,2) n append(3)] by blast
  obtain m where m: "file_wal_holds m w2" "record_lsn r = of_nat m"
    using file_wal_flush_holds [OF append(5) flush(1)] by auto
  have count: "unat (record_lsn r) = Suc (length (fw_records w))" using snoc_chain_lsn [OF append(5,2)] .
  have "m < 2 ^ 64" using m(1) chain_length_bound by (fastforce simp: file_wal_holds_def)
  then have "m = length (fw_records w2)" using m(2) count flush(2) append(2) by (simp add: unat_of_nat)
  then show ?thesis
    using append flush m(1) fields count
    by (intro exI [of _ w2] exI [of _ r])
      (auto simp: append_and_flush_terminal_record_def validate_durable_flush_covers_record_def)
qed

lemma record_commit_ok:
  assumes "writable n (log_wal l)" and "io_faults (wal_file (log_wal l)) = []" and "tx \<noteq> 0"
    and "map_of (commit_entries l) tx = None" and "map_of (rollback_entries l) tx = None"
    and "status (log_status l) tx \<noteq> Some RolledBack" and "btree_inv (log_status l)"
  shows "\<exists>l' e r. record_commit l tx isolation rows h now = (l', Inr e) \<and> commit_tx_id e = tx \<and>
    status (log_status l') tx = Some Committed \<and> records_of l' = records_of l @ [r] \<and> kind_of r = TxCommit \<and>
    rec_tx r = Some tx \<and> file_wal_holds (length (records_of l')) (log_wal l') \<and> unsynced (wal_file (log_wal l')) = [] \<and>
    unat (fw_durable_bytes (log_wal l')) = length (log_bytes (records_of l'))"
proof -
  obtain w r where io: "append_and_flush_terminal_record (log_wal l) TxCommit tx
        (encode_commit_payload isolation rows h) ''commit'' = (w, Inr (record_lsn r, record_lsn r))"
      "fw_records w = records_of l @ [r]" "kind_of r = TxCommit" "rec_tx r = Some tx" "record_lsn r \<noteq> 0"
      "unat (fw_durable_bytes w) = length (log_bytes (records_of l @ [r]))" "unsynced (wal_file w) = []"
      "file_wal_holds (length (fw_records w)) w"
    using terminal_record_ok [OF assms(1,2), of "encode_commit_payload isolation rows h" TxCommit tx "''commit''"]
    by (auto simp: records_of_def)
  define e where "e = \<lparr>commit_tx_id = tx, commit_lsn = record_lsn r, commit_durable_lsn = record_lsn r,
    commit_timestamp = now, row_count_affected = rows, commit_isolation = isolation\<rparr>"
  define l1 where "l1 = l\<lparr>log_wal := w, commit_entries := AList.update tx e (commit_entries l)\<rparr>"
  have e: "commit_from_durable_wal tx (record_lsn r) (record_lsn r) now rows isolation = Inr e" "commit_entry_validate e = Inr ()"
    using assms(3) io(5) by (simp_all add: commit_from_durable_wal_def commit_entry_validate_def e_def)
  consider "status (log_status l) tx = None" | "status (log_status l) tx = Some InFlight" | "status (log_status l) tx = Some Committed"
    using assms(6) by (metis option.exhaust transaction_status.exhaust)
  then have "\<exists>t. record_committed_after_durable_wal (log_status l) tx (record_lsn r) (record_lsn r) = (t, Inr ()) \<and>
      status t tx = Some Committed"
    using assms(7) io(5)
    by cases (simp_all add: status_operations validate_terminal_status_def validate_terminal_lsn_evidence_def is_terminal_def)
  then obtain t where t: "record_committed_after_durable_wal (log_status l) tx (record_lsn r) (record_lsn r) = (t, Inr ())"
      "status t tx = Some Committed" by blast
  have "record_commit l tx isolation rows h now = (l1\<lparr>log_status := t\<rparr>, Inr e)"
    using assms(3-6) io(1) e t(1)
    by (simp add: record_commit_def validate_log_transaction_id_def existing_commit_entry_def
        reject_commit_after_rollback_def restore_commit_status_from_entry_def Let_def l1_def)
      (simp add: e_def)
  then show ?thesis using io t(2) by (intro exI [of _ "l1\<lparr>log_status := t\<rparr>"]) (auto simp: l1_def e_def records_of_def)
qed

lemma open_unfinished:
  assumes "log_backed n l" and "open_in tx (records_of l)"
  shows "map_of (commit_entries l) tx = None" "map_of (rollback_entries l) tx = None"
    "status (log_status l) tx \<noteq> Some RolledBack" "tx \<noteq> 0"
proof -
  have orderly: "orderly (records_of l)" using assms(1) by (simp add: log_backed_def)
  have none: "\<not> has_kind tx k (take n (records_of l))" if "terminal_kind k" for k
  proof
    assume "has_kind tx k (take n (records_of l))"
    then have "has_kind tx k (records_of l)" by (auto simp: has_kind_def list_ex_iff dest: in_set_takeD)
    then show False using orderly_terminal [OF orderly that] assms(2) that by (auto simp: open_in_def)
  qed
  have kinds: "terminal_kind TxCommit" "terminal_kind TxRollback" by (simp_all add: terminal_kind_def)
  show "map_of (commit_entries l) tx = None"
    using assms(1) none [OF kinds(1)] by (cases "map_of (commit_entries l) tx") (auto simp: log_backed_def)
  show "map_of (rollback_entries l) tx = None"
    using assms(1) none [OF kinds(2)] by (cases "map_of (rollback_entries l) tx") (auto simp: log_backed_def)
  show "status (log_status l) tx \<noteq> Some RolledBack" using assms(1) none [OF kinds(2)] by (auto simp: log_backed_def)
  show "tx \<noteq> 0" using orderly_nonzero [OF orderly] assms(2) by (auto simp: open_in_def split: option.splits)
qed

lemma failed_commit_appends:
  assumes "writable n (log_wal l)" and "io_faults (wal_file (log_wal l)) = [None, None, Some (k, m)]" and "tx \<noteq> 0"
    and "map_of (commit_entries l) tx = None" and "map_of (rollback_entries l) tx = None"
    and "status (log_status l) tx \<noteq> Some RolledBack"
  shows "\<exists>w err r. record_commit l tx isolation rows h now = (l\<lparr>log_wal := w\<rparr>, Inl err) \<and> fw_records w = records_of l @ [r] \<and>
    kind_of r = TxCommit \<and> rec_tx r = Some tx \<and> bounded_record r \<and> file_wal_holds n w \<and>
    flush_separation w = p0_durable \<and> io_faults (wal_file w) = []"
proof -
  let ?payload = "encode_commit_payload isolation rows h"
  obtain r where r: "payload_record TxCommit (fw_last_lsn (log_wal l)) (Some tx) ?payload = Inr r"
    using payload_record_ok [OF assms(1)] by blast
  obtain w1 where append: "file_wal_append_payload (log_wal l) TxCommit (Some tx) ?payload = (w1, Inr (record_lsn r))"
      "fw_records w1 = records_of l @ [r]" "io_faults (wal_file w1) = [Some (k, m)]" "flush_separation w1 = p0_durable"
      "file_wal_holds n w1"
    using append_payload_ok [OF assms(1) r] assms(1,2) by (auto simp: writable_def records_of_def)
  have "n \<le> length (records_of l)" using assms(1) by (simp add: writable_def file_wal_holds_def records_of_def)
  from flush_last_faulty [OF append(5,4,2) this append(3)] obtain err where
    flush: "file_wal_flush_through w1 (record_lsn r) = (w1\<lparr>wal_file := (wal_file w1)\<lparr>io_faults := []\<rparr>\<rparr>, Inl err)" by blast
  have "same_file (wal_file w1) ((wal_file w1)\<lparr>io_faults := []\<rparr>)" by (simp add: same_file_def)
  then have "file_wal_holds n (w1\<lparr>wal_file := (wal_file w1)\<lparr>io_faults := []\<rparr>\<rparr>)"
    using append(5) disk_holds_same by (auto simp: file_wal_holds_def)
  moreover have "record_commit l tx isolation rows h now = (l\<lparr>log_wal := w1\<lparr>wal_file := (wal_file w1)\<lparr>io_faults := []\<rparr>\<rparr>\<rparr>, Inl err)"
    using assms(3-6) append(1) flush
    by (simp add: record_commit_def validate_log_transaction_id_def existing_commit_entry_def
        reject_commit_after_rollback_def append_and_flush_terminal_record_def Let_def)
  ultimately show ?thesis
    using append payload_record_fields [OF r] payload_record_appendable(2) [OF r]
    by (intro exI [of _ "w1\<lparr>wal_file := (wal_file w1)\<lparr>io_faults := []\<rparr>\<rparr>"] exI [of _ err] exI [of _ r]) simp
qed

lemma double_commit_refused:
  assumes "record_chain None rs" and "list_all (\<lambda>r. record_validate r = Inr ()) rs" and "rs = pre @ [c, d]"
    and "rec_tx c = Some tx" and "rec_tx d = Some tx" and "kind_of c = TxCommit" and "kind_of d = TxCommit"
  shows "\<exists>e. map_checked_wal_evidence_to_tx_replay rs = Inl e"
proof -
  have "rs = (pre @ [c]) @ [d]" using assms(3) by simp
  moreover have "\<not> admissible (pre @ [c]) d"
    using assms(4-7) by (simp add: admissible_def open_in_def terminal_kind_def)
  ultimately have "\<not> orderly rs" by (simp only: orderly_after_append) simp
  then show ?thesis using evidence_exact [OF assms(1,2)] by simp
qed

section \<open>A sample run\<close>

text \<open>Transaction 7 has begun; the next file operations fail as given.\<close>

definition begun :: "(nat \<times> string) option list \<Rightarrow> commit_log" where
  "begun fs = commit_log_new (sample_log\<lparr>wal_file := (wal_file sample_log)\<lparr>io_faults := fs\<rparr>\<rparr>) status_table_new"

lemma sample_begin_record: "payload_record TxBegin None (Some 7) [] = Inr sample_begin"
  by (simp add: payload_record_def try_next_lsn_def from_parts_def wal_record_new_def record_validate_def
      record_header_validate_def wal_record_checksum_pos sample_begin_def sample_record_def Let_def)

lemma begun_reachable: "commit_log_step\<^sup>*\<^sup>* commit_log_start (begun fs)"
proof -
  have "fw_last_lsn file_wal_new = None"
    by (simp add: file_wal_new_eq reopened_def fw_last_lsn_def records_last_lsn_def)
  then have "append_tx_begin file_wal_new 7 = (sample_log, Inr 1)"
    by (simp add: append_tx_begin_def file_wal_append_payload_def sample_begin_record sample_append)
  moreover have "\<not> mentions_transaction 7 (records_of commit_log_start)"
    by (simp add: records_of_def commit_log_start_def commit_log_new_def file_wal_new_eq reopened_def mentions_transaction_def)
  ultimately have "commit_log_step commit_log_start (commit_log_start\<lparr>log_wal := sample_log\<rparr>)"
    using begin_record [of 7 commit_log_start sample_log "Inr 1"] by (simp add: commit_log_start_def commit_log_new_def)
  moreover have "commit_log_step (commit_log_start\<lparr>log_wal := sample_log\<rparr>) (begun fs)"
    using file_faults [of "commit_log_start\<lparr>log_wal := sample_log\<rparr>" fs]
    by (simp add: begun_def commit_log_start_def commit_log_new_def)
  ultimately show ?thesis by (meson r_into_rtranclp rtranclp.rtrancl_into_rtrancl)
qed

lemma begun_facts:
  "records_of (begun fs) = [sample_begin]" "flush_separation (log_wal (begun fs)) = p0_durable"
  "io_faults (wal_file (log_wal (begun fs))) = fs" "log_status (begun fs) = []" "commit_entries (begun fs) = []"
  "rollback_entries (begun fs) = []" "fw_durable_lsn (log_wal (begun fs)) = 0"
  by (simp_all add: begun_def commit_log_new_def records_of_def sample_log_fields status_table_new_def)

lemma begun_open: "open_in 7 (records_of (begun fs))"
  by (simp add: begun_facts open_in_def sample_begin_def sample_record_def terminal_kind_def)

lemma begun_writable: "writable 0 (log_wal (begun fs))"
proof -
  obtain n where n: "file_wal_holds n (log_wal (begun fs))"
    using commit_logs.reachable_inv [OF begun_reachable] unfolding log_backed_def by blast
  moreover from this have "n \<le> 1" "of_nat n = (0 :: u64)"
    using begun_facts(1,7) [of fs] by (auto simp: file_wal_holds_def records_of_def)
  ultimately have "file_wal_holds 0 (log_wal (begun fs))" by (cases n) auto
  then show ?thesis
    using begun_facts(1,2) [of fs] by (simp add: writable_def records_of_def sample_record_bytes)
qed

lemma begun_commits:
  "\<exists>l e. record_commit (begun []) 7 Snapshot 3 4 now = (l, Inr e) \<and> status (log_status l) 7 = Some Committed \<and>
     unat (fw_durable_bytes (log_wal l)) + 80 < 2 ^ 64"
proof -
  obtain l e r where l: "record_commit (begun []) 7 Snapshot 3 4 now = (l, Inr e)" "status (log_status l) 7 = Some Committed"
      "records_of l = [sample_begin, r]" "file_wal_holds (length (records_of l)) (log_wal l)"
      "unat (fw_durable_bytes (log_wal l)) = length (log_bytes (records_of l))"
    using record_commit_ok [OF begun_writable, of "[]" 7 Snapshot 3 4 now] begun_facts [of "[]"]
    by (auto simp: status_def btree_inv_def)
  then have "bounded_record r" by (simp add: file_wal_holds_def records_of_def)
  then have "length (record_bytes r) \<le> 72 + 1048576" using record_bytes_length(1) by (simp add: bounded_record_def)
  then show ?thesis using l sample_record_bytes by auto
qed

lemma synced_is_crash_image: "crash_image d (synced_bytes d)"
  by (simp add: crash_image_def)

section \<open>Properties\<close>

text \<open>
  C1. An acknowledged outcome survives. Once \<open>record_commit\<close> or \<open>record_rollback\<close> has returned an entry,
  then after any further calls, failing file operations and restarts, and whatever a crash leaves of the
  bytes that no sync had covered, the file opens, the bridge accepts its records, the reconstruction of an
  empty commit log succeeds, and the rebuilt status table has the acknowledged outcome. The runs are
  those of \<open>commit_log_step\<close>: a terminal record is requested for a transaction that is open in the log or
  has its entry already, and a flush that fails does not leave the durable LSN advanced.
\<close>

theorem acknowledged_outcome_survives:
  assumes "commit_log_step\<^sup>*\<^sup>* commit_log_start l"
    and "commit_ready l tx \<and> record_commit l tx isolation rows h now = (l1, Inr e) \<and> st = Committed \<or>
      rollback_ready l tx \<and> record_rollback l tx h now = (l1, Inr f) \<and> st = RolledBack"
    and "commit_log_step\<^sup>*\<^sup>* l1 l2" and "crash_image (wal_file (log_wal l2)) img"
    and "unat (fw_durable_bytes (log_wal l2)) + 80 < 2 ^ 64"
  shows "\<exists>d w out ev l3 s. file_wal_open (disk_of img) = (d, Inr w) \<and> tx_replay_from_file_wal w = Inr (out, ev) \<and>
    reconstruct_from_tx_wal_replay (commit_log_new w status_table_new) out = (l3, Inr s) \<and>
    status (log_status l3) tx = Some st"
proof -
  define k where "k = (if st = Committed then TxCommit else TxRollback)"
  obtain n where n: "log_backed n l" using commit_logs.reachable_inv [OF assms(1)] by blast
  have "\<exists>m. grows_to n l m l1 \<and> has_kind tx k (take m (records_of l1))"
    using assms(2) record_commit_backed [OF n, of tx isolation rows h now l1 "Inr e"]
      record_rollback_backed [OF n, of tx h now l1 "Inr f"] by (auto simp: durable_kept_def k_def)
  then obtain m where m: "log_backed m l1" "has_kind tx k (take m (records_of l1))" by (auto simp: grows_to_def)
  obtain p where p: "m \<le> p" "log_backed p l2" "take m (records_of l2) = take m (records_of l1)"
    using commit_log_run_backed [OF assms(3) m(1)] by (auto simp: grows_to_def)
  have kind: "has_kind tx k (take p (records_of l2))" using has_kind_grows [OF m(2) p(1,3)] .
  have "orderly (take p (records_of l2))" using p(2) orderly_take by (auto simp: log_backed_def)
  then have "\<not> (has_kind tx TxCommit (take p (records_of l2)) \<and> has_kind tx TxRollback (take p (records_of l2)))"
    by (auto simp: orderly_terminal terminal_kind_def)
  with kind assms(2) restart_backed [OF p(2) assms(4,5)] show ?thesis by (auto simp: k_def)
qed

theorem acknowledged_outcome_survives_witness:
  "\<exists>l e d w out ev l3 s. record_commit (begun []) 7 Snapshot 3 4 100 = (l, Inr e) \<and>
     file_wal_open (disk_of (synced_bytes (wal_file (log_wal l)))) = (d, Inr w) \<and>
     tx_replay_from_file_wal w = Inr (out, ev) \<and>
     reconstruct_from_tx_wal_replay (commit_log_new w status_table_new) out = (l3, Inr s) \<and>
     status (log_status l3) 7 = Some Committed"
proof -
  obtain l e where l: "record_commit (begun []) 7 Snapshot 3 4 100 = (l, Inr e)"
      "unat (fw_durable_bytes (log_wal l)) + 80 < 2 ^ 64" using begun_commits by blast
  have "commit_ready (begun []) 7" using begun_open by (simp add: commit_ready_def)
  with l show ?thesis
    using acknowledged_outcome_survives [OF begun_reachable, where ?tx = 7 and ?l1.0 = l and ?l2.0 = l and ?st = Committed]
      synced_is_crash_image by auto
qed



text \<open>
  C9. A commit is acknowledged when nothing fails. In every state of a run, for a transaction that is open in
  the log, on a file with no failure to come, with the queue separation the log was opened with and fewer
  than \<open>2 ^ 62\<close> bytes, \<open>record_commit\<close> returns an entry, and the status table then says committed.
\<close>

theorem fault_free_commit_acknowledged:
  assumes "commit_log_step\<^sup>*\<^sup>* commit_log_start l" and "open_in tx (records_of l)"
    and "io_faults (wal_file (log_wal l)) = []" and "flush_separation (log_wal l) = p0_durable"
    and "length (log_bytes (records_of l)) < 2 ^ 62"
  shows "\<exists>l' e. record_commit l tx isolation rows h now = (l', Inr e) \<and> commit_tx_id e = tx \<and>
    status (log_status l') tx = Some Committed \<and> has_kind tx TxCommit (durable_of l')"
proof -
  obtain n where n: "log_backed n l" using commit_logs.reachable_inv [OF assms(1)] by blast
  have "writable n (log_wal l)" "btree_inv (log_status l)"
    using n assms(4,5) by (auto simp: log_backed_def writable_def records_of_def)
  then obtain l' e r where call: "record_commit l tx isolation rows h now = (l', Inr e)" "commit_tx_id e = tx"
      "status (log_status l') tx = Some Committed" "records_of l' = records_of l @ [r]" "kind_of r = TxCommit"
      "rec_tx r = Some tx" "file_wal_holds (length (records_of l')) (log_wal l')"
    using record_commit_ok [OF _ assms(3)] open_unfinished [OF n assms(2)] by blast
  have "durable_of l' = records_of l'" using holds_durable_records [OF call(7)] by (simp add: durable_of_def records_of_def)
  then have "has_kind tx TxCommit (durable_of l')" using call(4-6) by (simp add: has_kind_def is_for_transaction_def)
  with call(1-3) show ?thesis by blast
qed

theorem fault_free_commit_acknowledged_witness:
  "\<exists>l e. record_commit (begun []) 7 Serializable 0 9 100 = (l, Inr e) \<and> has_kind 7 TxCommit (durable_of l)"
  using fault_free_commit_acknowledged [OF begun_reachable begun_open, of "[]" Serializable 0 9 100]
    begun_facts [of "[]"] sample_record_bytes by auto

text \<open>
  C35. A retried commit makes the log unreadable for recovery. Transaction 7 has begun; the sync of its first
  commit attempt fails, so \<open>record_commit\<close> returns an error, with the commit record appended. The
  retry appends a second commit record, is flushed, and is acknowledged. From then on the bridge refuses the
  whole log, also after a crash that keeps every synced byte.
\<close>

theorem retried_commit_blocks_recovery:
  "\<exists>l err l1 e d w err'. commit_log_step\<^sup>*\<^sup>* commit_log_start (begun [None, None, Some (0, ''I/O error'')]) \<and>
     record_commit (begun [None, None, Some (0, ''I/O error'')]) 7 Snapshot 3 4 100 = (l, Inl err) \<and>
     record_commit l 7 Snapshot 3 4 100 = (l1, Inr e) \<and> status (log_status l1) 7 = Some Committed \<and>
     file_wal_open (disk_of (synced_bytes (wal_file (log_wal l1)))) = (d, Inr w) \<and>
     tx_replay_from_file_wal w = Inl err'"
proof -
  define l0 where "l0 = begun [None, None, Some (0, ''I/O error'')]"
  note l0 = begun_facts [of "[None, None, Some (0, ''I/O error'')]", folded l0_def]
  have w0: "writable 0 (log_wal l0)" unfolding l0_def by (rule begun_writable)
  obtain w err r where first: "record_commit l0 7 Snapshot 3 4 100 = (l0\<lparr>log_wal := w\<rparr>, Inl err)"
      "fw_records w = [sample_begin, r]" "kind_of r = TxCommit" "rec_tx r = Some 7" "bounded_record r" "file_wal_holds 0 w"
      "flush_separation w = p0_durable" "io_faults (wal_file w) = []"
    using failed_commit_appends [OF w0, of 0 "''I/O error''" 7 Snapshot 3 4 100] l0 by (auto simp: status_def)
  have "length (record_bytes r) \<le> 72 + 1048576"
    using first(5) record_bytes_length(1) by (simp add: bounded_record_def)
  then have w: "writable 0 (log_wal (l0\<lparr>log_wal := w\<rparr>))" using first sample_record_bytes by (simp add: writable_def)
  obtain l1 e r1 where retry: "record_commit (l0\<lparr>log_wal := w\<rparr>) 7 Snapshot 3 4 100 = (l1, Inr e)"
      "status (log_status l1) 7 = Some Committed" "records_of l1 = [sample_begin] @ [r, r1]" "kind_of r1 = TxCommit"
      "rec_tx r1 = Some 7" "file_wal_holds (length (records_of l1)) (log_wal l1)"
      "unat (fw_durable_bytes (log_wal l1)) = length (log_bytes (records_of l1))"
    using record_commit_ok [OF w, of 7 Snapshot 3 4 100] first l0 by (auto simp: status_def btree_inv_def records_of_def)
  have log: "record_chain None (records_of l1)" "list_all bounded_record (records_of l1)"
    using retry(6) by (auto simp: file_wal_holds_def records_of_def)
  have "length (record_bytes r1) \<le> 72 + 1048576"
    using log(2) retry(3) record_bytes_length(1) by (auto simp: bounded_record_def)
  then have "unat (fw_durable_bytes (log_wal l1)) + 80 < 2 ^ 64"
    using retry(3,7) sample_record_bytes \<open>length (record_bytes r) \<le> 72 + 1048576\<close> by simp
  from file_wal_crash_holds [OF retry(6) synced_is_crash_image this] obtain d w' where reopened:
    "file_wal_open (disk_of (synced_bytes (wal_file (log_wal l1)))) = (d, Inr w')"
    "file_wal_holds (length (records_of l1)) w'" "fw_records w' = records_of l1" by (auto simp: records_of_def)
  have "file_wal_durable_records w' = records_of l1" using holds_durable_records [OF reopened(2)] reopened(3) by simp
  moreover obtain err' where "map_checked_wal_evidence_to_tx_replay (records_of l1) = Inl err'"
    using double_commit_refused [OF log(1) bounded_valid [OF log(2)] retry(3)] first(3,4) retry(4,5) by blast
  ultimately have "tx_replay_from_file_wal w' = Inl err'"
    using durable_prefix_holds [OF reopened(2)] by (simp add: tx_replay_from_file_wal_def)
  with first(1) retry(1,2) reopened(1) begun_reachable show ?thesis unfolding l0_def by blast
qed

end
