(* ===== verification/Spec2Isabelle.thy ===== *)
theory Spec2Isabelle
  imports Deadlock_Props Mvcc_Props Transaction_Props Wal_Segment_Props Commit_Log_Props
begin

text \<open>
  A verification library for the transaction kernel of the Andromeda database engine.

  \<^bold>\<open>The program.\<close> Andromeda is a Rust workspace. Its durable kernel decides which transaction may
  touch what, which row version a reader sees, and what survives a crash: \<open>andromeda-locking\<close> keeps the
  lock table and detects deadlocks, \<open>andromeda-mvcc\<close> keeps transaction outcomes, snapshots and row
  versions and decides what may be collected, \<open>andromeda-savepoint\<close> keeps savepoints and the undo list of
  a transaction, \<open>andromeda-transaction\<close> runs the life cycle of transactions over these three,
  \<open>andromeda-wal-codec\<close> and \<open>andromeda-wal\<close> write and read the log, and \<open>andromeda-transaction-log\<close> ties the two
  together: it appends and flushes the terminal record of a transaction before the status table shows its
  outcome, and after a restart the bridge of \<open>andromeda-recovery\<close> reads the outcomes back from the log. All
  fallible operations return the errors of \<open>andromeda-error\<close>.

  \<^bold>\<open>Conventions.\<close> An operation on \<open>&mut self\<close>, or on a mutex guarded state, is a function
  from the state to the new state and a result, \<open>error + 'a\<close>; \<open>and_then\<close> is the operator \<open>?\<close>, \<open>or_return\<close>
  the same operator in a function that also returns its state. One call on a mutex guarded object is
  one atomic step. Identifiers, timestamps, log positions and counters are 64 bit words. Where the
  source uses \<open>checked_add\<close> or \<open>saturating_sub\<close> the model does so too, and plain addition wraps as it
  does in a release build. Collection sizes are natural numbers. A \<open>BTreeMap\<close> is an association list kept
  in key order, a \<open>HashMap\<close> one without order; the laws of both are the locale \<open>map_store\<close> of
  \<open>Andromeda_Prelude\<close>.

  \<^bold>\<open>Theories.\<close> A theory \<open>X_Props\<close> has the properties of the component \<open>X\<close>.
  \<^item> \<open>Andromeda_Prelude\<close>: machine integers, errors, text, maps, binary search, and the locale
    \<open>invariant_system\<close>, which carries an invariant along every run of a step relation. Each stateful
    component interprets it.
  \<^item> \<open>Lock_Mode\<close> (\<open>mode.rs\<close>, \<open>resource.rs\<close>): the six modes, their compatibility, covering and upgrade
    tables, resources in their derived order, the catalog lock plans.
  \<^item> \<open>Lock_Manager\<close> (\<open>entry.rs\<close>, \<open>manager_core.rs\<close>, \<open>evidence.rs\<close>): entries, FIFO promotion and every
    operation of \<open>LockManager\<close>. \<open>Lock_Manager_Inv\<close> states and proves the invariant of the lock table;
    \<open>Lock_Manager_Props\<close> shows that holders never conflict, that queues never stall, and what each
    operation does on every branch.
  \<^item> \<open>Deadlock_Graph\<close>, \<open>Deadlock_Policy\<close>, \<open>Deadlock_Cycle\<close>, \<open>Deadlock_Detector\<close> (\<open>deadlock_detection/\<close>):
    the wait-for graph, policies and clocks, the depth-first search and the decisions. The search
    takes a stream of clock readings, so a run is a function of its inputs. \<open>Deadlock_Props\<close> shows that
    the verdict is exactly the existence of a cycle and that detection always answers.
  \<^item> \<open>Mvcc_Status\<close>, \<open>Mvcc_Version\<close>, \<open>Mvcc_Gc\<close> (\<open>status.rs\<close>, \<open>snapshot.rs\<close>, \<open>version.rs\<close>,
    \<open>active_snapshot_registry.rs\<close>, \<open>gc/\<close>): outcomes, visibility, registry and collection. \<open>Mvcc_Props\<close> shows
    that outcomes are final, what a snapshot sees, that an update swaps two versions at once, and that
    nothing visible to a registered snapshot is collected.
  \<^item> \<open>Savepoint\<close> (\<open>stack.rs\<close>, \<open>write_set.rs\<close>): savepoints and the write set; undo restores the state
    at the marker.
  \<^item> \<open>Transaction_State\<close> (\<open>state.rs\<close>, \<open>allocator.rs\<close>, \<open>locking_protocol.rs\<close>, \<open>trace.rs\<close>,
    \<open>transition_sink.rs\<close>, and \<open>transition_trace.rs\<close> of \<open>andromeda-observability\<close>) and
    \<open>Transaction_Manager\<close> (\<open>manager/\<close>): the state machine, the id allocator, the manager with its status
    table and savepoints, and the lock coordinator. \<open>Transaction_Inv\<close> has the invariant and
    the abstract life cycle; \<open>Transaction_Props\<close> shows that the manager refines it and that the system
    of manager and lock table follows two-phase locking along every run.
  \<^item> \<open>Bytes\<close> and \<open>Wal_Codec\<close> (\<open>andromeda-wal-codec\<close>): little-endian fields, the checksum, frames and the
    scan of a log. \<open>Wal_Codec_Props\<close> has the locale \<open>frame_scanner\<close>: any record type whose callbacks
    accept their own frames is read back from a log torn at any byte.
  \<^item> \<open>Wal_Record\<close> (\<open>record.rs\<close>, \<open>record_bounds.rs\<close>, \<open>wal_codec.rs\<close>) and \<open>Wal_Log\<close> (\<open>append_chain.rs\<close>,
    \<open>manager.rs\<close>, \<open>transaction.rs\<close>, \<open>wal_performance.rs\<close>, \<open>wal_segment.rs\<close>): typed records, the in-memory
    log, telemetry and classification. \<open>Wal_Log_Props\<close> shows round trip, detection of corruption,
    recovery of torn logs and the chain invariant.
  \<^item> \<open>File_Wal\<close> (\<open>file_wal/\<close>): the file-backed log over a file whose unsynced changes a crash may lose and
    whose operations may fail. \<open>File_Wal_Props\<close> shows that what a flush acknowledged survives every
    crash, with the one exception it exhibits.
    \<open>Wal_Segment_Props\<close> shows that the bounds of a batch count what the codec writes and that segment
    descriptors are well formed. \<open>File_Wal_Progress\<close> shows that appends and flushes succeed when no file
    operation fails and the log has room.
  \<^item> \<open>Commit_Log\<close> (\<open>andromeda-transaction-log\<close>: \<open>entry.rs\<close>, \<open>rollback.rs\<close>, \<open>wal.rs\<close>, \<open>manager.rs\<close>,
    \<open>manager/\<close>, \<open>replay.rs\<close>, \<open>status_rebuild.rs\<close>) over the file log and the MVCC status table, and \<open>Tx_Replay\<close>
    (\<open>adapter_replay.rs\<close>, and \<open>transaction_wal_bridge.rs\<close> of \<open>andromeda-recovery\<close>). \<open>Tx_Replay_Props\<close> shows that
    replay accepts exactly the logs in which every transaction begins once and ends at most once, and
    rebuilds the outcomes they record. \<open>Commit_Log_Props\<close> runs the whole stack, with failing file
    operations, crashes and restarts: acknowledged outcomes survive, nothing is visible before it is durable,
    and a commit is acknowledged when nothing fails. In these runs a terminal record is only requested for a
    transaction that is open in the log, and a failed flush does not leave the durable LSN advanced. Both
    conditions are needed: \<open>retried_commit_blocks_recovery\<close> shows what a repeated request after a failed
    flush does, and \<open>flush_retry_acknowledges_lost_record\<close> a flush that fails after it advanced the LSN.

  \<^bold>\<open>Fuel.\<close> The search \<open>dfs_cycle_from_until\<close> recurses over unvisited nodes. Its fuel is the
  number of nodes of the graph: every nested call marks a node that was not marked before, so the
  fuel cannot run out, as \<open>detection_always_answers\<close> states. The scan loop of a log terminates because
  every accepted frame has at least the 72 bytes of its header.

  \<^bold>\<open>Bounds.\<close> A payload has fewer than \<open>2 ^ 64\<close> bytes (it is a slice in memory); the log accepts payloads
  up to one MiB. A file is shorter than \<open>2 ^ 64\<close> bytes.

  \<^bold>\<open>Not modelled.\<close> The clocks are parameters. Formatting and parsing of names, getters of single
  fields, the asynchronous runtime around a call, poisoned mutexes outside the components that handle
  them, and floating point estimates are left out, as are the facade crates that only forward calls.
  The other crates of the workspace are not part of the library: the storage engine, catalog and SRPL
  compiler are larger than the kernel and meet it only through the operations modelled here, and
  transport, command line, benchmarks and demos are input and output.
\<close>

end
